(* ===== verification/Prelude.thy ===== *)
theory Prelude
  imports Main "HOL-Library.Word"
begin

text \<open>
  Shared vocabulary of the development: the faults a C++ operation can end in, the result
  type that carries them, sequencing of fallible steps, 32-bit signed truncation, and the
  association-list view of \<open>std::unordered_map\<close> the components use. The lemma
  collections \<open>res_simps\<close> and \<open>map_simps\<close> gather the facts component proofs need.
\<close>

named_theorems res_simps \<open>evaluation of result sequencing\<close>
named_theorems map_simps \<open>lookups in the map models\<close>

section \<open>Results\<close>

text \<open>
  Everything that stops the C++ code from producing a value is a constructor here:
  a read outside the mapped file, an index outside a vector, a dereferenced null pointer,
  signed overflow of a loop counter, \<open>std::bad_variant_access\<close>,
  a byte other than 0 or 1 read as a \<open>bool\<close>, \<open>std::runtime_error\<close>,
  a failed \<open>assert\<close>, a function that ends without returning its value, an integer division by
  zero, a read of a local variable whose function has returned. \<open>OutOfFuel\<close> is not a behaviour of the code: it marks a model run whose bound was too
  small, and each component proves a bound that is enough.
\<close>

datatype fault =
    OutOfMap
  | IndexOutOfRange
  | NullDeref
  | IntOverflow
  | BadVariantAccess
  | InvalidBool
  | RuntimeError string
  | AssertFailed
  | MissingReturn
  | DivisionByZero
  | Dangling
  | OutOfFuel

type_synonym 'a res = "fault + 'a"

type_synonym u8 = "8 word"
type_synonym u32 = "32 word"
type_synonym u64 = "64 word"

definition rbind :: "'e + 'a \<Rightarrow> ('a \<Rightarrow> 'e + 'b) \<Rightarrow> 'e + 'b" where
  "rbind x f = (case x of Inl e \<Rightarrow> Inl e | Inr a \<Rightarrow> f a)"

lemma rbind_Inl [simp, res_simps]: "rbind (Inl e) f = Inl e"
  by (simp add: rbind_def)

lemma rbind_Inr [simp, res_simps]: "rbind (Inr a) f = f a"
  by (simp add: rbind_def)

lemma rbind_cong [fundef_cong]:
  "x = y \<Longrightarrow> (\<And>a. y = Inr a \<Longrightarrow> f a = g a) \<Longrightarrow> rbind x f = rbind y g"
  by (cases y) auto

lemma rbind_eq_Inr: "rbind x f = Inr b \<longleftrightarrow> (\<exists>a. x = Inr a \<and> f a = Inr b)"
  by (cases x) auto

lemma rbind_eq_Inl: "rbind x f = Inl e \<longleftrightarrow> x = Inl e \<or> (\<exists>a. x = Inr a \<and> f a = Inl e)"
  by (cases x) auto

lemma rbind_assoc: "rbind (rbind x f) g = rbind x (\<lambda>a. rbind (f a) g)"
  by (cases x) auto

lemma rbind_Inr_right [simp]: "rbind x Inr = x"
  by (cases x) auto

lemma rbindE [elim]:
  assumes "rbind x f = Inr b"
  obtains a where "x = Inr a" and "f a = Inr b"
  using assms by (auto simp: rbind_eq_Inr)

section \<open>Runs that may not return\<close>

text \<open>
  A loop that may run forever has type \<open>'a res option\<close>: \<open>None\<close> is a run that does not
  return, \<open>Some (Inl e)\<close> one that ends in a fault.
\<close>

type_synonym 'a run = "'a res option"

definition run_bind :: "('e + 'a) option \<Rightarrow> ('a \<Rightarrow> ('e + 'b) option) \<Rightarrow> ('e + 'b) option" where
  "run_bind x f = (case x of None \<Rightarrow> None | Some (Inl e) \<Rightarrow> Some (Inl e) | Some (Inr a) \<Rightarrow> f a)"

lemma run_bind_simps [simp, res_simps]:
  "run_bind None f = None"
  "run_bind (Some (Inl e)) f = Some (Inl e)"
  "run_bind (Some (Inr a)) f = f a"
  by (simp_all add: run_bind_def)

lemma run_bind_option:
  "run_bind x f = Option.bind x (\<lambda>r. case r of Inl e \<Rightarrow> Some (Inl e) | Inr a \<Rightarrow> f a)"
  by (auto simp: run_bind_def split: option.splits sum.splits)

lemma run_bind_mono [partial_function_mono]:
  assumes "mono_option B" and "\<And>y. mono_option (\<lambda>f. C y f)"
  shows "mono_option (\<lambda>f. run_bind (B f) (\<lambda>y. C y f))"
  unfolding run_bind_option
proof (rule bind_mono [OF assms(1)])
  fix r
  show "mono_option (\<lambda>f. case r of Inl e \<Rightarrow> Some (Inl e) | Inr a \<Rightarrow> C a f)"
    by (cases r) (simp_all add: partial_function_mono assms(2))
qed

section \<open>Indexing\<close>

text \<open>\<open>v[i]\<close> on a \<open>std::vector\<close>: reading at or past the end is undefined.\<close>

definition vec_at :: "'a list \<Rightarrow> nat \<Rightarrow> 'a res" where
  "vec_at xs i = (if i < length xs then Inr (xs ! i) else Inl IndexOutOfRange)"

lemma vec_at_in [simp, res_simps]: "i < length xs \<Longrightarrow> vec_at xs i = Inr (xs ! i)"
  by (simp add: vec_at_def)

lemma vec_at_out [simp, res_simps]: "length xs \<le> i \<Longrightarrow> vec_at xs i = Inl IndexOutOfRange"
  by (simp add: vec_at_def)

text \<open>The same with an \<open>int\<close> index, which may be negative.\<close>

definition int_at :: "'a list \<Rightarrow> int \<Rightarrow> 'a res" where
  "int_at xs i = (if 0 \<le> i then vec_at xs (nat i) else Inl IndexOutOfRange)"

lemma int_at_in [simp, res_simps]: "i < length xs \<Longrightarrow> int_at xs (int i) = Inr (xs ! i)"
  by (simp add: int_at_def)

lemma int_at_neg [simp, res_simps]: "i < 0 \<Longrightarrow> int_at xs i = Inl IndexOutOfRange"
  by (simp add: int_at_def)

lemma vec_at_eq_Inr: "vec_at xs i = Inr x \<longleftrightarrow> i < length xs \<and> xs ! i = x"
  by (simp add: vec_at_def)

section \<open>Signed 32-bit truncation\<close>

text \<open>
  Conversion of a wide integer to a C++ \<open>int\<close> keeps the low 32 bits, read as two's
  complement.
\<close>

definition wrap32 :: "int \<Rightarrow> int" where
  "wrap32 x = signed_take_bit 31 x"

lemma wrap32_id: "- (2 ^ 31) \<le> x \<Longrightarrow> x < 2 ^ 31 \<Longrightarrow> wrap32 x = x"
  by (simp add: wrap32_def signed_take_bit_int_eq_self)

lemma wrap32_nat [simp]: "x < 2 ^ 31 \<Longrightarrow> wrap32 (int x) = int x"
  by (rule wrap32_id) auto

lemma wrap32_lower: "- (2 ^ 31) \<le> wrap32 x"
  using signed_take_bit_int_greater_eq_minus_exp [of 31 x] by (simp add: wrap32_def)

lemma wrap32_upper: "wrap32 x < 2 ^ 31"
  using signed_take_bit_int_less_exp [of 31 x] by (simp add: wrap32_def)


section \<open>Lists\<close>

lemma length_le_concat:
  "\<forall>x \<in> set xs. f x \<noteq> [] \<Longrightarrow> length xs \<le> length (concat (map f xs))"
proof (induction xs)
  case (Cons x xs)
  then have "0 < length (f x)" and "length xs \<le> length (concat (map f xs))" by auto
  then show ?case by (cases "f x") auto
qed simp

lemma length_mem_concat: "x \<in> set xs \<Longrightarrow> length (f x) \<le> length (concat (map f xs))"
  by (induction xs) auto

section \<open>Runs of bounded length\<close>

text \<open>Steps that decrease a measure and go on until the ending bound the length of every run.\<close>

lemma bounded_runs:
  assumes "(R ^^ k) s s'" and "Q s" and "\<And>s s'. R s s' \<Longrightarrow> Q s \<Longrightarrow> Q s' \<and> m s' < (m s :: nat)"
  shows "Q s' \<and> k + m s' \<le> m s"
  using assms(1)
proof (induction k arbitrary: s')
  case 0
  with assms(2) show ?case by simp
next
  case (Suc k)
  then obtain t where t: "(R ^^ k) s t" "R t s'" by auto
  from Suc.IH [OF t(1)] assms(3) [OF t(2)] show ?case by simp
qed

end
