(* ===== verification/Bytes.thy ===== *)
theory Bytes
  imports Prelude
begin

text \<open>
  The memory-mapped file and the typed reads through \<open>reinterpret_cast\<close> that the GGUF
  parser makes of it. The region is a \<open>string\<close> (a list of bytes); a \<open>const char *\<close>
  into it is an \<open>int\<close> offset, because the parser adds signed \<open>int\<close> sizes to it. A read
  that leaves the region is a fault. The host is little-endian, as the GGUF layout is.
  The last section is the contract of every streaming parse loop of the loader: a locale
  for one record format, and the loop that reads several records one after the other.
\<close>

section \<open>Typed reads\<close>

definition rd :: "string \<Rightarrow> int \<Rightarrow> nat \<Rightarrow> string res" where
  "rd m p n = (if 0 \<le> p \<and> p + int n \<le> int (length m)
    then Inr (take n (drop (nat p) m)) else Inl OutOfMap)"

fun le_val :: "string \<Rightarrow> nat" where
  "le_val [] = 0"
| "le_val (c # cs) = of_char c + 256 * le_val cs"

fun le_enc :: "nat \<Rightarrow> nat \<Rightarrow> string" where
  "le_enc 0 x = []"
| "le_enc (Suc n) x = char_of (x mod 256) # le_enc n (x div 256)"

definition rd_u8 :: "string \<Rightarrow> int \<Rightarrow> u8 res" where
  "rd_u8 m p = rbind (rd m p 1) (\<lambda>bs. Inr (word_of_nat (le_val bs)))"

definition rd_u16 :: "string \<Rightarrow> int \<Rightarrow> 16 word res" where
  "rd_u16 m p = rbind (rd m p 2) (\<lambda>bs. Inr (word_of_nat (le_val bs)))"

definition rd_u32 :: "string \<Rightarrow> int \<Rightarrow> u32 res" where
  "rd_u32 m p = rbind (rd m p 4) (\<lambda>bs. Inr (word_of_nat (le_val bs)))"

definition rd_u64 :: "string \<Rightarrow> int \<Rightarrow> u64 res" where
  "rd_u64 m p = rbind (rd m p 8) (\<lambda>bs. Inr (word_of_nat (le_val bs)))"

definition enc_u8 :: "u8 \<Rightarrow> string" where "enc_u8 w = le_enc 1 (unat w)"
definition enc_u16 :: "16 word \<Rightarrow> string" where "enc_u16 w = le_enc 2 (unat w)"
definition enc_u32 :: "u32 \<Rightarrow> string" where "enc_u32 w = le_enc 4 (unat w)"
definition enc_u64 :: "u64 \<Rightarrow> string" where "enc_u64 w = le_enc 8 (unat w)"

lemma length_le_enc [simp]: "length (le_enc n x) = n"
  by (induction n arbitrary: x) auto

lemma le_val_enc: "x < 256 ^ n \<Longrightarrow> le_val (le_enc n x) = x"
proof (induction n arbitrary: x)
  case 0
  then show ?case by simp
next
  case (Suc n)
  from Suc.prems have "x div 256 < 256 ^ n"
    by (simp add: less_mult_imp_div_less mult.commute)
  then have "le_val (le_enc n (x div 256)) = x div 256" by (rule Suc.IH)
  then show ?case by simp
qed

lemma length_enc [simp]:
  "length (enc_u8 a) = 1" "length (enc_u16 b) = 2"
  "length (enc_u32 c) = 4" "length (enc_u64 d) = 8"
  by (simp_all add: enc_u8_def enc_u16_def enc_u32_def enc_u64_def)

lemma rd_split:
  "m = pre @ mid @ post \<Longrightarrow> p = int (length pre) \<Longrightarrow> n = length mid \<Longrightarrow> rd m p n = Inr mid"
  by (simp add: rd_def)

lemma rd_InrD: "rd m p n = Inr bs \<Longrightarrow> 0 \<le> p \<and> p + int n \<le> int (length m) \<and> length bs = n"
  by (auto simp: rd_def split: if_splits)

lemma rd_cases:
  "rd m p n = Inl OutOfMap \<or> (\<exists>bs. rd m p n = Inr bs \<and> 0 \<le> p \<and> p + int n \<le> int (length m))"
  by (simp add: rd_def)

lemma rd_enc:
  assumes "m = pre @ mid @ post" and "p = int (length pre)"
  shows "mid = enc_u8 a \<Longrightarrow> rd_u8 m p = Inr a"
    and "mid = enc_u16 b \<Longrightarrow> rd_u16 m p = Inr b"
    and "mid = enc_u32 c \<Longrightarrow> rd_u32 m p = Inr c"
    and "mid = enc_u64 d \<Longrightarrow> rd_u64 m p = Inr d"
proof -
  have r: "rd m p (length mid) = Inr mid"
    by (rule rd_split [OF assms refl])
  have v: "word_of_nat (le_val (enc_u8 a)) = a" "word_of_nat (le_val (enc_u16 b)) = b"
      "word_of_nat (le_val (enc_u32 c)) = c" "word_of_nat (le_val (enc_u64 d)) = d"
    using unsigned_less [where 'a = nat, of a] unsigned_less [where 'a = nat, of b]
      unsigned_less [where 'a = nat, of c] unsigned_less [where 'a = nat, of d]
    by (simp_all add: enc_u8_def enc_u16_def enc_u32_def enc_u64_def le_val_enc)
  show "mid = enc_u8 a \<Longrightarrow> rd_u8 m p = Inr a"
    using r v by (simp add: rd_u8_def)
  show "mid = enc_u16 b \<Longrightarrow> rd_u16 m p = Inr b"
    using r v by (simp add: rd_u16_def)
  show "mid = enc_u32 c \<Longrightarrow> rd_u32 m p = Inr c"
    using r v by (simp add: rd_u32_def)
  show "mid = enc_u64 d \<Longrightarrow> rd_u64 m p = Inr d"
    using r v by (simp add: rd_u64_def)
qed

lemma rd_word_InrD:
  "rd_u8 m p = Inr a \<Longrightarrow> 0 \<le> p \<and> p + 1 \<le> int (length m)"
  "rd_u16 m p = Inr b \<Longrightarrow> 0 \<le> p \<and> p + 2 \<le> int (length m)"
  "rd_u32 m p = Inr c \<Longrightarrow> 0 \<le> p \<and> p + 4 \<le> int (length m)"
  "rd_u64 m p = Inr d \<Longrightarrow> 0 \<le> p \<and> p + 8 \<le> int (length m)"
  by (auto simp: rd_u8_def rd_u16_def rd_u32_def rd_u64_def rbind_eq_Inr dest!: rd_InrD)

lemma rd_only_OutOfMap:
  "rd m p n = Inl e \<Longrightarrow> e = OutOfMap"
  "rd_u8 m p = Inl e \<Longrightarrow> e = OutOfMap"
  "rd_u16 m p = Inl e \<Longrightarrow> e = OutOfMap"
  "rd_u32 m p = Inl e \<Longrightarrow> e = OutOfMap"
  "rd_u64 m p = Inl e \<Longrightarrow> e = OutOfMap"
  by (auto simp: rd_u8_def rd_u16_def rd_u32_def rd_u64_def rd_def rbind_eq_Inl split: if_splits)

section \<open>The streaming parse contract\<close>

text \<open>
  \<open>parse_seq\<close> is the shape of every record loop of the loader: parse at the cursor, advance
  it by the size the record reports, keep the record.
\<close>

fun parse_seq ::
  "(string \<Rightarrow> int \<Rightarrow> 'v res) \<Rightarrow> ('v \<Rightarrow> int) \<Rightarrow> string \<Rightarrow> nat \<Rightarrow> int \<Rightarrow> ('v list \<times> int) res" where
  "parse_seq prs sz m 0 p = Inr ([], p)"
| "parse_seq prs sz m (Suc n) p =
     rbind (prs m p) (\<lambda>v. rbind (parse_seq prs sz m n (p + sz v)) (\<lambda>(vs, q). Inr (v # vs, q)))"

text \<open>
  A record format: \<open>enc\<close> lays a record out, \<open>prs\<close> is the parser, \<open>sz\<close> the size a parsed
  record reports, \<open>den\<close> reads a parsed record (which may hold views into the region) back.
\<close>

locale wire_format =
  fixes enc :: "'a \<Rightarrow> string"
    and ok :: "'a \<Rightarrow> bool"
    and prs :: "string \<Rightarrow> int \<Rightarrow> 'v res"
    and sz :: "'v \<Rightarrow> int"
    and den :: "string \<Rightarrow> 'v \<Rightarrow> 'a res"
  assumes parse_enc:
    "ok a \<Longrightarrow> length (pre @ enc a @ post) < 2 ^ 31 \<Longrightarrow>
      \<exists>v. prs (pre @ enc a @ post) (int (length pre)) = Inr v
        \<and> den (pre @ enc a @ post) v = Inr a \<and> sz v = int (length (enc a))"
begin

lemma parse_seq_enc:
  assumes "\<forall>a \<in> set as. ok a"
    and "length (pre @ concat (map enc as) @ post) < 2 ^ 31"
  shows "\<exists>vs. parse_seq prs sz (pre @ concat (map enc as) @ post) (length as) (int (length pre))
        = Inr (vs, int (length pre + length (concat (map enc as))))
      \<and> list_all2 (\<lambda>v a. den (pre @ concat (map enc as) @ post) v = Inr a
          \<and> sz v = int (length (enc a))) vs as"
  using assms
proof (induction as arbitrary: pre)
  case Nil
  then show ?case by simp
next
  case (Cons a as)
  let ?m = "pre @ concat (map enc (a # as)) @ post"
  have split: "?m = pre @ enc a @ concat (map enc as) @ post"
    and split': "?m = (pre @ enc a) @ concat (map enc as) @ post" by simp_all
  from Cons.prems obtain v where v: "prs ?m (int (length pre)) = Inr v"
      "den ?m v = Inr a" "sz v = int (length (enc a))"
    using parse_enc [of a pre "concat (map enc as) @ post"] by auto
  from Cons.IH [of "pre @ enc a"] Cons.prems obtain vs where
    vs: "parse_seq prs sz ?m (length as) (int (length (pre @ enc a)))
          = Inr (vs, int (length (pre @ enc a) + length (concat (map enc as))))"
      "list_all2 (\<lambda>v a. den ?m v = Inr a \<and> sz v = int (length (enc a))) vs as"
    by (auto simp: split')
  show ?case
    by (rule exI [of _ "v # vs"]) (use v vs in \<open>simp add: add.assoc\<close>)
qed

text \<open>The two facts in the form clients apply: the region is known to be laid out so.\<close>

lemma parse_at:
  assumes "m = pre @ enc a @ post" and "p = int (length pre)" and "length m < 2 ^ 31" and "ok a"
  obtains v where "prs m p = Inr v" and "den m v = Inr a" and "sz v = int (length (enc a))"
  using parse_enc [of a pre post] assms by auto

lemma parse_seq_at:
  assumes "m = pre @ concat (map enc as) @ post" and "p = int (length pre)"
    and "length m < 2 ^ 31" and "\<forall>a \<in> set as. ok a"
  obtains vs where
    "parse_seq prs sz m (length as) p = Inr (vs, p + int (length (concat (map enc as))))"
    and "list_all2 (\<lambda>v a. den m v = Inr a \<and> sz v = int (length (enc a))) vs as"
  using parse_seq_enc [of as pre post] assms by auto

end

end
