(* ===== verification/Metadata.thy ===== *)
theory Metadata
  imports Bytes
begin

text \<open>
  The GGUF metadata value parser (\<open>src/model_loader/gguf/metadata.h\<close>, \<open>metadata.cpp\<close>).
  A parsed value keeps views into the mapped region, as the code does: a string value is a
  pointer and a length, its bytes are read only when it is converted to a
  \<open>std::string\<close>. The sizes by which the cursor advances are C++ \<open>int\<close>s.
\<close>

section \<open>Type tags and primitive values\<close>

text \<open>
  \<open>MetadataDType\<close> has the fixed underlying type \<open>uint32_t\<close>: a tag outside the
  enumerators is a value of the enum too, kept here as \<open>DT_Other\<close>.
\<close>

datatype metadata_dtype =
    DT_UINT8 | DT_INT8 | DT_UINT16 | DT_INT16 | DT_UINT32 | DT_INT32 | DT_FLOAT32
  | DT_BOOL | DT_STRING | DT_ARRAY | DT_UINT64 | DT_INT64 | DT_FLOAT64
  | DT_Other u32

definition dtype_of :: "u32 \<Rightarrow> metadata_dtype" where
  "dtype_of w =
    (if w = 0 then DT_UINT8 else if w = 1 then DT_INT8
     else if w = 2 then DT_UINT16 else if w = 3 then DT_INT16
     else if w = 4 then DT_UINT32 else if w = 5 then DT_INT32
     else if w = 6 then DT_FLOAT32 else if w = 7 then DT_BOOL
     else if w = 8 then DT_STRING else if w = 9 then DT_ARRAY
     else if w = 10 then DT_UINT64 else if w = 11 then DT_INT64
     else if w = 12 then DT_FLOAT64 else DT_Other w)"

fun dtype_code :: "metadata_dtype \<Rightarrow> u32" where
  "dtype_code DT_UINT8 = 0"
| "dtype_code DT_INT8 = 1"
| "dtype_code DT_UINT16 = 2"
| "dtype_code DT_INT16 = 3"
| "dtype_code DT_UINT32 = 4"
| "dtype_code DT_INT32 = 5"
| "dtype_code DT_FLOAT32 = 6"
| "dtype_code DT_BOOL = 7"
| "dtype_code DT_STRING = 8"
| "dtype_code DT_ARRAY = 9"
| "dtype_code DT_UINT64 = 10"
| "dtype_code DT_INT64 = 11"
| "dtype_code DT_FLOAT64 = 12"
| "dtype_code (DT_Other w) = w"

fun metadata_dtype_name :: "metadata_dtype \<Rightarrow> string" where
  "metadata_dtype_name DT_UINT8 = ''UINT8''"
| "metadata_dtype_name DT_INT8 = ''INT8''"
| "metadata_dtype_name DT_UINT16 = ''UINT16''"
| "metadata_dtype_name DT_INT16 = ''INT16''"
| "metadata_dtype_name DT_UINT32 = ''UINT32''"
| "metadata_dtype_name DT_INT32 = ''INT32''"
| "metadata_dtype_name DT_FLOAT32 = ''FLOAT32''"
| "metadata_dtype_name DT_BOOL = ''BOOL''"
| "metadata_dtype_name DT_STRING = ''STRING''"
| "metadata_dtype_name DT_ARRAY = ''ARRAY''"
| "metadata_dtype_name DT_UINT64 = ''UINT64''"
| "metadata_dtype_name DT_INT64 = ''INT64''"
| "metadata_dtype_name DT_FLOAT64 = ''FLOAT64''"
| "metadata_dtype_name (DT_Other _) = ''UNKNOWN''"

definition known_dtype :: "metadata_dtype \<Rightarrow> bool" where
  "known_dtype t \<longleftrightarrow> (case t of DT_Other _ \<Rightarrow> False | _ \<Rightarrow> True)"

lemma dtype_of_code: "known_dtype t \<Longrightarrow> dtype_of (dtype_code t) = t"
  by (cases t) (simp_all add: dtype_of_def known_dtype_def)

text \<open>
  The alternatives of \<open>primitive_value_t\<close>. A signed integer is kept as its bits (read
  with \<open>sint\<close>), a float as its IEEE bit pattern: the parser only reinterprets bytes.
\<close>

datatype primitive_value =
    PU8 u8 | PI8 u8 | PU16 "16 word" | PI16 "16 word" | PU32 u32 | PI32 u32
  | PF32 u32 | PBool bool | PU64 u64 | PI64 u64 | PF64 u64

record string_value =
  sv_ptr :: int
  sv_len :: u64

datatype mvalue =
    Prim primitive_value int
  | Str string_value
  | Arr metadata_dtype u64 "mvalue list"

section \<open>Sizes\<close>

definition sv_size :: "string_value \<Rightarrow> int" where
  "sv_size s = wrap32 (uint (8 + sv_len s))"

text \<open>
  \<open>MetadataArrayValue::size\<close> accumulates in an \<open>int\<close>; an overflow of the accumulator is
  wrapped, as the conversion of the returned \<open>size_t\<close> to \<open>int\<close> is.
\<close>

fun vsize :: "mvalue \<Rightarrow> int" and vsizes :: "int \<Rightarrow> mvalue list \<Rightarrow> int" where
  "vsize (Prim v s) = s"
| "vsize (Str s) = sv_size s"
| "vsize (Arr t n es) = wrap32 (4 + 8 + vsizes 0 es)"
| "vsizes acc [] = acc"
| "vsizes acc (e # es) = vsizes (wrap32 (acc + vsize e)) es"

section \<open>Parsing\<close>

definition rd_bool :: "string \<Rightarrow> int \<Rightarrow> bool res" where
  "rd_bool m p = rbind (rd_u8 m p)
    (\<lambda>b. if b = 0 then Inr False else if b = 1 then Inr True else Inl InvalidBool)"

text \<open>
  The \<open>switch\<close> has no default: for a tag it does not list the variant stays
  default-constructed (an \<open>uint8_t\<close> 0) and the size stays 0.
\<close>

fun prim_from_ptr :: "string \<Rightarrow> int \<Rightarrow> metadata_dtype \<Rightarrow> mvalue res" where
  "prim_from_ptr m p DT_UINT8 = rbind (rd_u8 m p) (\<lambda>w. Inr (Prim (PU8 w) 1))"
| "prim_from_ptr m p DT_INT8 = rbind (rd_u8 m p) (\<lambda>w. Inr (Prim (PI8 w) 1))"
| "prim_from_ptr m p DT_UINT16 = rbind (rd_u16 m p) (\<lambda>w. Inr (Prim (PU16 w) 2))"
| "prim_from_ptr m p DT_INT16 = rbind (rd_u16 m p) (\<lambda>w. Inr (Prim (PI16 w) 2))"
| "prim_from_ptr m p DT_UINT32 = rbind (rd_u32 m p) (\<lambda>w. Inr (Prim (PU32 w) 4))"
| "prim_from_ptr m p DT_INT32 = rbind (rd_u32 m p) (\<lambda>w. Inr (Prim (PI32 w) 4))"
| "prim_from_ptr m p DT_FLOAT32 = rbind (rd_u32 m p) (\<lambda>w. Inr (Prim (PF32 w) 4))"
| "prim_from_ptr m p DT_BOOL = rbind (rd_bool m p) (\<lambda>b. Inr (Prim (PBool b) 1))"
| "prim_from_ptr m p DT_UINT64 = rbind (rd_u64 m p) (\<lambda>w. Inr (Prim (PU64 w) 8))"
| "prim_from_ptr m p DT_INT64 = rbind (rd_u64 m p) (\<lambda>w. Inr (Prim (PI64 w) 8))"
| "prim_from_ptr m p DT_FLOAT64 = rbind (rd_u64 m p) (\<lambda>w. Inr (Prim (PF64 w) 8))"
| "prim_from_ptr m p _ = Inr (Prim (PU8 0) 0)"

definition string_from_ptr :: "string \<Rightarrow> int \<Rightarrow> string_value res" where
  "string_from_ptr m p = rbind (rd_u64 m p) (\<lambda>len. Inr \<lparr>sv_ptr = p, sv_len = len\<rparr>)"

text \<open>
  Arrays nest, and the recursion of the code is bounded by nothing but the file: the first
  argument bounds the nesting depth of the model run.
\<close>

function (sequential)
  value_from_ptr :: "nat \<Rightarrow> string \<Rightarrow> int \<Rightarrow> metadata_dtype \<Rightarrow> mvalue res" and
  array_from_ptr :: "nat \<Rightarrow> string \<Rightarrow> int \<Rightarrow> mvalue res" and
  elements_from_ptr :: "nat \<Rightarrow> string \<Rightarrow> int \<Rightarrow> metadata_dtype \<Rightarrow> nat \<Rightarrow> mvalue list res"
where
  "value_from_ptr f m p DT_STRING = rbind (string_from_ptr m p) (\<lambda>s. Inr (Str s))"
| "value_from_ptr f m p DT_ARRAY = array_from_ptr f m p"
| "value_from_ptr f m p t = prim_from_ptr m p t"
| "array_from_ptr 0 m p = Inl OutOfFuel"
| "array_from_ptr (Suc f) m p =
     rbind (rd_u32 m p) (\<lambda>tag.
     rbind (rd_u64 m (p + 4)) (\<lambda>len.
     rbind (elements_from_ptr f m (p + 4 + 8) (dtype_of tag) (unat len)) (\<lambda>es.
     Inr (Arr (dtype_of tag) len es))))"
| "elements_from_ptr f m cur t 0 = Inr []"
| "elements_from_ptr f m cur t (Suc n) =
     rbind (value_from_ptr f m cur t) (\<lambda>e.
     rbind (elements_from_ptr f m (cur + vsize e) t n) (\<lambda>es. Inr (e # es)))"
  by pat_completeness auto
termination
  by (relation "inv_image (less_than <*lex*> less_than)
      (\<lambda>x. case x of Inl (f, m, p, t) \<Rightarrow> (f, 1)
        | Inr (Inl (f, m, p)) \<Rightarrow> (f, 0)
        | Inr (Inr (f, m, cur, t, n)) \<Rightarrow> (f, n + 2))") auto

text \<open>
  The element loop is the streaming loop of the parse contract, and a value of a
  non-container type is what \<open>MetadataPrimitiveValue::from_ptr\<close> returns.
\<close>

lemma elements_parse_seq:
  "elements_from_ptr f m cur t n =
     rbind (parse_seq (\<lambda>m p. value_from_ptr f m p t) vsize m n cur) (\<lambda>(es, q). Inr es)"
  by (induction n arbitrary: cur)
    (auto simp: rbind_def split: sum.splits prod.splits)

lemma value_from_ptr_prim:
  "t \<noteq> DT_STRING \<Longrightarrow> t \<noteq> DT_ARRAY \<Longrightarrow> value_from_ptr f m p t = prim_from_ptr m p t"
  by (cases t) auto

section \<open>Text conversion\<close>

fun nat_dec :: "nat \<Rightarrow> string" where
  "nat_dec n = (if n < 10 then [char_of (48 + n)]
    else nat_dec (n div 10) @ [char_of (48 + n mod 10)])"

declare nat_dec.simps [simp del]

definition int_dec :: "int \<Rightarrow> string" where
  "int_dec i = (if i < 0 then ''-'' @ nat_dec (nat (- i)) else nat_dec (nat i))"

text \<open>
  \<open>std::format\<close> prints a float in its shortest round-trip form; that routine of the
  standard library is a parameter.
\<close>

record float_format =
  fmt_f32 :: "u32 \<Rightarrow> string"
  fmt_f64 :: "u64 \<Rightarrow> string"

fun prim_to_string :: "float_format \<Rightarrow> primitive_value \<Rightarrow> string" where
  "prim_to_string ff (PBool b) = (if b then ''true'' else ''false'')"
| "prim_to_string ff (PU8 w) = nat_dec (unat w)"
| "prim_to_string ff (PI8 w) = int_dec (sint w)"
| "prim_to_string ff (PU16 w) = nat_dec (unat w)"
| "prim_to_string ff (PI16 w) = int_dec (sint w)"
| "prim_to_string ff (PU32 w) = nat_dec (unat w)"
| "prim_to_string ff (PI32 w) = int_dec (sint w)"
| "prim_to_string ff (PU64 w) = nat_dec (unat w)"
| "prim_to_string ff (PI64 w) = int_dec (sint w)"
| "prim_to_string ff (PF32 w) = fmt_f32 ff w"
| "prim_to_string ff (PF64 w) = fmt_f64 ff w"

text \<open>Copying a view into a \<open>std::string\<close> reads its bytes; an empty view reads nothing.\<close>

definition sv_to_string :: "string \<Rightarrow> string_value \<Rightarrow> string res" where
  "sv_to_string m s =
    (if sv_len s = 0 then Inr [] else rd m (sv_ptr s + 8) (unat (sv_len s)))"

text \<open>
  \<open>MetadataArrayValue::to_string\<close> runs its loop to 50 whatever the number of elements;
  \<open>first\<close> is the test \<open>i > 0\<close> negated, the counter is what is left of the 50 rounds.
\<close>

fun value_to_string :: "float_format \<Rightarrow> string \<Rightarrow> mvalue \<Rightarrow> string res"
  and join_elements ::
    "float_format \<Rightarrow> string \<Rightarrow> bool \<Rightarrow> nat \<Rightarrow> mvalue list \<Rightarrow> string \<Rightarrow> string res" where
  "value_to_string ff m (Prim v s) = Inr (prim_to_string ff v)"
| "value_to_string ff m (Str s) = sv_to_string m s"
| "value_to_string ff m (Arr t n es) =
     rbind (join_elements ff m True 50 es ''[ '') (\<lambda>res.
     Inr (res @ (if 50 < length es then '' ... '' else []) @ '' ]''))"
| "join_elements ff m first 0 es res = Inr res"
| "join_elements ff m first (Suc k) [] res = Inl IndexOutOfRange"
| "join_elements ff m first (Suc k) (e # es) res =
     rbind (value_to_string ff m e) (\<lambda>s.
     join_elements ff m False k es (res @ (if first then [] else '', '') @ s))"

section \<open>Key/value records\<close>

record metadata =
  md_key :: string_value
  md_type :: metadata_dtype
  md_val :: mvalue

definition metadata_from_ptr :: "nat \<Rightarrow> string \<Rightarrow> int \<Rightarrow> metadata res" where
  "metadata_from_ptr f m p =
     rbind (string_from_ptr m p) (\<lambda>key.
     rbind (rd_u32 m (p + sv_size key)) (\<lambda>tag.
     rbind (value_from_ptr f m (p + sv_size key + 4) (dtype_of tag)) (\<lambda>v.
     Inr \<lparr>md_key = key, md_type = dtype_of tag, md_val = v\<rparr>)))"

definition metadata_size :: "metadata \<Rightarrow> int" where
  "metadata_size d = wrap32 (sv_size (md_key d) + 4 + vsize (md_val d))"

definition metadata_empty :: metadata where
  "metadata_empty = \<lparr>md_key = \<lparr>sv_ptr = 0, sv_len = 0\<rparr>, md_type = DT_UINT8,
     md_val = Prim (PU8 0) 1\<rparr>"

definition key_string :: "string \<Rightarrow> metadata \<Rightarrow> string res" where
  "key_string m d = sv_to_string m (md_key d)"

definition val_string :: "float_format \<Rightarrow> string \<Rightarrow> metadata \<Rightarrow> string res" where
  "val_string ff m d = value_to_string ff m (md_val d)"

text \<open>
  \<open>value<T>()\<close>: \<open>get\<close> is the alternative \<open>std::get<T>\<close> accepts, \<open>dflt\<close> is \<open>T{}\<close>, returned
  for a value that is not a primitive. A primitive of another type throws
  \<open>std::bad_variant_access\<close>.
\<close>

definition value_as :: "(primitive_value \<Rightarrow> 'a option) \<Rightarrow> 'a \<Rightarrow> metadata \<Rightarrow> 'a res" where
  "value_as get dflt d = (case md_val d of
      Prim v _ \<Rightarrow> (case get v of Some x \<Rightarrow> Inr x | None \<Rightarrow> Inl BadVariantAccess)
    | _ \<Rightarrow> Inr dflt)"

fun get_u8 :: "primitive_value \<Rightarrow> u8 option" where
  "get_u8 (PU8 w) = Some w"
| "get_u8 _ = None"

fun get_u32 :: "primitive_value \<Rightarrow> u32 option" where
  "get_u32 (PU32 w) = Some w"
| "get_u32 _ = None"

fun get_i32 :: "primitive_value \<Rightarrow> u32 option" where
  "get_i32 (PI32 w) = Some w"
| "get_i32 _ = None"

fun get_f32 :: "primitive_value \<Rightarrow> u32 option" where
  "get_f32 (PF32 w) = Some w"
| "get_f32 _ = None"

fun get_bool :: "primitive_value \<Rightarrow> bool option" where
  "get_bool (PBool b) = Some b"
| "get_bool _ = None"

text \<open>
  \<open>val_array<std::string>()\<close> converts every element to text; \<open>val_array<T>()\<close> takes the
  primitive elements and skips the others. A value that is no array gives an empty vector.
\<close>

fun strings_of :: "float_format \<Rightarrow> string \<Rightarrow> mvalue list \<Rightarrow> string list res" where
  "strings_of ff m [] = Inr []"
| "strings_of ff m (e # es) =
     rbind (value_to_string ff m e) (\<lambda>s. rbind (strings_of ff m es) (\<lambda>ss. Inr (s # ss)))"

fun prims_of :: "(primitive_value \<Rightarrow> 'a option) \<Rightarrow> mvalue list \<Rightarrow> 'a list res" where
  "prims_of get [] = Inr []"
| "prims_of get (Prim v _ # es) = (case get v of
      Some x \<Rightarrow> rbind (prims_of get es) (\<lambda>xs. Inr (x # xs))
    | None \<Rightarrow> Inl BadVariantAccess)"
| "prims_of get (_ # es) = prims_of get es"

definition val_array_string :: "float_format \<Rightarrow> string \<Rightarrow> metadata \<Rightarrow> string list res" where
  "val_array_string ff m d = (case md_val d of
      Arr _ _ es \<Rightarrow> strings_of ff m es | _ \<Rightarrow> Inr [])"

definition val_array_as :: "(primitive_value \<Rightarrow> 'a option) \<Rightarrow> metadata \<Rightarrow> 'a list res" where
  "val_array_as get d = (case md_val d of Arr _ _ es \<Rightarrow> prims_of get es | _ \<Rightarrow> Inr [])"

end
