(* ===== verification/Metadata_Format.thy ===== *)
theory Metadata_Format
  imports Metadata
begin

text \<open>
  The GGUF layout of metadata values as a specification (abstract values and their
  encoding), and the proof that the parser reads back what the layout describes: it
  implements the streaming contract \<open>wire_format\<close>, for values and for key/value records.
\<close>

section \<open>Abstract values and their layout\<close>

datatype avalue =
    APrim primitive_value
  | AStr string
  | AArr metadata_dtype "avalue list"

fun prim_dtype :: "primitive_value \<Rightarrow> metadata_dtype" where
  "prim_dtype (PU8 _) = DT_UINT8"
| "prim_dtype (PI8 _) = DT_INT8"
| "prim_dtype (PU16 _) = DT_UINT16"
| "prim_dtype (PI16 _) = DT_INT16"
| "prim_dtype (PU32 _) = DT_UINT32"
| "prim_dtype (PI32 _) = DT_INT32"
| "prim_dtype (PF32 _) = DT_FLOAT32"
| "prim_dtype (PBool _) = DT_BOOL"
| "prim_dtype (PU64 _) = DT_UINT64"
| "prim_dtype (PI64 _) = DT_INT64"
| "prim_dtype (PF64 _) = DT_FLOAT64"

fun avalue_dtype :: "avalue \<Rightarrow> metadata_dtype" where
  "avalue_dtype (APrim v) = prim_dtype v"
| "avalue_dtype (AStr _) = DT_STRING"
| "avalue_dtype (AArr _ _) = DT_ARRAY"

fun enc_prim :: "primitive_value \<Rightarrow> string" where
  "enc_prim (PU8 w) = enc_u8 w"
| "enc_prim (PI8 w) = enc_u8 w"
| "enc_prim (PU16 w) = enc_u16 w"
| "enc_prim (PI16 w) = enc_u16 w"
| "enc_prim (PU32 w) = enc_u32 w"
| "enc_prim (PI32 w) = enc_u32 w"
| "enc_prim (PF32 w) = enc_u32 w"
| "enc_prim (PBool b) = enc_u8 (if b then 1 else 0)"
| "enc_prim (PU64 w) = enc_u64 w"
| "enc_prim (PI64 w) = enc_u64 w"
| "enc_prim (PF64 w) = enc_u64 w"

definition enc_string :: "string \<Rightarrow> string" where
  "enc_string s = enc_u64 (word_of_nat (length s)) @ s"

fun enc_value :: "avalue \<Rightarrow> string" where
  "enc_value (APrim v) = enc_prim v"
| "enc_value (AStr s) = enc_string s"
| "enc_value (AArr t es) =
     enc_u32 (dtype_code t) @ enc_u64 (word_of_nat (length es)) @ concat (map enc_value es)"

text \<open>The elements of an array have its element type, and the type is a known one.\<close>

fun ok_value :: "avalue \<Rightarrow> bool" where
  "ok_value (APrim v) = True"
| "ok_value (AStr s) = True"
| "ok_value (AArr t es) \<longleftrightarrow>
     known_dtype t \<and> (\<forall>e \<in> set es. ok_value e \<and> avalue_dtype e = t)"

fun depth_le :: "nat \<Rightarrow> avalue \<Rightarrow> bool" where
  "depth_le f (APrim v) = True"
| "depth_le f (AStr s) = True"
| "depth_le 0 (AArr t es) = False"
| "depth_le (Suc f) (AArr t es) = (\<forall>e \<in> set es. depth_le f e)"

text \<open>What a parsed value denotes once its views are read.\<close>

fun abs_value :: "string \<Rightarrow> mvalue \<Rightarrow> avalue res"
  and abs_values :: "string \<Rightarrow> mvalue list \<Rightarrow> avalue list res" where
  "abs_value m (Prim v s) = Inr (APrim v)"
| "abs_value m (Str s) = rbind (sv_to_string m s) (\<lambda>bs. Inr (AStr bs))"
| "abs_value m (Arr t n es) = rbind (abs_values m es) (\<lambda>as. Inr (AArr t as))"
| "abs_values m [] = Inr []"
| "abs_values m (e # es) =
     rbind (abs_value m e) (\<lambda>a. rbind (abs_values m es) (\<lambda>as. Inr (a # as)))"

section \<open>Strings\<close>

lemma unat_of_length [simp]:
  "n < 2 ^ 31 \<Longrightarrow> unat (word_of_nat n :: u64) = n"
  by (simp add: unsigned_of_nat take_bit_nat_eq_self)

lemma sv_size_small:
  assumes "unat (sv_len s) + 8 < 2 ^ 31"
  shows "sv_size s = int (unat (sv_len s) + 8)"
proof -
  have "unat (8 + sv_len s) = (8 + unat (sv_len s)) mod 2 ^ 64"
    by (simp add: unat_word_ariths)
  also have "\<dots> = unat (sv_len s) + 8"
    using assms by simp
  finally have "uint (8 + sv_len s) = int (unat (sv_len s) + 8)"
    by (metis of_nat_unat)
  with assms show ?thesis
    by (simp only: sv_size_def wrap32_nat)
qed

lemma length_enc_string [simp]: "length (enc_string s) = 8 + length s"
  by (simp add: enc_string_def)

interpretation sv: wire_format enc_string "\<lambda>_. True" string_from_ptr sv_size sv_to_string
proof
  fix a pre post :: string
  let ?m = "pre @ enc_string a @ post"
  let ?s = "\<lparr>sv_ptr = int (length pre), sv_len = word_of_nat (length a)\<rparr> :: string_value"
  assume small: "length ?m < 2 ^ 31"
  then have len: "unat (sv_len ?s) = length a" by simp
  have "rd_u64 ?m (int (length pre)) = Inr (word_of_nat (length a))"
    by (rule rd_enc(4)) (simp_all add: enc_string_def)
  then have "string_from_ptr ?m (int (length pre)) = Inr ?s"
    by (simp add: string_from_ptr_def)
  moreover have "rd ?m (int (length pre) + 8) (length a) = Inr a"
    by (rule rd_split [of _ "pre @ enc_u64 (word_of_nat (length a))" _ post])
      (simp_all add: enc_string_def)
  then have "sv_to_string ?m ?s = Inr a"
    using len by (auto simp: sv_to_string_def)
  moreover have "sv_size ?s = int (length (enc_string a))"
    using small len by (subst sv_size_small) simp_all
  ultimately show "\<exists>v. string_from_ptr ?m (int (length pre)) = Inr v
      \<and> sv_to_string ?m v = Inr a \<and> sv_size v = int (length (enc_string a))"
    by blast
qed

section \<open>Values\<close>

lemma prim_wire:
  assumes "m = pre @ enc_prim v @ post"
  shows "prim_from_ptr m (int (length pre)) (prim_dtype v)
    = Inr (Prim v (int (length (enc_prim v))))"
  using rd_enc [OF assms refl] by (cases v) (auto simp: rd_bool_def)

lemma abs_values_list_all2:
  "list_all2 (\<lambda>v a. abs_value m v = Inr a \<and> P v a) vs as \<Longrightarrow> abs_values m vs = Inr as"
  by (induction rule: list_all2_induct) auto

lemma vsizes_enc:
  assumes "list_all2 (\<lambda>v a. P v a \<and> vsize v = int (length (enc_value a))) vs as"
    and "acc + length (concat (map enc_value as)) < 2 ^ 31"
  shows "vsizes (int acc) vs = int (acc + length (concat (map enc_value as)))"
  using assms
proof (induction arbitrary: acc rule: list_all2_induct)
  case Nil
  then show ?case by simp
next
  case (Cons v vs a as)
  let ?l = "acc + length (enc_value a)"
  from Cons.prems have l: "?l + length (concat (map enc_value as)) < 2 ^ 31" "?l < 2 ^ 31"
    by simp_all
  have "wrap32 (int acc + vsize v) = int ?l"
    using Cons.hyps l(2) wrap32_nat [of ?l] by simp
  with Cons.IH [OF l(1)] show ?case by simp
qed

lemma enc_value_nonempty: "enc_value a \<noteq> []"
proof (cases a)
  case (APrim v)
  then show ?thesis by (cases v) (auto simp flip: length_greater_0_conv)
qed (auto simp: enc_string_def simp flip: length_greater_0_conv)

lemma array_wire:
  assumes wf: "\<And>t. wire_format enc_value
      (\<lambda>a. ok_value a \<and> depth_le f a \<and> avalue_dtype a = t)
      (\<lambda>m p. value_from_ptr f m p t) vsize abs_value"
    and ok: "ok_value (AArr t es)" "depth_le (Suc f) (AArr t es)"
    and m: "m = pre @ enc_value (AArr t es) @ post" and small: "length m < 2 ^ 31"
  shows "\<exists>v. array_from_ptr (Suc f) m (int (length pre)) = Inr v
    \<and> abs_value m v = Inr (AArr t es) \<and> vsize v = int (length (enc_value (AArr t es)))"
proof -
  let ?n = "word_of_nat (length es) :: u64" and ?body = "concat (map enc_value es)"
  let ?hd = "pre @ enc_u32 (dtype_code t) @ enc_u64 ?n"
  have "length es \<le> length ?body"
    by (rule length_le_concat) (simp add: enc_value_nonempty)
  with small m have n: "unat ?n = length es" by simp
  have tag: "rd_u32 m (int (length pre)) = Inr (dtype_code t)"
    by (rule rd_enc(3)) (simp_all add: m)
  have len: "rd_u64 m (int (length pre) + 4) = Inr ?n"
    by (rule rd_enc(4) [of _ "pre @ enc_u32 (dtype_code t)"]) (simp_all add: m)
  have "m = ?hd @ ?body @ post" by (simp add: m)
  with wire_format.parse_seq_enc [OF wf [of t], of es ?hd post] ok small
  obtain vs where vs: "parse_seq (\<lambda>m p. value_from_ptr f m p t) vsize m (length es)
        (int (length ?hd)) = Inr (vs, int (length ?hd + length ?body))"
    and den: "list_all2 (\<lambda>v a. abs_value m v = Inr a \<and> vsize v = int (length (enc_value a))) vs es"
    by auto
  have "elements_from_ptr f m (int (length pre) + 4 + 8) t (length es) = Inr vs"
    using vs by (simp add: elements_parse_seq add.assoc)
  with tag len n ok(1) have "array_from_ptr (Suc f) m (int (length pre)) = Inr (Arr t ?n vs)"
    by (simp add: dtype_of_code)
  moreover have "abs_value m (Arr t ?n vs) = Inr (AArr t es)"
    using abs_values_list_all2 [OF den] by simp
  moreover have "vsizes 0 vs = int (length ?body)"
    using vsizes_enc [OF den, of 0] small m by simp
  then have "vsize (Arr t ?n vs) = wrap32 (int (12 + length ?body))" by simp
  then have "vsize (Arr t ?n vs) = int (length (enc_value (AArr t es)))"
    using small m by (simp del: of_nat_add)
  ultimately show ?thesis by blast
qed

lemma value_wire_leaf:
  assumes a: "\<And>t es. a \<noteq> AArr t es"
    and m: "m = pre @ enc_value a @ post" and small: "length m < 2 ^ 31"
  shows "\<exists>v. value_from_ptr f m (int (length pre)) (avalue_dtype a) = Inr v
    \<and> abs_value m v = Inr a \<and> vsize v = int (length (enc_value a))"
proof (cases a)
  case (APrim v)
  have "prim_dtype v \<noteq> DT_STRING" "prim_dtype v \<noteq> DT_ARRAY" by (cases v; simp)+
  then show ?thesis
    using APrim m prim_wire [of m pre v post] by (simp add: value_from_ptr_prim)
next
  case (AStr s)
  then show ?thesis
    using m small sv.parse_enc [where a = s and pre = pre and post = post] by auto
next
  case (AArr t es)
  with a show ?thesis by blast
qed

lemma value_wire:
  "wire_format enc_value (\<lambda>a. ok_value a \<and> depth_le f a \<and> avalue_dtype a = t)
    (\<lambda>m p. value_from_ptr f m p t) vsize abs_value"
proof (induction f arbitrary: t)
  case (0 t)
  show ?case
  proof
    fix a pre post
    assume ok: "ok_value a \<and> depth_le 0 a \<and> avalue_dtype a = t"
      and small: "length (pre @ enc_value a @ post) < 2 ^ 31"
    show "\<exists>v. value_from_ptr 0 (pre @ enc_value a @ post) (int (length pre)) t = Inr v
        \<and> abs_value (pre @ enc_value a @ post) v = Inr a \<and> vsize v = int (length (enc_value a))"
      using value_wire_leaf [OF _ refl small] ok by (cases a) auto
  qed
next
  case (Suc f t)
  show ?case
  proof
    fix a pre post
    assume ok: "ok_value a \<and> depth_le (Suc f) a \<and> avalue_dtype a = t"
      and small: "length (pre @ enc_value a @ post) < 2 ^ 31"
    show "\<exists>v. value_from_ptr (Suc f) (pre @ enc_value a @ post) (int (length pre)) t = Inr v
        \<and> abs_value (pre @ enc_value a @ post) v = Inr a \<and> vsize v = int (length (enc_value a))"
      using value_wire_leaf [OF _ refl small] array_wire [OF Suc.IH _ _ refl] ok small
      by (cases a) auto
  qed
qed

interpretation val: wire_format enc_value
    "\<lambda>a. ok_value a \<and> depth_le f a \<and> avalue_dtype a = t"
    "\<lambda>m p. value_from_ptr f m p t" vsize abs_value
  for f t
  by (rule value_wire)

text \<open>A value is nested no deeper than it is long: its length is enough fuel.\<close>

lemma depth_le_length: "length (enc_value a) \<le> f \<Longrightarrow> depth_le f a"
proof (induction a arbitrary: f)
  case (AArr t es)
  then obtain g where f: "f = Suc g" by (cases f) auto
  have "depth_le g e" if e: "e \<in> set es" for e
  proof (rule AArr.IH [OF e])
    show "length (enc_value e) \<le> g"
      using AArr.prems f length_mem_concat [OF e, of enc_value] by simp
  qed
  then show ?case by (simp add: f)
qed auto

section \<open>Key/value records\<close>

definition enc_kv :: "string \<times> avalue \<Rightarrow> string" where
  "enc_kv kv = enc_string (fst kv) @ enc_u32 (dtype_code (avalue_dtype (snd kv)))
     @ enc_value (snd kv)"

definition abs_kv :: "string \<Rightarrow> metadata \<Rightarrow> (string \<times> avalue) res" where
  "abs_kv m d = rbind (key_string m d) (\<lambda>k. rbind (abs_value m (md_val d)) (\<lambda>a. Inr (k, a)))"

lemma known_avalue_dtype: "known_dtype (avalue_dtype a)"
proof (cases a)
  case (APrim v)
  then show ?thesis by (cases v) (auto simp: known_dtype_def)
qed (auto simp: known_dtype_def)

interpretation kv: wire_format enc_kv "\<lambda>kv. ok_value (snd kv)"
    "\<lambda>m p. metadata_from_ptr (length m) m p" metadata_size abs_kv
proof
  fix kv :: "string \<times> avalue" and pre post :: string
  obtain k a where kv: "kv = (k, a)" by fastforce
  let ?m = "pre @ enc_kv kv @ post" and ?t = "avalue_dtype a"
  let ?tag = "enc_u32 (dtype_code ?t)"
  assume "ok_value (snd kv)" and small: "length ?m < 2 ^ 31"
  then have ok: "ok_value a" by (simp add: kv)
  have m1: "?m = pre @ enc_string k @ ?tag @ enc_value a @ post"
    and m2: "?m = (pre @ enc_string k) @ ?tag @ enc_value a @ post"
    and m3: "?m = (pre @ enc_string k @ ?tag) @ enc_value a @ post"
    by (simp_all add: enc_kv_def kv)
  from sv.parse_enc [where a = k and pre = pre and post = "?tag @ enc_value a @ post"] small m1
  obtain key where key: "string_from_ptr ?m (int (length pre)) = Inr key"
      "sv_to_string ?m key = Inr k" "sv_size key = int (length (enc_string k))"
    by auto
  have tag: "rd_u32 ?m (int (length pre) + sv_size key) = Inr (dtype_code ?t)"
    by (rule rd_enc(3) [OF m2]) (simp_all add: key)
  have "depth_le (length ?m) a"
    by (rule depth_le_length) (simp add: m1)
  with val.parse_enc [where a = a and f = "length ?m" and t = ?t
      and pre = "pre @ enc_string k @ ?tag" and post = post] ok small m3
  obtain v where v: "value_from_ptr (length ?m) ?m (int (length pre) + sv_size key + 4) ?t = Inr v"
      "abs_value ?m v = Inr a" "vsize v = int (length (enc_value a))"
    by (auto simp: key(3) add.assoc)
  let ?d = "\<lparr>md_key = key, md_type = ?t, md_val = v\<rparr>"
  have "metadata_from_ptr (length ?m) ?m (int (length pre)) = Inr ?d"
    using key(1) tag v(1) by (simp add: metadata_from_ptr_def dtype_of_code known_avalue_dtype)
  moreover have "abs_kv ?m ?d = Inr kv"
    using key(2) v(2) by (simp add: abs_kv_def key_string_def kv)
  moreover have "metadata_size ?d = wrap32 (int (length (enc_kv kv)))"
    using key(3) v(3) by (simp add: metadata_size_def enc_kv_def kv add.assoc)
  then have "metadata_size ?d = int (length (enc_kv kv))"
    using small by simp
  ultimately show "\<exists>d. metadata_from_ptr (length ?m) ?m (int (length pre)) = Inr d
      \<and> abs_kv ?m d = Inr kv \<and> metadata_size d = int (length (enc_kv kv))"
    by blast
qed

end
