(* ===== verification/Tensors.thy ===== *)
theory Tensors
  imports Metadata_Format
begin

text \<open>
  Tensor index entries (\<open>src/model_loader/gguf/tensors.h\<close>, \<open>tensors.cpp\<close>): the parser, the
  size by which it advances the cursor, and the round trip through the streaming contract.
\<close>

text \<open>The pointers of \<open>TensorInfo\<close> into the immutable region are kept as what they point at.\<close>

record tensor_entry =
  te_name :: string_value
  te_n_dim :: u32
  te_dims :: "u64 list"
  te_dtype :: u32
  te_offset :: u64

text \<open>
  The loop counter is an \<open>int\<close>: incrementing it past \<open>INT_MAX\<close> is undefined.
\<close>

fun dims_from_ptr :: "string \<Rightarrow> nat \<Rightarrow> nat \<Rightarrow> int \<Rightarrow> u64 list res" where
  "dims_from_ptr m 0 i cur = Inr []"
| "dims_from_ptr m (Suc n) i cur =
     rbind (rd_u64 m cur) (\<lambda>e.
     if i + 1 = 2 ^ 31 then Inl IntOverflow
     else rbind (dims_from_ptr m n (i + 1) (cur + 8)) (\<lambda>es. Inr (e # es)))"

definition tensor_from_ptr :: "string \<Rightarrow> int \<Rightarrow> tensor_entry res" where
  "tensor_from_ptr m p =
     rbind (string_from_ptr m p) (\<lambda>name.
     let cur = p + sv_size name in
     rbind (rd_u32 m cur) (\<lambda>n_dim.
     rbind (dims_from_ptr m (unat n_dim) 0 (cur + 4)) (\<lambda>dims.
     let cur = cur + 4 + 8 * int (length dims) in
     rbind (rd_u32 m cur) (\<lambda>type.
     rbind (rd_u64 m (cur + 4)) (\<lambda>offset.
     Inr \<lparr>te_name = name, te_n_dim = n_dim, te_dims = dims, te_dtype = type,
       te_offset = offset\<rparr>)))))"

definition tensor_size :: "tensor_entry \<Rightarrow> int" where
  "tensor_size t = wrap32 (sv_size (te_name t) + 4 + 8 * int (length (te_dims t)) + 4 + 8)"

section \<open>Layout and round trip\<close>

record tensor_spec =
  ts_name :: string
  ts_dims :: "u64 list"
  ts_dtype :: u32
  ts_offset :: u64

definition enc_tensor :: "tensor_spec \<Rightarrow> string" where
  "enc_tensor t = enc_string (ts_name t) @ enc_u32 (word_of_nat (length (ts_dims t)))
     @ concat (map enc_u64 (ts_dims t)) @ enc_u32 (ts_dtype t) @ enc_u64 (ts_offset t)"

definition abs_tensor :: "string \<Rightarrow> tensor_entry \<Rightarrow> tensor_spec res" where
  "abs_tensor m t = rbind (sv_to_string m (te_name t)) (\<lambda>n.
     Inr \<lparr>ts_name = n, ts_dims = te_dims t, ts_dtype = te_dtype t, ts_offset = te_offset t\<rparr>)"

interpretation u64: wire_format enc_u64 "\<lambda>_. True" rd_u64 "\<lambda>_. 8" "\<lambda>_ w. Inr w"
proof
  fix a :: u64 and pre post :: string
  have "rd_u64 (pre @ enc_u64 a @ post) (int (length pre)) = Inr a"
    by (rule rd_enc(4)) simp_all
  then show "\<exists>v. rd_u64 (pre @ enc_u64 a @ post) (int (length pre)) = Inr v
      \<and> Inr v = (Inr a :: u64 res) \<and> (8 :: int) = int (length (enc_u64 a))"
    by simp
qed

lemma dims_parse_seq:
  "i + n < 2 ^ 31 \<Longrightarrow> dims_from_ptr m n i cur
    = rbind (parse_seq rd_u64 (\<lambda>_. 8) m n cur) (\<lambda>(es, q). Inr es)"
  by (induction n arbitrary: i cur) (auto simp: rbind_def split: sum.splits prod.splits)

lemma concat_enc_u64 [simp]: "length (concat (map enc_u64 ws)) = 8 * length ws"
  by (induction ws) auto

lemma tensor_wire:
  assumes m: "m = pre @ enc_tensor t @ post" and small: "length m < 2 ^ 31"
  shows "\<exists>v. tensor_from_ptr m (int (length pre)) = Inr v
    \<and> abs_tensor m v = Inr t \<and> tensor_size v = int (length (enc_tensor t))"
proof -
  let ?N = "enc_string (ts_name t)" and ?D = "concat (map enc_u64 (ts_dims t))"
  let ?n = "word_of_nat (length (ts_dims t)) :: u32"
  let ?K = "enc_u32 ?n" and ?T = "enc_u32 (ts_dtype t)" and ?O = "enc_u64 (ts_offset t)"
  have m1: "m = pre @ ?N @ ?K @ ?D @ ?T @ ?O @ post"
    and m2: "m = (pre @ ?N) @ ?K @ ?D @ ?T @ ?O @ post"
    and m3: "m = (pre @ ?N @ ?K) @ ?D @ ?T @ ?O @ post"
    and m4: "m = (pre @ ?N @ ?K @ ?D) @ ?T @ ?O @ post"
    and m5: "m = (pre @ ?N @ ?K @ ?D @ ?T) @ ?O @ post"
    by (simp_all add: m enc_tensor_def)
  from small m1 have len: "length (ts_dims t) < 2 ^ 31" by simp
  then have n: "unat ?n = length (ts_dims t)"
    by (simp add: unsigned_of_nat take_bit_nat_eq_self)
  obtain name where name: "string_from_ptr m (int (length pre)) = Inr name"
      "sv_to_string m name = Inr (ts_name t)" "sv_size name = int (length ?N)"
    by (rule sv.parse_at [OF m1 refl small]) simp
  let ?c = "int (length pre) + sv_size name"
  have nd: "rd_u32 m ?c = Inr ?n"
    by (rule rd_enc(3) [OF m2]) (simp_all add: name)
  have cur: "?c + 4 = int (length (pre @ ?N @ ?K))"
    by (simp add: name)
  obtain vs where "parse_seq rd_u64 (\<lambda>_. 8) m (length (ts_dims t)) (?c + 4)
        = Inr (vs, ?c + 4 + int (length ?D))"
    and "list_all2 (\<lambda>v a. (Inr v :: u64 res) = Inr a \<and> (8 :: int) = int (length (enc_u64 a)))
        vs (ts_dims t)"
    by (rule u64.parse_seq_at [OF m3 cur small], simp, erule that, assumption)
  then have dims: "dims_from_ptr m (unat ?n) 0 (?c + 4) = Inr (ts_dims t)"
    using len by (simp add: n dims_parse_seq list.rel_eq)
  have ty: "rd_u32 m (?c + 4 + 8 * int (length (ts_dims t))) = Inr (ts_dtype t)"
    by (rule rd_enc(3) [OF m4]) (simp_all add: name)
  have off: "rd_u64 m (?c + 4 + 8 * int (length (ts_dims t)) + 4) = Inr (ts_offset t)"
    by (rule rd_enc(4) [OF m5]) (simp_all add: name)
  let ?e = "\<lparr>te_name = name, te_n_dim = ?n, te_dims = ts_dims t, te_dtype = ts_dtype t,
      te_offset = ts_offset t\<rparr>"
  have "tensor_from_ptr m (int (length pre)) = Inr ?e"
    using name(1) nd dims ty off by (simp add: tensor_from_ptr_def Let_def ac_simps)
  moreover have "tensor_size ?e = wrap32 (int (length (enc_tensor t)))"
    by (simp add: tensor_size_def enc_tensor_def name)
  then have "tensor_size ?e = int (length (enc_tensor t))"
    using small m by simp
  ultimately show ?thesis
    using name(2) by (auto simp: abs_tensor_def)
qed

interpretation tensor: wire_format enc_tensor "\<lambda>_. True" tensor_from_ptr tensor_size abs_tensor
  by unfold_locales (rule tensor_wire [OF refl])

end
