(* ===== verification/Containers.thy ===== *)
theory Containers
  imports Prelude "HOL-Library.AList"
begin

text \<open>
  The model of \<open>std::unordered_map\<close>, an association list with distinct keys, and the
  contract the components rely on. Iteration order of the C++ container is unspecified;
  the model iterates in insertion order and no property depends on it.
\<close>

definition um_insert :: "'k \<Rightarrow> 'v \<Rightarrow> ('k \<times> 'v) list \<Rightarrow> ('k \<times> 'v) list" where
  "um_insert k v m = (if map_of m k = None then m @ [(k, v)] else m)"

definition um_assign :: "'k \<Rightarrow> 'v \<Rightarrow> ('k \<times> 'v) list \<Rightarrow> ('k \<times> 'v) list" where
  "um_assign k v m = AList.update k v m"

definition um_erase :: "'k \<Rightarrow> ('k \<times> 'v) list \<Rightarrow> ('k \<times> 'v) list" where
  "um_erase k m = AList.delete k m"

text \<open>
  \<open>insert\<close> keeps an existing entry, \<open>m[k] = v\<close> replaces it, \<open>m[k]\<close> as an rvalue inserts a
  default value for a missing key.
\<close>

definition um_index :: "'v \<Rightarrow> 'k \<Rightarrow> ('k \<times> 'v) list \<Rightarrow> 'v \<times> ('k \<times> 'v) list" where
  "um_index dflt k m = (case map_of m k of
      Some v \<Rightarrow> (v, m) | None \<Rightarrow> (dflt, um_insert k dflt m))"

locale unordered_map =
  fixes find :: "'m \<Rightarrow> 'k \<Rightarrow> 'v option"
    and insert :: "'k \<Rightarrow> 'v \<Rightarrow> 'm \<Rightarrow> 'm"
    and assign :: "'k \<Rightarrow> 'v \<Rightarrow> 'm \<Rightarrow> 'm"
    and erase :: "'k \<Rightarrow> 'm \<Rightarrow> 'm"
  assumes find_insert:
      "find (insert k v m) = (if find m k = None then (find m)(k \<mapsto> v) else find m)"
    and find_assign: "find (assign k v m) = (find m)(k \<mapsto> v)"
    and find_erase: "find (erase k m) = (find m)(k := None)"
begin

text \<open>Filling the map with \<open>insert\<close> lets the first value of a key win.\<close>

lemma insert_all_first:
  "find (fold (\<lambda>(k, v). insert k v) kvs m) k
    = (case find m k of Some v \<Rightarrow> Some v | None \<Rightarrow> map_of kvs k)"
  by (induction kvs arbitrary: m) (auto simp: find_insert split: option.splits if_splits)

text \<open>Filling it by assignment lets the last one win.\<close>

lemma assign_all_last:
  "find (fold (\<lambda>(k, v). assign k v) kvs m) k
    = (case map_of (rev kvs) k of Some v \<Rightarrow> Some v | None \<Rightarrow> find m k)"
proof (induction kvs arbitrary: m)
  case Nil
  then show ?case by simp
next
  case (Cons kv kvs)
  then show ?case
    by (cases kv) (auto simp: find_assign map_add_def split: option.splits)
qed

end

interpretation um: unordered_map map_of um_insert um_assign um_erase
proof
  fix m :: "('k \<times> 'v) list" and k v
  show "map_of (um_insert k v m) = (if map_of m k = None then (map_of m)(k \<mapsto> v) else map_of m)"
    by (auto simp: um_insert_def fun_eq_iff map_add_def split: option.splits)
  show "map_of (um_assign k v m) = (map_of m)(k \<mapsto> v)"
    by (simp add: um_assign_def update_conv')
  show "map_of (um_erase k m) = (map_of m)(k := None)"
    by (simp add: um_erase_def delete_conv')
qed

lemmas um_laws = um.find_insert um.find_assign um.find_erase

lemma um_index_value: "fst (um_index d k m) = (case map_of m k of Some v \<Rightarrow> v | None \<Rightarrow> d)"
  by (simp add: um_index_def split: option.splits)

lemma um_index_map:
  "map_of (snd (um_index d k m)) = (map_of m)(k \<mapsto> fst (um_index d k m))"
  by (auto simp: um_index_def um_laws fun_eq_iff split: option.splits)

end
