(* ===== verification/Model_Types.thy ===== *)
theory Model_Types
  imports Prelude
begin

text \<open>
  The public data types of \<open>include/zinferlm/models.h\<close>. A \<open>float\<close> field holds its IEEE
  bit pattern: no modelled operation computes with it.
\<close>

record model_info_t =
  mi_name :: string
  mi_version :: string
  mi_architecture :: string
  mi_file_type :: string

record model_config_t =
  nheads :: u32
  nkv :: u32
  rope_freq_base :: u32
  n_blocks :: u32
  embedding_dim :: u64
  rms_eps :: u32
  max_context_len :: u32

record tokenizer_info_t =
  tk_model :: string
  tk_pre :: string
  eos_token_id :: u32
  padding_token_id :: u32
  bos_token_id :: u32
  add_bos_token :: bool
  tk_tokens :: "string list"
  tk_merges :: "string list"
  tk_token_type :: "u32 list"
  template_str :: string

record tensor_info_t =
  tn_name :: string
  type_name :: string
  type_id :: u32
  n_dim :: u32
  data_offset :: u64
  dimensions :: "u64 list"

datatype stream_status = CONTINUE | EOS | MAX_CTX_REACHED

end
