(* ===== verification/Loader.thy ===== *)
theory Loader
  imports Tensors Containers Model_Types
begin

text \<open>
  The GGUF file loader (\<open>src/model_loader/gguf/gguf.h\<close>, \<open>gguf.cpp\<close>, the interface
  \<open>loader.h\<close>): header, the metadata and tensor index loops, the alignment of the tensor
  data, the metadata lookups the rest of the program makes.
\<close>

section \<open>File types and header\<close>

datatype gguf_file_type =
    ALL_F32 | MOSTLY_F16 | MOSTLY_Q4_0 | MOSTLY_Q4_1 | MOSTLY_Q8_0 | MOSTLY_Q5_0
  | MOSTLY_Q5_1 | MOSTLY_Q2_K | MOSTLY_Q3_K_S | MOSTLY_Q3_K_M | MOSTLY_Q3_K_L
  | MOSTLY_Q4_K_S | MOSTLY_Q4_K_M | MOSTLY_Q5_K_S | MOSTLY_Q5_K_M | MOSTLY_Q6_K
  | MOSTLY_IQ2_XXS | MOSTLY_IQ2_XS | MOSTLY_Q2_K_S | MOSTLY_IQ3_XS | MOSTLY_IQ3_XXS
  | FT_Other u32

definition file_type_table :: "(u32 \<times> gguf_file_type) list" where
  "file_type_table =
    [(0, ALL_F32), (1, MOSTLY_F16), (2, MOSTLY_Q4_0), (3, MOSTLY_Q4_1), (7, MOSTLY_Q8_0),
     (8, MOSTLY_Q5_0), (9, MOSTLY_Q5_1), (10, MOSTLY_Q2_K), (11, MOSTLY_Q3_K_S),
     (12, MOSTLY_Q3_K_M), (13, MOSTLY_Q3_K_L), (14, MOSTLY_Q4_K_S), (15, MOSTLY_Q4_K_M),
     (16, MOSTLY_Q5_K_S), (17, MOSTLY_Q5_K_M), (18, MOSTLY_Q6_K), (19, MOSTLY_IQ2_XXS),
     (20, MOSTLY_IQ2_XS), (21, MOSTLY_Q2_K_S), (22, MOSTLY_IQ3_XS), (23, MOSTLY_IQ3_XXS)]"

text \<open>The cast from \<open>uint32_t\<close>: a value outside the enumerators stays itself.\<close>

definition file_type_of :: "u32 \<Rightarrow> gguf_file_type" where
  "file_type_of w = (case map_of file_type_table w of Some t \<Rightarrow> t | None \<Rightarrow> FT_Other w)"

fun gguf_file_type_name :: "gguf_file_type \<Rightarrow> string" where
  "gguf_file_type_name ALL_F32 = ''ALL_F32''"
| "gguf_file_type_name MOSTLY_F16 = ''MOSTLY_F16''"
| "gguf_file_type_name MOSTLY_Q4_0 = ''MOSTLY_Q4_0''"
| "gguf_file_type_name MOSTLY_Q4_1 = ''MOSTLY_Q4_1''"
| "gguf_file_type_name MOSTLY_Q8_0 = ''MOSTLY_Q8_0''"
| "gguf_file_type_name MOSTLY_Q5_0 = ''MOSTLY_Q5_0''"
| "gguf_file_type_name MOSTLY_Q5_1 = ''MOSTLY_Q5_1''"
| "gguf_file_type_name MOSTLY_Q2_K = ''MOSTLY_Q2_K''"
| "gguf_file_type_name MOSTLY_Q3_K_S = ''MOSTLY_Q3_K_S''"
| "gguf_file_type_name MOSTLY_Q3_K_M = ''MOSTLY_Q3_K_M''"
| "gguf_file_type_name MOSTLY_Q3_K_L = ''MOSTLY_Q3_K_L''"
| "gguf_file_type_name MOSTLY_Q4_K_S = ''MOSTLY_Q4_K_S''"
| "gguf_file_type_name MOSTLY_Q4_K_M = ''MOSTLY_Q4_K_M''"
| "gguf_file_type_name MOSTLY_Q5_K_S = ''MOSTLY_Q5_K_S''"
| "gguf_file_type_name MOSTLY_Q5_K_M = ''MOSTLY_Q5_K_M''"
| "gguf_file_type_name MOSTLY_Q6_K = ''MOSTLY_Q6_K''"
| "gguf_file_type_name MOSTLY_IQ2_XXS = ''MOSTLY_IQ2_XXS''"
| "gguf_file_type_name MOSTLY_IQ2_XS = ''MOSTLY_IQ2_XS''"
| "gguf_file_type_name MOSTLY_Q2_K_S = ''MOSTLY_Q2_K_S''"
| "gguf_file_type_name MOSTLY_IQ3_XS = ''MOSTLY_IQ3_XS''"
| "gguf_file_type_name MOSTLY_IQ3_XXS = ''MOSTLY_IQ3_XXS''"
| "gguf_file_type_name (FT_Other _) = ''UNKNOWN''"

record gguf_header =
  gh_magic :: u32
  gh_version :: u32
  gh_tensor_count :: u64
  gh_metadata_kv_count :: u64

text \<open>The header is read through a struct pointer at the start of the region.\<close>

definition gguf_header_at :: "string \<Rightarrow> gguf_header res" where
  "gguf_header_at m =
     rbind (rd_u32 m 0) (\<lambda>magic. rbind (rd_u32 m 4) (\<lambda>version.
     rbind (rd_u64 m 8) (\<lambda>tensors. rbind (rd_u64 m 16) (\<lambda>kvs.
     Inr \<lparr>gh_magic = magic, gh_version = version, gh_tensor_count = tensors,
       gh_metadata_kv_count = kvs\<rparr>))))"

text \<open>
  \<open>is_gguf_file\<close> reads four bytes into an uninitialised buffer and compares all four: for a
  shorter file the rest of the buffer is whatever the stack held, the argument \<open>stack\<close>.
\<close>

definition is_gguf_file :: "string \<Rightarrow> string \<Rightarrow> bool" where
  "is_gguf_file stack file = (take 4 file @ drop (min 4 (length file)) stack = ''GGUF'')"

section \<open>The record loops\<close>

record gguf_loader =
  gl_map :: string
  gl_header :: gguf_header
  gl_metadata :: "(string \<times> metadata) list"
  gl_tensors :: "(string \<times> tensor_entry) list"
  gl_tensor_base :: u64

fun gguf_metadata ::
  "string \<Rightarrow> nat \<Rightarrow> int \<Rightarrow> (string \<times> metadata) list \<Rightarrow> ((string \<times> metadata) list \<times> int) res"
where
  "gguf_metadata m 0 p acc = Inr (acc, p)"
| "gguf_metadata m (Suc n) p acc =
     rbind (metadata_from_ptr (length m) m p) (\<lambda>met.
     rbind (key_string m met) (\<lambda>key.
     gguf_metadata m n (p + metadata_size met) (um_insert key met acc)))"

text \<open>\<open>kv_count\<close> is an \<open>int\<close> parameter: the header's 64-bit count is truncated by the call.\<close>

definition kv_rounds :: "u64 \<Rightarrow> nat" where
  "kv_rounds kv_count = nat (wrap32 (uint kv_count))"

fun gguf_tensors_info ::
  "string \<Rightarrow> nat \<Rightarrow> nat \<Rightarrow> int \<Rightarrow> (string \<times> tensor_entry) list
    \<Rightarrow> ((string \<times> tensor_entry) list \<times> int) res"
where
  "gguf_tensors_info m 0 i p acc = Inr (acc, p)"
| "gguf_tensors_info m (Suc n) i p acc =
     rbind (tensor_from_ptr m p) (\<lambda>t.
     rbind (sv_to_string m (te_name t)) (\<lambda>name.
     if i + 1 = 2 ^ 31 then Inl IntOverflow
     else gguf_tensors_info m n (i + 1) (p + tensor_size t) (um_insert name t acc)))"

section \<open>Metadata lookup and alignment\<close>

definition get_metadata :: "(string \<times> metadata) list \<Rightarrow> string \<Rightarrow> metadata" where
  "get_metadata md key = (case map_of md key of Some d \<Rightarrow> d | None \<Rightarrow> metadata_empty)"

definition tensor_alignment :: "(string \<times> metadata) list \<Rightarrow> u64 res" where
  "tensor_alignment md =
     rbind (value_as get_u8 0 (get_metadata md ''general.alignment'')) (\<lambda>w.
     Inr (if w = 0 then 32 else ucast w))"

definition align_address :: "(string \<times> metadata) list \<Rightarrow> u64 \<Rightarrow> u64 res" where
  "align_address md ptr = rbind (tensor_alignment md) (\<lambda>alignment.
     Inr (ptr + (alignment - ptr mod alignment) mod alignment))"

text \<open>
  \<open>load_gguf_file\<close>: \<open>mapped\<close> is what \<open>mmap\<close> returned for the file, \<open>None\<close> for
  \<open>MAP_FAILED\<close>; the loader is then the null pointer.
\<close>

definition load_gguf_file :: "u64 option \<Rightarrow> string \<Rightarrow> gguf_loader option res" where
  "load_gguf_file mapped m = (case mapped of
      None \<Rightarrow> Inr None
    | Some base \<Rightarrow>
        rbind (gguf_header_at m) (\<lambda>header.
        rbind (gguf_metadata m (kv_rounds (gh_metadata_kv_count header)) 24 []) (\<lambda>(md, cur).
        rbind (gguf_tensors_info m (unat (gh_tensor_count header)) 0 cur []) (\<lambda>(ts, cur).
        rbind (align_address md (base + word_of_int cur)) (\<lambda>tensor_base.
        Inr (Some \<lparr>gl_map = m, gl_header = header, gl_metadata = md, gl_tensors = ts,
          gl_tensor_base = tensor_base\<rparr>))))))"

section \<open>What the loader reports\<close>

definition md_string :: "float_format \<Rightarrow> gguf_loader \<Rightarrow> string \<Rightarrow> string res" where
  "md_string ff g key = val_string ff (gl_map g) (get_metadata (gl_metadata g) key)"

definition md_value :: "(primitive_value \<Rightarrow> 'a option) \<Rightarrow> 'a \<Rightarrow> gguf_loader \<Rightarrow> string \<Rightarrow> 'a res" where
  "md_value get dflt g key = value_as get dflt (get_metadata (gl_metadata g) key)"

definition loader_info :: "float_format \<Rightarrow> gguf_loader \<Rightarrow> model_info_t res" where
  "loader_info ff g =
     rbind (md_string ff g ''general.architecture'') (\<lambda>arch.
     rbind (md_string ff g ''general.version'') (\<lambda>version.
     rbind (md_string ff g ''general.name'') (\<lambda>name.
     rbind (md_value get_u32 0 g ''general.file_type'') (\<lambda>ft.
     Inr \<lparr>mi_name = name, mi_version = version, mi_architecture = arch,
       mi_file_type = gguf_file_type_name (file_type_of ft)\<rparr>))))"

definition loader_model_config :: "gguf_loader \<Rightarrow> model_config_t res" where
  "loader_model_config g =
     rbind (md_value get_u32 0 g ''qwen2.attention.head_count'') (\<lambda>nh.
     rbind (md_value get_u32 0 g ''qwen2.attention.head_count_kv'') (\<lambda>nk.
     rbind (md_value get_f32 0 g ''qwen2.rope.freq_base'') (\<lambda>rope.
     rbind (md_value get_u32 0 g ''qwen2.embedding_length'') (\<lambda>emb.
     rbind (md_value get_u32 0 g ''qwen2.block_count'') (\<lambda>blocks.
     rbind (md_value get_f32 0 g ''qwen2.attention.layer_norm_rms_epsilon'') (\<lambda>eps.
     rbind (md_value get_u32 0 g ''qwen2.context_length'') (\<lambda>ctx.
     Inr \<lparr>nheads = nh, nkv = nk, rope_freq_base = rope, n_blocks = blocks,
       embedding_dim = ucast emb, rms_eps = eps, max_context_len = ctx\<rparr>)))))))"

definition loader_tokenizer_info :: "float_format \<Rightarrow> gguf_loader \<Rightarrow> tokenizer_info_t res" where
  "loader_tokenizer_info ff g =
     (let m = gl_map g; md = get_metadata (gl_metadata g) in
     rbind (md_string ff g ''tokenizer.ggml.model'') (\<lambda>model.
     rbind (md_string ff g ''tokenizer.ggml.pre'') (\<lambda>pre.
     rbind (val_array_string ff m (md ''tokenizer.ggml.tokens'')) (\<lambda>tokens.
     rbind (val_array_string ff m (md ''tokenizer.ggml.merges'')) (\<lambda>merges.
     rbind (val_array_as get_i32 (md ''tokenizer.ggml.token_type'')) (\<lambda>types.
     rbind (md_value get_u32 0 g ''tokenizer.ggml.bos_token_id'') (\<lambda>bos.
     rbind (md_value get_u32 0 g ''tokenizer.ggml.eos_token_id'') (\<lambda>eos.
     rbind (md_value get_u32 0 g ''tokenizer.ggml.padding_token_id'') (\<lambda>pad.
     rbind (md_value get_bool False g ''tokenizer.ggml.add_bos_token'') (\<lambda>add_bos.
     rbind (md_string ff g ''tokenizer.chat_template'') (\<lambda>tmpl.
     Inr \<lparr>tk_model = model, tk_pre = pre, eos_token_id = eos, padding_token_id = pad,
       bos_token_id = bos, add_bos_token = add_bos, tk_tokens = tokens, tk_merges = merges,
       tk_token_type = types, template_str = tmpl\<rparr>)))))))))))"

text \<open>\<open>type_nm\<close> is ggml's \<open>ggml_type_name\<close>.\<close>

definition tensor_record :: "(u32 \<Rightarrow> string) \<Rightarrow> string \<Rightarrow> tensor_entry \<Rightarrow> tensor_info_t res" where
  "tensor_record type_nm m t = rbind (sv_to_string m (te_name t)) (\<lambda>name.
     Inr \<lparr>tn_name = name, type_name = type_nm (te_dtype t), type_id = te_dtype t,
       n_dim = te_n_dim t, data_offset = te_offset t, dimensions = te_dims t\<rparr>)"

fun tensor_records ::
  "(u32 \<Rightarrow> string) \<Rightarrow> string \<Rightarrow> (string \<times> tensor_entry) list \<Rightarrow> tensor_info_t list res" where
  "tensor_records type_nm m [] = Inr []"
| "tensor_records type_nm m ((_, t) # ts) =
     rbind (tensor_record type_nm m t) (\<lambda>r.
     rbind (tensor_records type_nm m ts) (\<lambda>rs. Inr (r # rs)))"

definition loader_tensor_info :: "(u32 \<Rightarrow> string) \<Rightarrow> gguf_loader \<Rightarrow> tensor_info_t list res" where
  "loader_tensor_info type_nm g = tensor_records type_nm (gl_map g) (gl_tensors g)"

definition loader_tensor_info_by_name ::
  "(u32 \<Rightarrow> string) \<Rightarrow> gguf_loader \<Rightarrow> string \<Rightarrow> tensor_info_t res" where
  "loader_tensor_info_by_name type_nm g name = (case map_of (gl_tensors g) name of
      Some t \<Rightarrow> tensor_record type_nm (gl_map g) t
    | None \<Rightarrow> Inr \<lparr>tn_name = [], type_name = [], type_id = 0, n_dim = 0, data_offset = 0,
        dimensions = []\<rparr>)"

definition loader_tensor_count :: "gguf_loader \<Rightarrow> u64" where
  "loader_tensor_count g = gh_tensor_count (gl_header g)"

definition loader_tensor_ptr :: "gguf_loader \<Rightarrow> u64 \<Rightarrow> u64" where
  "loader_tensor_ptr g offset = gl_tensor_base g + offset"

end
