(* ===== verification/Loader_Facts.thy ===== *)
theory Loader_Facts
  imports Loader
begin

text \<open>
  What the loader makes of a file laid out as GGUF prescribes, and of files that are not:
  the layout of a whole file, the two record loops over it, the lookups by key and by
  tensor name, the alignment of the tensor data, and a crafted file on which the parser
  recurses without bound.
\<close>

section \<open>Layout of a file\<close>

record gguf_file =
  gf_version :: u32
  gf_kvs :: "(string \<times> avalue) list"
  gf_tensors :: "tensor_spec list"

definition enc_header :: "gguf_file \<Rightarrow> string" where
  "enc_header f = ''GGUF'' @ enc_u32 (gf_version f)
     @ enc_u64 (word_of_nat (length (gf_tensors f)))
     @ enc_u64 (word_of_nat (length (gf_kvs f)))"

definition enc_gguf :: "gguf_file \<Rightarrow> string" where
  "enc_gguf f = enc_header f @ concat (map enc_kv (gf_kvs f))
     @ concat (map enc_tensor (gf_tensors f))"

text \<open>What a loader holds under a key or a tensor name, with its views read.\<close>

definition loaded_value :: "gguf_loader \<Rightarrow> string \<Rightarrow> avalue option res" where
  "loaded_value g k = (case map_of (gl_metadata g) k of
      None \<Rightarrow> Inr None
    | Some d \<Rightarrow> rbind (abs_value (gl_map g) (md_val d)) (\<lambda>a. Inr (Some a)))"

definition loaded_tensor :: "gguf_loader \<Rightarrow> string \<Rightarrow> tensor_spec option res" where
  "loaded_tensor g n = (case map_of (gl_tensors g) n of
      None \<Rightarrow> Inr None
    | Some t \<Rightarrow> rbind (abs_tensor (gl_map g) t) (\<lambda>a. Inr (Some a)))"

text \<open>The alignment a file asks for: \<open>general.alignment\<close> as a \<open>uint8_t\<close>, 0 meaning 32.\<close>

definition file_alignment :: "(string \<times> avalue) list \<Rightarrow> u64 res" where
  "file_alignment kvs = (case map_of kvs ''general.alignment'' of
      Some (APrim (PU8 w)) \<Rightarrow> Inr (if w = 0 then 32 else ucast w)
    | Some (APrim _) \<Rightarrow> Inl BadVariantAccess
    | _ \<Rightarrow> Inr 32)"

definition align_up :: "u64 \<Rightarrow> u64 \<Rightarrow> u64" where
  "align_up a x = x + (a - x mod a) mod a"

section \<open>The record loops\<close>

lemma gguf_metadata_seq:
  assumes "parse_seq (\<lambda>m p. metadata_from_ptr (length m) m p) metadata_size m n p = Inr (ds, q)"
    and "list_all2 (\<lambda>d k. key_string m d = Inr k) ds ks"
  shows "gguf_metadata m n p acc
    = Inr (fold (\<lambda>(k, d). um_insert k d) (zip ks ds) acc, q)"
  using assms
proof (induction n arbitrary: p ds ks acc)
  case 0
  then show ?case by auto
next
  case (Suc n)
  from Suc.prems(1) obtain d ds' where d: "metadata_from_ptr (length m) m p = Inr d"
    and ds': "parse_seq (\<lambda>m p. metadata_from_ptr (length m) m p) metadata_size m n
      (p + metadata_size d) = Inr (ds', q)"
    and ds: "ds = d # ds'"
    by (auto simp: rbind_eq_Inr)
  from Suc.prems(2) ds obtain k ks' where ks: "ks = k # ks'" "key_string m d = Inr k"
      "list_all2 (\<lambda>d k. key_string m d = Inr k) ds' ks'"
    by (auto simp: list_all2_Cons1)
  show ?case using Suc.IH [OF ds' ks(3)] d ds ks by simp
qed

lemma gguf_tensors_seq:
  assumes "parse_seq tensor_from_ptr tensor_size m n p = Inr (ts, q)"
    and "list_all2 (\<lambda>t k. sv_to_string m (te_name t) = Inr k) ts ks"
    and "i + n < 2 ^ 31"
  shows "gguf_tensors_info m n i p acc
    = Inr (fold (\<lambda>(k, t). um_insert k t) (zip ks ts) acc, q)"
  using assms
proof (induction n arbitrary: i p ts ks acc)
  case 0
  then show ?case by auto
next
  case (Suc n)
  from Suc.prems(1) obtain t ts' where t: "tensor_from_ptr m p = Inr t"
    and ts': "parse_seq tensor_from_ptr tensor_size m n (p + tensor_size t) = Inr (ts', q)"
    and ts: "ts = t # ts'"
    by (auto simp: rbind_eq_Inr)
  from Suc.prems(2) ts obtain k ks' where ks: "ks = k # ks'" "sv_to_string m (te_name t) = Inr k"
      "list_all2 (\<lambda>t k. sv_to_string m (te_name t) = Inr k) ts' ks'"
    by (auto simp: list_all2_Cons1)
  show ?case using Suc.IH [OF ts' ks(3), of "i + 1"] Suc.prems(3) t ts ks by simp
qed

text \<open>
  Looking a key up among records parsed in order: the record found denotes the first entry
  of that key in the file.
\<close>

lemma map_of_zip_list_all2:
  assumes "list_all2 (\<lambda>d a. P d a) ds as" and "ks = map key as"
  shows "rel_option P (map_of (zip ks ds) k) (map_of (map (\<lambda>a. (key a, a)) as) k)"
  using assms by (induction arbitrary: ks rule: list_all2_induct) auto

lemma fold_insert_lookup:
  "map_of (fold (\<lambda>(k, d). um_insert k d) kds []) k = map_of kds k"
  by (simp add: um.insert_all_first)

lemma length_enc_header [simp]: "length (enc_header f) = 24"
  by (simp add: enc_header_def)

lemma header_parse:
  assumes "m = enc_header f @ rest" and "length (gf_tensors f) < 2 ^ 31" "length (gf_kvs f) < 2 ^ 31"
  shows "\<exists>h. gguf_header_at m = Inr h \<and> unat (gh_tensor_count h) = length (gf_tensors f)
    \<and> kv_rounds (gh_metadata_kv_count h) = length (gf_kvs f)"
proof -
  let ?V = "enc_u32 (gf_version f)" and ?T = "enc_u64 (word_of_nat (length (gf_tensors f)))"
  let ?K = "enc_u64 (word_of_nat (length (gf_kvs f)))"
  have m: "m = ''GGUF'' @ ?V @ ?T @ ?K @ rest" by (simp add: assms(1) enc_header_def)
  have "rd_u32 m 0 = Inr (word_of_nat (le_val ''GGUF''))"
    using rd_split [of m "[]" "''GGUF''" "?V @ ?T @ ?K @ rest" 0 4] by (simp add: rd_u32_def m)
  moreover have "rd_u32 m 4 = Inr (gf_version f)"
    by (rule rd_enc(3) [of m "''GGUF''" ?V "?T @ ?K @ rest"]) (simp_all add: m)
  moreover have "rd_u64 m 8 = Inr (word_of_nat (length (gf_tensors f)))"
    by (rule rd_enc(4) [of m "''GGUF'' @ ?V" ?T "?K @ rest"]) (simp_all add: m)
  moreover have "rd_u64 m 16 = Inr (word_of_nat (length (gf_kvs f)))"
    by (rule rd_enc(4) [of m "''GGUF'' @ ?V @ ?T" ?K rest]) (simp_all add: m)
  moreover have "uint (word_of_nat (length (gf_kvs f)) :: u64) = int (length (gf_kvs f))"
    using assms(3) by (metis unat_of_length of_nat_unat)
  ultimately show ?thesis
    using assms(2,3) by (simp add: gguf_header_at_def kv_rounds_def)
qed

section \<open>Loading a well-formed file\<close>

lemma enc_kv_nonempty: "enc_kv kv \<noteq> []"
  by (simp add: enc_kv_def enc_string_def flip: length_greater_0_conv)

lemma enc_tensor_nonempty: "enc_tensor t \<noteq> []"
  by (simp add: enc_tensor_def enc_string_def flip: length_greater_0_conv)

lemma abs_kv_parts:
  "abs_kv m d = Inr kv \<longleftrightarrow> key_string m d = Inr (fst kv) \<and> abs_value m (md_val d) = Inr (snd kv)"
  by (cases kv) (auto simp: abs_kv_def rbind_eq_Inr)

lemma abs_tensor_name: "abs_tensor m t = Inr a \<Longrightarrow> sv_to_string m (te_name t) = Inr (ts_name a)"
  by (auto simp: abs_tensor_def rbind_eq_Inr)

lemma map_of_keyed: "map_of kvs k = map_option snd (map_of (map (\<lambda>kv. (fst kv, kv)) kvs) k)"
  by (induction kvs) auto

text \<open>The alignment lookup depends on the file's entry for the key only.\<close>

lemma tensor_alignment_abs:
  assumes "rel_option (\<lambda>d kv. abs_value m (md_val d) = Inr (snd kv))
      (map_of md ''general.alignment'')
      (map_of (map (\<lambda>kv. (fst kv, kv)) kvs) ''general.alignment'')"
  shows "tensor_alignment md = file_alignment kvs"
proof -
  note snd = map_of_keyed [of kvs]
  show ?thesis
  proof (cases "map_of md ''general.alignment''")
    case None
    then show ?thesis
      using assms by (simp add: tensor_alignment_def file_alignment_def get_metadata_def
          value_as_def metadata_empty_def snd)
  next
    case (Some d)
    with assms obtain k a where
      "map_of (map (\<lambda>kv. (fst kv, kv)) kvs) ''general.alignment'' = Some (k, a)"
      and a: "abs_value m (md_val d) = Inr a"
      by (auto simp: option_rel_Some1)
    with Some have lhs: "tensor_alignment md
        = rbind (value_as get_u8 0 d) (\<lambda>w. Inr (if w = 0 then 32 else ucast w))"
      and rhs: "map_of kvs ''general.alignment'' = Some a"
      by (simp_all add: tensor_alignment_def get_metadata_def snd)
    show ?thesis
    proof (cases "md_val d")
      case (Prim v n)
      with a show ?thesis by (cases v) (auto simp: lhs file_alignment_def rhs value_as_def)
    qed (use a in \<open>auto simp: lhs file_alignment_def rhs value_as_def rbind_eq_Inr\<close>)
  qed
qed

lemma load_loops:
  assumes m: "m = enc_gguf f @ rest" and small: "length m < 2 ^ 31"
    and ok: "\<forall>(k, a) \<in> set (gf_kvs f). ok_value a"
  obtains h md ts where
    "gguf_header_at m = Inr h" "unat (gh_tensor_count h) = length (gf_tensors f)"
    "kv_rounds (gh_metadata_kv_count h) = length (gf_kvs f)"
    "gguf_metadata m (length (gf_kvs f)) 24 []
      = Inr (md, int (24 + length (concat (map enc_kv (gf_kvs f)))))"
    "gguf_tensors_info m (length (gf_tensors f)) 0
        (int (24 + length (concat (map enc_kv (gf_kvs f))))) []
      = Inr (ts, int (length (enc_gguf f)))"
    "\<forall>k. rel_option (\<lambda>d kv. abs_value m (md_val d) = Inr (snd kv)) (map_of md k)
      (map_of (map (\<lambda>kv. (fst kv, kv)) (gf_kvs f)) k)"
    "\<forall>k. rel_option (\<lambda>t a. abs_tensor m t = Inr a) (map_of ts k)
      (map_of (map (\<lambda>t. (ts_name t, t)) (gf_tensors f)) k)"
proof -
  let ?H = "enc_header f" and ?K = "concat (map enc_kv (gf_kvs f))"
  let ?T = "concat (map enc_tensor (gf_tensors f))"
  have m1: "m = ?H @ ?K @ ?T @ rest" and m2: "m = (?H @ ?K) @ ?T @ rest"
    by (simp_all add: m enc_gguf_def)
  have "length (gf_kvs f) \<le> length ?K" "length (gf_tensors f) \<le> length ?T"
    by (rule length_le_concat, simp add: enc_kv_nonempty enc_tensor_nonempty)+
  with small m1 have counts: "length (gf_kvs f) < 2 ^ 31" "length (gf_tensors f) < 2 ^ 31"
    by simp_all
  obtain h where h: "gguf_header_at m = Inr h" "unat (gh_tensor_count h) = length (gf_tensors f)"
      "kv_rounds (gh_metadata_kv_count h) = length (gf_kvs f)"
    using header_parse [OF m1 counts(2,1)] by blast
  have c1: "24 = int (length ?H)" by simp
  have okk: "\<forall>kv \<in> set (gf_kvs f). ok_value (snd kv)" using ok by auto
  obtain ds where ds: "parse_seq (\<lambda>m p. metadata_from_ptr (length m) m p) metadata_size m
        (length (gf_kvs f)) 24 = Inr (ds, 24 + int (length ?K))"
    and ds2: "list_all2 (\<lambda>d kv. abs_kv m d = Inr kv \<and> metadata_size d = int (length (enc_kv kv)))
        ds (gf_kvs f)"
    by (rule kv.parse_seq_at [OF m1 c1 small okk], erule that, assumption)
  let ?ks = "map fst (gf_kvs f)" and ?ns = "map ts_name (gf_tensors f)"
  let ?md = "fold (\<lambda>(k, d). um_insert k d) (zip ?ks ds) []"
  have md: "gguf_metadata m (length (gf_kvs f)) 24 [] = Inr (?md, int (24 + length ?K))"
    using gguf_metadata_seq [OF ds, of ?ks "[]"] ds2
    by (simp add: list_all2_map2 abs_kv_parts list_all2_mono)
  have cur: "int (24 + length ?K) = int (length (?H @ ?K))" by simp
  obtain es where es: "parse_seq tensor_from_ptr tensor_size m (length (gf_tensors f))
        (int (24 + length ?K)) = Inr (es, int (24 + length ?K) + int (length ?T))"
    and es2: "list_all2 (\<lambda>t a. abs_tensor m t = Inr a \<and> tensor_size t = int (length (enc_tensor a)))
        es (gf_tensors f)"
    by (rule tensor.parse_seq_at [OF m2 cur small], simp, erule that, assumption)
  let ?ts = "fold (\<lambda>(k, t). um_insert k t) (zip ?ns es) []"
  have names: "list_all2 (\<lambda>t k. sv_to_string m (te_name t) = Inr k) es ?ns"
    using es2 by (auto simp: list_all2_map2 abs_tensor_name elim: list_all2_mono)
  have ts: "gguf_tensors_info m (length (gf_tensors f)) 0 (int (24 + length ?K)) []
      = Inr (?ts, int (length (enc_gguf f)))"
    using gguf_tensors_seq [OF es names, of 0 "[]"] counts by (simp add: enc_gguf_def)
  have "rel_option (\<lambda>d kv. abs_value m (md_val d) = Inr (snd kv)) (map_of ?md k)
      (map_of (map (\<lambda>kv. (fst kv, kv)) (gf_kvs f)) k)" for k
    unfolding fold_insert_lookup
    by (rule map_of_zip_list_all2 [OF list_all2_mono [OF ds2] refl]) (simp add: abs_kv_parts)
  moreover have "rel_option (\<lambda>t a. abs_tensor m t = Inr a) (map_of ?ts k)
      (map_of (map (\<lambda>t. (ts_name t, t)) (gf_tensors f)) k)" for k
    unfolding fold_insert_lookup
    by (rule map_of_zip_list_all2 [OF list_all2_mono [OF es2] refl]) simp
  ultimately show ?thesis
    by (intro that [OF h md ts]) blast+
qed

lemma load_eq:
  assumes m: "m = enc_gguf f @ data" and small: "length m < 2 ^ 31"
    and ok: "\<forall>(k, a) \<in> set (gf_kvs f). ok_value a"
  obtains h md ts where
    "load_gguf_file (Some base) m = rbind (file_alignment (gf_kvs f)) (\<lambda>al.
      Inr (Some \<lparr>gl_map = m, gl_header = h, gl_metadata = md, gl_tensors = ts,
        gl_tensor_base = align_up al (base + word_of_nat (length (enc_gguf f)))\<rparr>))"
    "\<forall>k. rel_option (\<lambda>d kv. abs_value m (md_val d) = Inr (snd kv)) (map_of md k)
      (map_of (map (\<lambda>kv. (fst kv, kv)) (gf_kvs f)) k)"
    "\<forall>k. rel_option (\<lambda>t a. abs_tensor m t = Inr a) (map_of ts k)
      (map_of (map (\<lambda>t. (ts_name t, t)) (gf_tensors f)) k)"
proof (rule load_loops [OF m small ok])
  fix h md ts
  assume h: "gguf_header_at m = Inr h" "unat (gh_tensor_count h) = length (gf_tensors f)"
      "kv_rounds (gh_metadata_kv_count h) = length (gf_kvs f)"
    and md: "gguf_metadata m (length (gf_kvs f)) 24 []
      = Inr (md, int (24 + length (concat (map enc_kv (gf_kvs f)))))"
    and ts: "gguf_tensors_info m (length (gf_tensors f)) 0
        (int (24 + length (concat (map enc_kv (gf_kvs f))))) []
      = Inr (ts, int (length (enc_gguf f)))"
    and md2: "\<forall>k. rel_option (\<lambda>d kv. abs_value m (md_val d) = Inr (snd kv)) (map_of md k)
      (map_of (map (\<lambda>kv. (fst kv, kv)) (gf_kvs f)) k)"
    and ts2: "\<forall>k. rel_option (\<lambda>t a. abs_tensor m t = Inr a) (map_of ts k)
      (map_of (map (\<lambda>t. (ts_name t, t)) (gf_tensors f)) k)"
  have al: "tensor_alignment md = file_alignment (gf_kvs f)"
    by (rule tensor_alignment_abs [OF md2 [rule_format]])
  show thesis
    by (rule that [OF _ md2 ts2, of h])
      (use h md ts in \<open>simp add: load_gguf_file_def align_address_def al align_up_def rbind_assoc\<close>)
qed

lemma load_wf:
  assumes m: "m = enc_gguf f @ data" and small: "length m < 2 ^ 31"
    and ok: "\<forall>(k, a) \<in> set (gf_kvs f). ok_value a"
    and al: "file_alignment (gf_kvs f) = Inr al"
  shows "\<exists>g. load_gguf_file (Some base) m = Inr (Some g)
    \<and> (\<forall>k. loaded_value g k = Inr (map_of (gf_kvs f) k))
    \<and> (\<forall>n. loaded_tensor g n = Inr (map_of (map (\<lambda>t. (ts_name t, t)) (gf_tensors f)) n))
    \<and> gl_tensor_base g = align_up al (base + word_of_nat (length (enc_gguf f)))"
proof (rule load_eq [OF m small ok, of base])
  fix h md ts
  let ?g = "\<lparr>gl_map = m, gl_header = h, gl_metadata = md, gl_tensors = ts,
      gl_tensor_base = align_up al (base + word_of_nat (length (enc_gguf f)))\<rparr>"
  assume "load_gguf_file (Some base) m = rbind (file_alignment (gf_kvs f)) (\<lambda>al.
      Inr (Some \<lparr>gl_map = m, gl_header = h, gl_metadata = md, gl_tensors = ts,
        gl_tensor_base = align_up al (base + word_of_nat (length (enc_gguf f)))\<rparr>))"
    and md2: "\<forall>k. rel_option (\<lambda>d kv. abs_value m (md_val d) = Inr (snd kv)) (map_of md k)
      (map_of (map (\<lambda>kv. (fst kv, kv)) (gf_kvs f)) k)"
    and ts2: "\<forall>k. rel_option (\<lambda>t a. abs_tensor m t = Inr a) (map_of ts k)
      (map_of (map (\<lambda>t. (ts_name t, t)) (gf_tensors f)) k)"
  with al have load: "load_gguf_file (Some base) m = Inr (Some ?g)" by simp
  have "loaded_value ?g k = Inr (map_of (gf_kvs f) k)" for k
    unfolding map_of_keyed [of "gf_kvs f"]
    using md2 [rule_format, of k] by (auto simp: loaded_value_def elim!: option.rel_cases)
  moreover have "loaded_tensor ?g n = Inr (map_of (map (\<lambda>t. (ts_name t, t)) (gf_tensors f)) n)" for n
    using ts2 [rule_format, of n] by (auto simp: loaded_tensor_def elim!: option.rel_cases)
  ultimately show ?thesis using load by auto
qed

section \<open>Alignment arithmetic\<close>

lemma align_up_nat:
  fixes x a :: nat
  assumes "0 < a"
  shows "a dvd x + (a - x mod a) mod a \<and> (a - x mod a) mod a < a"
proof (cases "x mod a = 0")
  case True
  then show ?thesis using assms by (simp add: dvd_eq_mod_eq_0)
next
  case False
  then have "(a - x mod a) mod a = a - x mod a" using assms by simp
  moreover have "x + (a - x mod a) = a * (x div a) + a"
    using assms mod_less_divisor [OF assms, of x] mult_div_mod_eq [of a x] by linarith
  ultimately show ?thesis using assms by (metis dvd_add dvd_triv_left dvd_refl mod_less_divisor)
qed

lemma ucast_u8_eq_0 [simp]: "(ucast (w :: u8) :: u64) = 0 \<longleftrightarrow> w = 0"
  by transfer simp

lemma align_up_word:
  fixes p a :: u64
  assumes "a \<noteq> 0" and "unat p + unat a \<le> 2 ^ 64"
  shows "unat a dvd unat (p + (a - p mod a) mod a)
    \<and> unat p \<le> unat (p + (a - p mod a) mod a)
    \<and> unat (p + (a - p mod a) mod a) < unat p + unat a"
proof -
  have pos: "0 < unat a" using assms(1) by (simp add: unat_gt_0)
  have "p mod a \<le> a" using assms(1) by (simp add: word_mod_less_divisor less_imp_le word_neq_0_conv)
  then have "unat (a - p mod a) = unat a - unat p mod unat a"
    by (simp add: unat_sub unat_mod_distrib)
  then have d: "unat ((a - p mod a) mod a) = (unat a - unat p mod unat a) mod unat a"
    by (simp add: unat_mod_distrib)
  have lt: "(unat a - unat p mod unat a) mod unat a < unat a" using pos by simp
  with assms(2) d have "unat (p + (a - p mod a) mod a)
      = unat p + (unat a - unat p mod unat a) mod unat a"
    by (simp add: unat_word_ariths)
  with align_up_nat [OF pos, of "unat p"] show ?thesis by simp
qed

section \<open>Lookups\<close>

text \<open>Reading a value the file stores under a key, in the type it is stored with.\<close>

lemma value_to_string_abs: "abs_value m v = Inr (AStr s) \<Longrightarrow> value_to_string ff m v = Inr s"
  by (cases v) (auto simp: rbind_eq_Inr)

lemma strings_of_abs: "abs_values m es = Inr (map AStr ss) \<Longrightarrow> strings_of ff m es = Inr ss"
proof (induction es arbitrary: ss)
  case (Cons e es)
  then show ?case
    by (cases ss) (auto simp: rbind_eq_Inr dest: value_to_string_abs)
qed simp

lemma prims_of_abs:
  "abs_values m es = Inr (map (\<lambda>w. APrim (PI32 w)) ws) \<Longrightarrow> prims_of get_i32 es = Inr ws"
proof (induction es arbitrary: ws)
  case (Cons e es)
  then obtain w ws' where ws: "ws = w # ws'" "abs_value m e = Inr (APrim (PI32 w))"
      "abs_values m es = Inr (map (\<lambda>w. APrim (PI32 w)) ws')"
    by (cases ws) (auto simp: rbind_eq_Inr)
  with Cons.IH [OF ws(3)] show ?case by (cases e) (auto simp: rbind_eq_Inr)
qed simp

lemma get_metadata_loaded:
  assumes "loaded_value g k = Inr (Some a)"
  shows "abs_value (gl_map g) (md_val (get_metadata (gl_metadata g) k)) = Inr a"
  using assms by (auto simp: loaded_value_def get_metadata_def rbind_eq_Inr split: option.splits)

lemma md_string_loaded:
  "loaded_value g k = Inr (Some (AStr s)) \<Longrightarrow> md_string ff g k = Inr s"
  by (auto simp: md_string_def val_string_def dest: get_metadata_loaded value_to_string_abs)

lemma md_value_loaded:
  assumes "loaded_value g k = Inr (Some (APrim v))" and "get v = Some x"
  shows "md_value get d g k = Inr x"
  using get_metadata_loaded [OF assms(1)] assms(2)
  by (cases "md_val (get_metadata (gl_metadata g) k)")
    (auto simp: md_value_def value_as_def rbind_eq_Inr)

lemma val_array_string_loaded:
  assumes "loaded_value g k = Inr (Some (AArr t (map AStr ss)))"
  shows "val_array_string ff (gl_map g) (get_metadata (gl_metadata g) k) = Inr ss"
  using get_metadata_loaded [OF assms]
  by (cases "md_val (get_metadata (gl_metadata g) k)")
    (auto simp: val_array_string_def rbind_eq_Inr dest: strings_of_abs)

lemma val_array_i32_loaded:
  assumes "loaded_value g k = Inr (Some (AArr t (map (\<lambda>w. APrim (PI32 w)) ws)))"
  shows "val_array_as get_i32 (get_metadata (gl_metadata g) k) = Inr ws"
  using get_metadata_loaded [OF assms]
  by (cases "md_val (get_metadata (gl_metadata g) k)")
    (auto simp: val_array_as_def rbind_eq_Inr dest: prims_of_abs)

text \<open>
  A numeric lookup fails exactly when the key is missing or holds a primitive of another
  type: a missing key yields \<open>Metadata::empty()\<close>, whose value is an \<open>uint8_t\<close>.
\<close>

definition numeric_entry :: "(primitive_value \<Rightarrow> 'a option) \<Rightarrow> gguf_loader \<Rightarrow> string \<Rightarrow> bool" where
  "numeric_entry get g key = (case map_of (gl_metadata g) key of
      None \<Rightarrow> False
    | Some d \<Rightarrow> (case md_val d of Prim v _ \<Rightarrow> get v \<noteq> None | _ \<Rightarrow> True))"

lemma md_value_cases:
  assumes "get (PU8 0) = None"
  shows "if numeric_entry get g key then \<exists>x. md_value get d g key = Inr x
    else md_value get d g key = Inl BadVariantAccess"
  using assms by (auto simp: numeric_entry_def md_value_def get_metadata_def value_as_def
      metadata_empty_def split: option.splits mvalue.splits)

lemma char_of_48: "char_of (48 :: nat) = CHR ''0''"
  by code_simp

lemma md_string_missing: "map_of (gl_metadata g) key = None \<Longrightarrow> md_string ff g key = Inr ''0''"
  by (simp add: md_string_def get_metadata_def val_string_def metadata_empty_def nat_dec.simps
      char_of_48)

section \<open>Typed views of a file's entries\<close>

text \<open>The entries of a file say what the tokenizer information and the configuration say.\<close>

definition tokenizer_entries :: "(string \<Rightarrow> avalue option) \<Rightarrow> tokenizer_info_t \<Rightarrow> bool" where
  "tokenizer_entries e i \<longleftrightarrow>
     e ''tokenizer.ggml.model'' = Some (AStr (tk_model i))
   \<and> e ''tokenizer.ggml.pre'' = Some (AStr (tk_pre i))
   \<and> e ''tokenizer.ggml.tokens'' = Some (AArr DT_STRING (map AStr (tk_tokens i)))
   \<and> e ''tokenizer.ggml.merges'' = Some (AArr DT_STRING (map AStr (tk_merges i)))
   \<and> e ''tokenizer.ggml.token_type''
       = Some (AArr DT_INT32 (map (\<lambda>w. APrim (PI32 w)) (tk_token_type i)))
   \<and> e ''tokenizer.ggml.bos_token_id'' = Some (APrim (PU32 (bos_token_id i)))
   \<and> e ''tokenizer.ggml.eos_token_id'' = Some (APrim (PU32 (eos_token_id i)))
   \<and> e ''tokenizer.ggml.padding_token_id'' = Some (APrim (PU32 (padding_token_id i)))
   \<and> e ''tokenizer.ggml.add_bos_token'' = Some (APrim (PBool (add_bos_token i)))
   \<and> e ''tokenizer.chat_template'' = Some (AStr (template_str i))"

lemma tokenizer_info_loaded:
  assumes "\<forall>k. loaded_value g k = Inr (e k)" and "tokenizer_entries e i"
  shows "loader_tokenizer_info ff g = Inr i"
  using assms
  by (simp add: loader_tokenizer_info_def tokenizer_entries_def Let_def
      md_string_loaded md_value_loaded val_array_string_loaded val_array_i32_loaded)

definition config_entries :: "(string \<Rightarrow> avalue option) \<Rightarrow> u32 \<Rightarrow> model_config_t \<Rightarrow> bool" where
  "config_entries e emb c \<longleftrightarrow>
     e ''qwen2.attention.head_count'' = Some (APrim (PU32 (nheads c)))
   \<and> e ''qwen2.attention.head_count_kv'' = Some (APrim (PU32 (nkv c)))
   \<and> e ''qwen2.rope.freq_base'' = Some (APrim (PF32 (rope_freq_base c)))
   \<and> e ''qwen2.embedding_length'' = Some (APrim (PU32 emb))
   \<and> embedding_dim c = ucast emb
   \<and> e ''qwen2.block_count'' = Some (APrim (PU32 (n_blocks c)))
   \<and> e ''qwen2.attention.layer_norm_rms_epsilon'' = Some (APrim (PF32 (rms_eps c)))
   \<and> e ''qwen2.context_length'' = Some (APrim (PU32 (max_context_len c)))"

lemma model_config_loaded:
  assumes "\<forall>k. loaded_value g k = Inr (e k)" and "config_entries e emb c"
  shows "loader_model_config g = Inr c"
  using assms by (simp add: loader_model_config_def config_entries_def md_value_loaded)

section \<open>A crafted array\<close>

text \<open>
  32 bytes: an array of two arrays, the first of which holds one string whose length makes
  its \<open>int\<close> size \<open>-24\<close>, so that the second element starts where the outer array does.
\<close>

definition crafted_array :: string where
  "crafted_array = enc_u32 9 @ enc_u64 2 @ enc_u32 8 @ enc_u64 1 @ enc_u64 0xFFFFFFE0"

lemma crafted_reads:
  assumes "m = pre @ crafted_array @ post" and "p = int (length pre)"
  shows "rd_u32 m p = Inr 9" "rd_u64 m (p + 4) = Inr 2" "rd_u32 m (p + 12) = Inr 8"
    "rd_u64 m (p + 16) = Inr 1" "rd_u64 m (p + 24) = Inr 0xFFFFFFE0"
proof -
  note m = assms(1) [unfolded crafted_array_def]
  let ?A = "enc_u32 9" and ?B = "enc_u64 2" and ?C = "enc_u32 8" and ?D = "enc_u64 1"
  let ?E = "enc_u64 0xFFFFFFE0"
  show "rd_u32 m p = Inr 9"
    by (rule rd_enc(3) [of _ pre ?A "?B @ ?C @ ?D @ ?E @ post"]) (simp_all add: m assms(2))
  show "rd_u64 m (p + 4) = Inr 2"
    by (rule rd_enc(4) [of _ "pre @ ?A" ?B "?C @ ?D @ ?E @ post"]) (simp_all add: m assms(2))
  show "rd_u32 m (p + 12) = Inr 8"
    by (rule rd_enc(3) [of _ "pre @ ?A @ ?B" ?C "?D @ ?E @ post"]) (simp_all add: m assms(2))
  show "rd_u64 m (p + 16) = Inr 1"
    by (rule rd_enc(4) [of _ "pre @ ?A @ ?B @ ?C" ?D "?E @ post"]) (simp_all add: m assms(2))
  show "rd_u64 m (p + 24) = Inr 0xFFFFFFE0"
    by (rule rd_enc(4) [of _ "pre @ ?A @ ?B @ ?C @ ?D" ?E post]) (simp_all add: m assms(2))
qed

lemma dtype_of_tags: "dtype_of 8 = DT_STRING" "dtype_of 9 = DT_ARRAY"
  by (simp_all add: dtype_of_def)

lemma elements_2: "elements_from_ptr f m cur t 2 =
    rbind (value_from_ptr f m cur t) (\<lambda>a.
    rbind (value_from_ptr f m (cur + vsize a) t) (\<lambda>b. Inr [a, b]))"
  by (simp add: numeral_2_eq_2 rbind_assoc)

lemma crafted_inner:
  assumes "m = pre @ crafted_array @ post" and "p = int (length pre)"
  shows "\<exists>v. array_from_ptr (Suc f) m (p + 12) = Inr v \<and> vsize v = - 12"
proof -
  let ?s = "Str \<lparr>sv_ptr = p + 24, sv_len = 0xFFFFFFE0\<rparr>"
  have "array_from_ptr (Suc f) m (p + 12) = Inr (Arr DT_STRING 1 [?s])"
    using crafted_reads [OF assms]
    by (simp add: string_from_ptr_def dtype_of_tags add.commute)
  moreover have "vsize (Arr DT_STRING 1 [?s]) = - 12"
    by (simp add: sv_size_def wrap32_def)
  ultimately show ?thesis by blast
qed

lemma crafted_diverges:
  assumes "m = pre @ crafted_array @ post" and "p = int (length pre)"
  shows "array_from_ptr f m p = Inl OutOfFuel"
proof (induction f)
  case 0
  show ?case by simp
next
  case (Suc f)
  show ?case
  proof (cases f)
    case 0
    then show ?thesis
      using crafted_reads [OF assms] by (simp add: dtype_of_tags elements_2)
  next
    case (Suc g)
    obtain v where "array_from_ptr f m (p + 12) = Inr v" "vsize v = - 12"
      using crafted_inner [OF assms, of g] Suc by auto
    then show ?thesis
      using crafted_reads [OF assms] Suc.IH
      by (simp add: dtype_of_tags elements_2 add.commute)
  qed
qed

end
