(* ===== verification/GGUF_Properties.thy ===== *)
theory GGUF_Properties
  imports Loader_Facts
begin

text \<open>
  The properties of the GGUF reader: round trips of values and whole files, the alignment
  of the tensor data, lookups of keys a file lacks, and the inputs on which the reader
  goes wrong (a crafted array, a short array printed, a 32-bit alignment).
\<close>

section \<open>Round trips\<close>


text \<open>C23: Parsing the layout of a metadata value, wherever it lies in the mapped file, gives a
  value that denotes the original and reports exactly the number of bytes it occupies;
  the nesting bound needed is at most the length of the value.\<close>

theorem value_roundtrip:
  assumes "ok_value a" and "length (pre @ enc_value a @ post) < 2 ^ 31"
    and "length (enc_value a) \<le> fuel"
  shows "rbind (value_from_ptr fuel (pre @ enc_value a @ post) (int (length pre)) (avalue_dtype a))
      (\<lambda>v. rbind (abs_value (pre @ enc_value a @ post) v) (\<lambda>a'. Inr (a', vsize v)))
    = Inr (a, int (length (enc_value a)))"
proof -
  have "ok_value a \<and> depth_le fuel a \<and> avalue_dtype a = avalue_dtype a"
    using assms(1) depth_le_length [OF assms(3)] by simp
  then obtain v where "value_from_ptr fuel (pre @ enc_value a @ post) (int (length pre))
        (avalue_dtype a) = Inr v"
      "abs_value (pre @ enc_value a @ post) v = Inr a" "vsize v = int (length (enc_value a))"
    using val.parse_enc [of a fuel "avalue_dtype a" pre post] assms(2) by blast
  then show ?thesis by simp
qed

theorem value_roundtrip_witness:
  "let a = AArr DT_ARRAY [AArr DT_STRING [AStr ''ab'', AStr ''''],
        AArr DT_UINT16 [APrim (PU16 7)]];
      m = ''x'' @ enc_value a @ ''yz'' in
    rbind (value_from_ptr 100 m 1 DT_ARRAY)
      (\<lambda>v. rbind (abs_value m v) (\<lambda>a'. Inr (a', vsize v))) = Inr (a, 56)"
  using value_roundtrip [of "AArr DT_ARRAY [AArr DT_STRING [AStr ''ab'', AStr ''''],
      AArr DT_UINT16 [APrim (PU16 7)]]" "''x''" "''yz''" 100]
  by (simp add: known_dtype_def)

text \<open>C5: Loading a file laid out as GGUF prescribes succeeds: under every key the loader holds
  the first value the file has for it and nothing under other keys, likewise for tensor
  names, and the tensor data starts at the end of the index, aligned as the file asks.\<close>

theorem load_well_formed:
  assumes m: "m = enc_gguf f @ data" and small: "length m < 2 ^ 31"
    and ok: "\<forall>(k, a) \<in> set (gf_kvs f). ok_value a"
    and al: "file_alignment (gf_kvs f) = Inr al"
  shows "\<exists>g. load_gguf_file (Some base) m = Inr (Some g)
    \<and> (\<forall>k. loaded_value g k = Inr (map_of (gf_kvs f) k))
    \<and> (\<forall>n. loaded_tensor g n = Inr (map_of (map (\<lambda>t. (ts_name t, t)) (gf_tensors f)) n))
    \<and> gl_tensor_base g = align_up al (base + word_of_nat (length (enc_gguf f)))"
  by (rule load_wf [OF assms])

theorem load_well_formed_witness:
  "let f = \<lparr>gf_version = 3, gf_kvs = [(''k'', APrim (PU32 7)), (''k'', AStr ''late'')],
        gf_tensors = [\<lparr>ts_name = ''t'', ts_dims = [2, 3], ts_dtype = 0, ts_offset = 0\<rparr>]\<rparr> in
    \<exists>g. load_gguf_file (Some 4096) (enc_gguf f @ ''abcd'') = Inr (Some g)
    \<and> (\<forall>k. loaded_value g k = Inr (map_of (gf_kvs f) k))
    \<and> (\<forall>n. loaded_tensor g n = Inr (map_of (map (\<lambda>t. (ts_name t, t)) (gf_tensors f)) n))
    \<and> gl_tensor_base g = align_up 32 (4096 + word_of_nat (length (enc_gguf f)))"
  unfolding Let_def
  by (rule load_well_formed [OF refl])
    (simp_all add: enc_gguf_def enc_kv_def enc_tensor_def file_alignment_def)

section \<open>Alignment of the tensor data\<close>

text \<open>The aligned address is the least multiple of the alignment that is not below the
  cursor, as long as rounding up does not leave the 64-bit address space.\<close>

theorem align_address_least:
  assumes "align_address md p = Inr r" and "tensor_alignment md = Inr a"
    and "unat p + unat a \<le> 2 ^ 64"
  shows "unat a dvd unat r \<and> unat p \<le> unat r \<and> unat r < unat p + unat a"
proof -
  have a: "a \<noteq> 0"
    using assms(2) by (auto simp: tensor_alignment_def rbind_eq_Inr split: if_splits)
  have r: "r = p + (a - p mod a) mod a"
    using assms(1,2) by (simp add: align_address_def)
  show ?thesis
    using align_up_word [OF a assms(3)] unfolding r by simp
qed

theorem align_address_least_witness:
  "unat (32 :: u64) dvd unat (4128 :: u64) \<and> unat (4100 :: u64) \<le> unat (4128 :: u64)
    \<and> unat (4128 :: u64) < unat (4100 :: u64) + unat (32 :: u64)"
proof -
  have a: "tensor_alignment [] = Inr 32"
    by (simp add: tensor_alignment_def get_metadata_def value_as_def metadata_empty_def)
  have r: "align_address [] 4100 = Inr 4128"
    unfolding align_address_def a by (simp add: word_mod_def)
  show ?thesis
    using align_address_least [OF r a] by simp
qed

text \<open>C38: A file that stores \<open>general.alignment\<close> as the 32-bit integer the GGUF format
  prescribes cannot be loaded: the loader asks for an 8-bit integer and the variant throws.\<close>

theorem load_rejects_u32_alignment:
  assumes m: "m = enc_gguf f @ data" and small: "length m < 2 ^ 31"
    and ok: "\<forall>(k, a) \<in> set (gf_kvs f). ok_value a"
    and al: "map_of (gf_kvs f) ''general.alignment'' = Some (APrim (PU32 w))"
  shows "load_gguf_file (Some base) m = Inl BadVariantAccess"
proof (rule load_eq [OF m small ok, of base])
qed (simp add: file_alignment_def al)

theorem load_rejects_u32_alignment_witness:
  "load_gguf_file (Some 4096) (enc_gguf \<lparr>gf_version = 3,
      gf_kvs = [(''general.alignment'', APrim (PU32 64))], gf_tensors = []\<rparr> @ ''abcd'')
    = Inl BadVariantAccess"
  by (rule load_rejects_u32_alignment [OF refl, where w = 64])
    (simp_all add: enc_gguf_def enc_kv_def)

section \<open>Lookups\<close>

text \<open>C26: From a loader of a file whose entries spell out a tokenizer, the tokenizer
  information read back is that tokenizer: vocabulary, merge list, token types, special
  ids and chat template.\<close>

theorem tokenizer_info_of_file:
  assumes "m = enc_gguf f @ data" and "length m < 2 ^ 31"
    and "\<forall>(k, a) \<in> set (gf_kvs f). ok_value a"
    and "file_alignment (gf_kvs f) = Inr al"
    and "tokenizer_entries (map_of (gf_kvs f)) i"
  shows "rbind (load_gguf_file (Some base) m) (\<lambda>g. case g of
      Some g \<Rightarrow> loader_tokenizer_info ff g | None \<Rightarrow> Inl NullDeref) = Inr i"
proof -
  from load_wf [OF assms(1-4)] obtain g where
    "load_gguf_file (Some base) m = Inr (Some g)"
    "\<forall>k. loaded_value g k = Inr (map_of (gf_kvs f) k)" by blast
  with tokenizer_info_loaded [OF _ assms(5)] show ?thesis by simp
qed

theorem tokenizer_info_of_file_witness:
  "let i = \<lparr>tk_model = ''gpt2'', tk_pre = ''qwen2'', eos_token_id = 1, padding_token_id = 0,
        bos_token_id = 2, add_bos_token = False, tk_tokens = [''a'', ''b'', ''<e>''],
        tk_merges = [''a b''], tk_token_type = [1, 1, 3], template_str = ''t''\<rparr>;
      f = \<lparr>gf_version = 3, gf_kvs = [
        (''tokenizer.ggml.model'', AStr ''gpt2''), (''tokenizer.ggml.pre'', AStr ''qwen2''),
        (''tokenizer.ggml.tokens'', AArr DT_STRING (map AStr [''a'', ''b'', ''<e>''])),
        (''tokenizer.ggml.merges'', AArr DT_STRING [AStr ''a b'']),
        (''tokenizer.ggml.token_type'', AArr DT_INT32 (map (\<lambda>w. APrim (PI32 w)) [1, 1, 3])),
        (''tokenizer.ggml.bos_token_id'', APrim (PU32 2)),
        (''tokenizer.ggml.eos_token_id'', APrim (PU32 1)),
        (''tokenizer.ggml.padding_token_id'', APrim (PU32 0)),
        (''tokenizer.ggml.add_bos_token'', APrim (PBool False)),
        (''tokenizer.chat_template'', AStr ''t'')], gf_tensors = []\<rparr>
    in rbind (load_gguf_file (Some 4096) (enc_gguf f @ '''')) (\<lambda>g. case g of
        Some g \<Rightarrow> loader_tokenizer_info \<lparr>fmt_f32 = (\<lambda>_. ''''), fmt_f64 = (\<lambda>_. '''')\<rparr> g
      | None \<Rightarrow> Inl NullDeref) = Inr i"
  unfolding Let_def
  by (rule tokenizer_info_of_file [OF refl, where al = 32])
    (simp_all add: enc_gguf_def enc_kv_def enc_string_def file_alignment_def known_dtype_def
      tokenizer_entries_def)

text \<open>A configuration lookup that needs a number fails with \<open>std::bad_variant_access\<close>
  exactly when one of the keys is missing or holds a primitive of another type, while a
  missing text key reads as the text \<open>0\<close>.\<close>

theorem model_config_total:
  "(if list_all (numeric_entry get_u32 g) [''qwen2.attention.head_count'',
        ''qwen2.attention.head_count_kv'', ''qwen2.embedding_length'', ''qwen2.block_count'',
        ''qwen2.context_length'']
      \<and> list_all (numeric_entry get_f32 g) [''qwen2.rope.freq_base'',
        ''qwen2.attention.layer_norm_rms_epsilon'']
    then \<exists>c. loader_model_config g = Inr c
    else loader_model_config g = Inl BadVariantAccess)
  \<and> md_string ff (g\<lparr>gl_metadata := []\<rparr>) key = Inr ''0''"
proof -
  have u: "if numeric_entry get_u32 g k then \<exists>x. md_value get_u32 0 g k = Inr x
      else md_value get_u32 0 g k = Inl BadVariantAccess" for k
    by (rule md_value_cases) simp
  have f: "if numeric_entry get_f32 g k then \<exists>x. md_value get_f32 0 g k = Inr x
      else md_value get_f32 0 g k = Inl BadVariantAccess" for k
    by (rule md_value_cases) simp
  show ?thesis
    using u [of "''qwen2.attention.head_count''"] u [of "''qwen2.attention.head_count_kv''"]
      u [of "''qwen2.embedding_length''"] u [of "''qwen2.block_count''"]
      u [of "''qwen2.context_length''"] f [of "''qwen2.rope.freq_base''"]
      f [of "''qwen2.attention.layer_norm_rms_epsilon''"]
    by (auto simp: loader_model_config_def md_string_missing split: if_splits)
qed

section \<open>Inputs on which the reader goes wrong\<close>

text \<open>C36: On a crafted array of 32 bytes, wherever it lies in the file, the recursion of the
  parser is unbounded: no depth of recursion lets it return.\<close>

theorem crafted_array_never_returns:
  "value_from_ptr fuel (pre @ crafted_array @ post) (int (length pre)) DT_ARRAY = Inl OutOfFuel
    \<and> length crafted_array = 32"
  using crafted_diverges [OF refl refl] by (simp add: crafted_array_def)

text \<open>Converting an array to text reads past the end of its element vector exactly when
  it has fewer than 50 elements.\<close>

theorem array_to_string_bounds:
  assumes "\<forall>e \<in> set es. \<exists>s. value_to_string ff m e = Inr s"
  shows "value_to_string ff m (Arr t n es) = Inl IndexOutOfRange \<longleftrightarrow> length es < 50"
proof -
  have "join_elements ff m b k es res = Inl IndexOutOfRange \<longleftrightarrow> length es < k"
    and "length es < k \<or> (\<exists>s. join_elements ff m b k es res = Inr s)" for b k res
    using assms by (induction es arbitrary: b k res; case_tac k; force)+
  from this(1) [of True 50 "''[ ''"] this(2) [of 50 True "''[ ''"] show ?thesis
    by (auto simp: rbind_eq_Inl)
qed

theorem array_to_string_bounds_witness:
  "value_to_string \<lparr>fmt_f32 = (\<lambda>_. ''''), fmt_f64 = (\<lambda>_. '''')\<rparr> ''''
    (Arr DT_UINT8 1 [Prim (PU8 7) 1]) = Inl IndexOutOfRange"
  using array_to_string_bounds [of "[Prim (PU8 7) 1]"
      "\<lparr>fmt_f32 = (\<lambda>_. ''''), fmt_f64 = (\<lambda>_. '''')\<rparr>" "''''" DT_UINT8 1]
  by simp

end
