(* ===== verification/Byte_Unicode.thy ===== *)
theory Byte_Unicode
  imports Containers
begin

text \<open>
  The byte/Unicode tables of the tokenizer (\<open>build_byte_to_unicode_map_\<close> and
  \<open>unicode_to_chars_\<close> in \<open>src/tokenizer/tokenizer_impl.cpp\<close>) and the proof that the
  byte-level detour loses nothing. A \<open>char\<close> is a byte; strings are UTF-8 byte sequences.
\<close>

unbundle bit_operations_syntax

section \<open>The tables\<close>

definition code_point_to_utf8 :: "nat \<Rightarrow> string" where
  "code_point_to_utf8 cp =
     (if cp \<le> 0x7F then [char_of cp]
      else if cp \<le> 0x7FF then [char_of (0xC0 OR drop_bit 6 cp), char_of (0x80 OR (cp AND 0x3F))]
      else [])"

text \<open>The vector \<open>is_printable\<close> after its three loops.\<close>

definition is_printable :: "nat \<Rightarrow> bool" where
  "is_printable b \<longleftrightarrow> (33 \<le> b \<and> b \<le> 126) \<or> (0xA1 \<le> b \<and> b \<le> 0xAC) \<or> (0xAE \<le> b \<and> b \<le> 0xFF)"

record byte_maps =
  bm_b2u :: "(char \<times> string) list"
  bm_u2b :: "(string \<times> char) list"

definition record_byte :: "nat \<Rightarrow> string \<Rightarrow> byte_maps \<Rightarrow> byte_maps" where
  "record_byte b unicode mp =
     \<lparr>bm_b2u = um_assign (char_of b) unicode (bm_b2u mp),
      bm_u2b = um_assign unicode (char_of b) (bm_u2b mp)\<rparr>"

text \<open>The main loop, from byte \<open>b\<close> for \<open>n\<close> rounds; \<open>cp\<close> is \<open>shifted_code_point\<close>.\<close>

fun byte_loop :: "nat \<Rightarrow> nat \<Rightarrow> nat \<Rightarrow> byte_maps \<Rightarrow> byte_maps" where
  "byte_loop 0 b cp mp = mp"
| "byte_loop (Suc n) b cp mp =
     (if is_printable b then byte_loop n (b + 1) cp (record_byte b (code_point_to_utf8 b) mp)
      else byte_loop n (b + 1) (cp + 1) (record_byte b (code_point_to_utf8 cp) mp))"

definition build_byte_to_unicode_map :: byte_maps where
  "build_byte_to_unicode_map = byte_loop 256 0 256 \<lparr>bm_b2u = [], bm_u2b = []\<rparr>"

text \<open>\<open>byte_to_unicode_map_[c]\<close>: a missing byte would read as the empty string.\<close>

definition byte_to_unicode :: "byte_maps \<Rightarrow> char \<Rightarrow> string" where
  "byte_to_unicode mp c = fst (um_index [] c (bm_b2u mp))"

section \<open>Back to bytes\<close>

definition utf8_len :: "char \<Rightarrow> nat" where
  "utf8_len ch = (let c = (of_char ch :: nat) in
     if c AND 0xE0 = 0xC0 then 2 else if c AND 0xF0 = 0xE0 then 3
     else if c AND 0xF8 = 0xF0 then 4 else 1)"

lemma utf8_len_pos: "0 < utf8_len c"
  by (simp add: utf8_len_def Let_def)

function unicode_to_chars :: "byte_maps \<Rightarrow> string \<Rightarrow> string" where
  "unicode_to_chars mp token =
     (if token = [] then []
      else let len = utf8_len (hd token); piece = take len token in
        (case map_of (bm_u2b mp) piece of Some b \<Rightarrow> [b] | None \<Rightarrow> piece)
          @ unicode_to_chars mp (drop len token))"
  by pat_completeness auto
termination
  by (relation "measure (\<lambda>(mp, token). length token)") (auto simp: utf8_len_pos)

declare unicode_to_chars.simps [simp del]

section \<open>The tables as functions\<close>

text \<open>The code point a byte is shown as, and that different bytes get different ones.\<close>

definition byte_cp :: "nat \<Rightarrow> nat" where
  "byte_cp b = (if is_printable b then b else 256 + length (filter (\<lambda>x. \<not> is_printable x) [0..<b]))"

lemma shifted_mono:
  assumes "a < b" and "\<not> is_printable a"
  shows "length (filter (\<lambda>x. \<not> is_printable x) [0..<a])
    < length (filter (\<lambda>x. \<not> is_printable x) [0..<b])"
proof -
  have "[0..<b] = [0..<a] @ [a] @ [Suc a..<b]"
    using assms(1) upt_add_eq_append [of 0 a "b - a"] by (simp add: upt_conv_Cons)
  with assms(2) show ?thesis by simp
qed

lemma byte_cp_inj: "a < 256 \<Longrightarrow> b < 256 \<Longrightarrow> byte_cp a = byte_cp b \<Longrightarrow> a = b"
proof (rule ccontr)
  assume *: "a < 256" "b < 256" "byte_cp a = byte_cp b" "a \<noteq> b"
  then have np: "\<not> is_printable a" "\<not> is_printable b"
    by (auto simp: byte_cp_def split: if_splits)
  from * consider "a < b" | "b < a" by linarith
  then show False
    using np shifted_mono [of a b] shifted_mono [of b a] *(3) by cases (auto simp: byte_cp_def)
qed

lemma byte_cp_bound: "b < 256 \<Longrightarrow> byte_cp b < 512"
  using length_filter_le [of "\<lambda>x. \<not> is_printable x" "[0..<b]"] by (auto simp: byte_cp_def)

text \<open>The lead-byte tests of \<open>unicode_to_chars_\<close> as ranges of the byte.\<close>

lemma and_high: "n AND push_bit k (mask m) = push_bit k (take_bit m (drop_bit k n))" for n :: nat
  by (rule bit_eqI) (auto simp: bit_simps)

lemma and_E0: "n AND 0xE0 = (n div 32 mod 8) * 32" for n :: nat
  using and_high [of n 5 3] by (simp add: push_bit_eq_mult take_bit_eq_mod drop_bit_eq_div mask_eq_exp_minus_1)

lemma and_F0: "n AND 0xF0 = (n div 16 mod 16) * 16" for n :: nat
  using and_high [of n 4 4] by (simp add: push_bit_eq_mult take_bit_eq_mod drop_bit_eq_div mask_eq_exp_minus_1)

lemma and_F8: "n AND 0xF8 = (n div 8 mod 32) * 8" for n :: nat
  using and_high [of n 3 5] by (simp add: push_bit_eq_mult take_bit_eq_mod drop_bit_eq_div mask_eq_exp_minus_1)

lemma and_3F: "n AND 0x3F = n mod 64" for n :: nat
  using and_high [of n 0 6] by (simp add: take_bit_eq_mod mask_eq_exp_minus_1)

lemma or_disjoint:
  fixes x m :: nat
  assumes "x < 2 ^ k"
  shows "push_bit k m OR x = push_bit k m + x"
proof -
  have "take_bit k x = x" using assms by (simp add: take_bit_nat_eq_self)
  moreover have "push_bit k m AND take_bit k x = 0"
    by (rule bit_eqI) (auto simp: bit_simps)
  ultimately have "push_bit k m AND x = 0" by simp
  from disjunctive_add_eq_or [OF this] show ?thesis by simp
qed

lemma or_C0: "x < 32 \<Longrightarrow> 0xC0 OR x = 0xC0 + x" for x :: nat
  using or_disjoint [of x 5 6] by (simp add: push_bit_eq_mult)

lemma or_80: "x < 64 \<Longrightarrow> 0x80 OR x = 0x80 + x" for x :: nat
  using or_disjoint [of x 6 2] by (simp add: push_bit_eq_mult)

text \<open>Shown bytes as UTF-8: one byte below 128, two from there.\<close>

lemma utf8_two:
  assumes "128 \<le> cp" and "cp < 2048"
  shows "code_point_to_utf8 cp = [char_of (192 + cp div 64), char_of (128 + cp mod 64)]"
  using assms or_C0 [of "cp div 64"] or_80 [of "cp mod 64"]
  by (simp add: code_point_to_utf8_def and_3F drop_bit_eq_div)

lemma utf8_len_one:
  fixes n :: nat
  assumes "n < 192"
  shows "utf8_len (char_of n) = 1"
proof -
  have "n div 32 < 6" "n div 16 < 12" "n div 8 < 24"
    using assms by (simp_all add: div_less_iff_less_mult)
  then show ?thesis using assms by (simp add: utf8_len_def and_E0 and_F0 and_F8 Let_def)
qed

lemma utf8_len_two: "192 \<le> n \<Longrightarrow> n < 224 \<Longrightarrow> utf8_len (char_of n) = 2" for n :: nat
  by (simp add: utf8_len_def and_E0 Let_def)

lemma code_point_to_utf8_len:
  assumes "cp < 2048"
  shows "code_point_to_utf8 cp \<noteq> []"
    and "utf8_len (hd (code_point_to_utf8 cp)) = length (code_point_to_utf8 cp)"
proof -
  have "code_point_to_utf8 cp \<noteq> [] \<and>
      utf8_len (hd (code_point_to_utf8 cp)) = length (code_point_to_utf8 cp)"
  proof (cases "cp < 128")
    case True
    then show ?thesis by (simp add: code_point_to_utf8_def utf8_len_one)
  next
    case False
    then show ?thesis using assms utf8_len_two [of "192 + cp div 64"] by (simp add: utf8_two)
  qed
  then show "code_point_to_utf8 cp \<noteq> []"
    and "utf8_len (hd (code_point_to_utf8 cp)) = length (code_point_to_utf8 cp)" by auto
qed

lemma char_of_eq: "m < 256 \<Longrightarrow> n < 256 \<Longrightarrow> (char_of m :: char) = char_of n \<longleftrightarrow> m = n" for m n :: nat
  by (metis char_of_quasi_inj [of m n] mod_less)

lemma code_point_to_utf8_inj:
  assumes "a < 2048" and "b < 2048" and "code_point_to_utf8 a = code_point_to_utf8 b"
  shows "a = b"
proof (cases "a < 128"; cases "b < 128")
  assume "a < 128" "b < 128"
  with assms show ?thesis by (simp add: code_point_to_utf8_def char_of_eq)
next
  assume "\<not> a < 128" "\<not> b < 128"
  with assms have "192 + a div 64 = 192 + b div 64 \<and> 128 + a mod 64 = 128 + b mod 64"
    by (simp add: utf8_two char_of_eq)
  then have "a div 64 = b div 64" "a mod 64 = b mod 64" by auto
  then show ?thesis by (metis div_mult_mod_eq)
qed (use assms in \<open>auto simp: utf8_two code_point_to_utf8_def\<close>)

section \<open>What the construction builds\<close>

lemma byte_loop_fold:
  assumes "cp = 256 + length (filter (\<lambda>x. \<not> is_printable x) [0..<b])"
  shows "byte_loop n b cp mp
    = fold (\<lambda>k. record_byte k (code_point_to_utf8 (byte_cp k))) [b..<b + n] mp"
  using assms
proof (induction n arbitrary: b cp mp)
  case (Suc n)
  let ?u = "\<lambda>b. length (filter (\<lambda>x. \<not> is_printable x) [0..<b])"
  have upt: "[b..<b + Suc n] = b # [Suc b..<Suc b + n]" by (simp add: upt_conv_Cons del: upt_Suc)
  have count: "?u (Suc b) = (if is_printable b then ?u b else Suc (?u b))" by simp
  show ?case
  proof (cases "is_printable b")
    case True
    with Suc.prems count have "cp = 256 + ?u (Suc b)" by (simp del: upt_Suc)
    from Suc.IH [OF this] True show ?thesis
      unfolding upt by (simp add: byte_cp_def [of b] del: upt_Suc)
  next
    case False
    with Suc.prems count have "cp + 1 = 256 + ?u (Suc b)" by (simp del: upt_Suc)
    from Suc.IH [OF this] False Suc.prems show ?thesis
      unfolding upt by (simp add: byte_cp_def [of b] del: upt_Suc)
  qed
qed simp

lemma byte_maps_fold:
  "bm_b2u (fold (\<lambda>k. record_byte k (f k)) ks mp)
    = fold (\<lambda>(k, v). um_assign k v) (map (\<lambda>k. (char_of k, f k)) ks) (bm_b2u mp)"
  "bm_u2b (fold (\<lambda>k. record_byte k (f k)) ks mp)
    = fold (\<lambda>(k, v). um_assign k v) (map (\<lambda>k. (f k, char_of k)) ks) (bm_u2b mp)"
  by (induction ks arbitrary: mp) (auto simp: record_byte_def)

abbreviation shown_as :: "char \<Rightarrow> string" where
  "shown_as c \<equiv> code_point_to_utf8 (byte_cp (of_char c))"

lemma b2u_built: "map_of (bm_b2u build_byte_to_unicode_map) c = Some (shown_as c)"
proof -
  let ?kvs = "map (\<lambda>k. (char_of k, code_point_to_utf8 (byte_cp k))) [0..<256]"
  have "map_of (rev ?kvs) c = Some (shown_as c)"
  proof (rule map_of_is_SomeI)
    show "distinct (map fst (rev ?kvs))"
      by (auto simp: distinct_map comp_def rev_map [symmetric] inj_on_def char_of_eq
          simp del: upt_rec_numeral)
    have "(of_char c :: nat) \<in> {0..<256}" by (simp add: nat_of_char_less_256)
    then show "(c, shown_as c) \<in> set (rev ?kvs)" by (force simp: image_iff simp del: upt_rec_numeral)
  qed
  then show ?thesis
    by (simp add: build_byte_to_unicode_map_def byte_loop_fold byte_maps_fold um.assign_all_last
        del: upt_Suc upt_rec_numeral)
qed

lemma shown_as_inj: "inj_on (\<lambda>k. code_point_to_utf8 (byte_cp k)) {0..<256}"
proof (rule inj_onI)
  fix a b
  assume *: "a \<in> {0..<256}" "b \<in> {0..<256}"
    "code_point_to_utf8 (byte_cp a) = code_point_to_utf8 (byte_cp b)"
  then have "byte_cp a = byte_cp b"
    using byte_cp_bound [of a] byte_cp_bound [of b] by (intro code_point_to_utf8_inj) auto
  with * byte_cp_inj show "a = b" by simp
qed

lemma u2b_built:
  "map_of (bm_u2b build_byte_to_unicode_map) s = Some c \<longleftrightarrow> s = shown_as c"
proof -
  let ?kvs = "map (\<lambda>k. (code_point_to_utf8 (byte_cp k), char_of k)) [0..<256]"
  have m: "map_of (bm_u2b build_byte_to_unicode_map) s = map_of (rev ?kvs) s"
    by (simp add: build_byte_to_unicode_map_def byte_loop_fold byte_maps_fold um.assign_all_last
        option.case_eq_if del: upt_Suc upt_rec_numeral)
  have "distinct (map fst (rev ?kvs))"
    using shown_as_inj
    by (simp add: distinct_map comp_def rev_map [symmetric] del: upt_rec_numeral)
  then have "map_of (rev ?kvs) s = Some c \<longleftrightarrow> (s, c) \<in> set (rev ?kvs)"
    by (rule map_of_eq_Some_iff)
  also have "\<dots> \<longleftrightarrow> (\<exists>k \<in> {0..<256}. s = code_point_to_utf8 (byte_cp k) \<and> c = char_of k)"
    by (auto simp del: upt_rec_numeral)
  also have "\<dots> \<longleftrightarrow> s = shown_as c"
    using nat_of_char_less_256 [of c] by (auto intro!: bexI [of _ "of_char c"])
  finally show ?thesis using m by simp
qed

lemma byte_to_unicode_built [simp]: "byte_to_unicode build_byte_to_unicode_map c = shown_as c"
  by (simp add: byte_to_unicode_def um_index_value b2u_built)

lemma shown_as_bound: "byte_cp (of_char c) < 2048"
  using byte_cp_bound [of "of_char c"] nat_of_char_less_256 [of c] by simp

text \<open>Reading the shown form of a byte sequence back gives the bytes, however it was cut.\<close>

lemma unicode_to_chars_Cons:
  "unicode_to_chars build_byte_to_unicode_map (shown_as c @ rest)
    = c # unicode_to_chars build_byte_to_unicode_map rest"
proof -
  note len = code_point_to_utf8_len [OF shown_as_bound [of c]]
  then have "utf8_len (hd (shown_as c @ rest)) = length (shown_as c)" by simp
  with len(1) show ?thesis
    using u2b_built [of "shown_as c" c]
    by (subst unicode_to_chars.simps) (simp add: Let_def)
qed

lemma unicode_to_chars_built:
  "unicode_to_chars build_byte_to_unicode_map (concat (map shown_as bs)) = bs"
  by (induction bs) (simp_all only: unicode_to_chars_Cons list.map concat.simps,
      simp add: unicode_to_chars.simps)

lemma unicode_to_chars_append:
  "unicode_to_chars build_byte_to_unicode_map (concat (map shown_as bs) @ rest)
    = bs @ unicode_to_chars build_byte_to_unicode_map rest"
  by (induction bs) (simp_all add: unicode_to_chars_Cons)

end
