(* ===== verification/Bpe.thy ===== *)
theory Bpe
  imports Byte_Unicode
begin

text \<open>
  Byte-pair merging: \<open>split_and_merge_\<close> and \<open>build_merges_map_\<close> in
  \<open>src/tokenizer/tokenizer_impl.cpp\<close>, and the greedy merge relation they implement.
\<close>

type_synonym merges_map = "(string \<times> nat) list"

section \<open>The code\<close>

fun merges_loop :: "string list \<Rightarrow> nat \<Rightarrow> merges_map \<Rightarrow> merges_map" where
  "merges_loop [] i m = m"
| "merges_loop (x # xs) i m = merges_loop xs (i + 1) (um_assign x i m)"

definition build_merges_map :: "string list \<Rightarrow> merges_map" where
  "build_merges_map merges = merges_loop merges 0 []"

text \<open>\<open>merges_map_.find(tokens[i] + " " + tokens[i + 1])\<close>\<close>

definition pair_rank :: "merges_map \<Rightarrow> string \<Rightarrow> string \<Rightarrow> nat option" where
  "pair_rank m a b = map_of m (a @ '' '' @ b)"

text \<open>
  The scan for mergeable neighbours. \<open>tokens.size() - 1\<close> is unsigned: for an empty vector the
  bound wraps around and the first access is out of range.
\<close>

definition rank_pairs :: "merges_map \<Rightarrow> string list \<Rightarrow> (nat \<times> nat) list res" where
  "rank_pairs m tokens =
     (if tokens = [] then Inl IndexOutOfRange
      else Inr (List.map_filter
        (\<lambda>i. map_option (Pair i) (pair_rank m (tokens ! i) (tokens ! (i + 1))))
        [0..<length tokens - 1]))"

text \<open>\<open>std::min_element\<close> on the ranks: the first of the smallest.\<close>

fun min_rank :: "nat \<times> nat \<Rightarrow> (nat \<times> nat) list \<Rightarrow> nat \<times> nat" where
  "min_rank best [] = best"
| "min_rank best (p # ps) = min_rank (if snd p < snd best then p else best) ps"

definition merge_at :: "nat \<Rightarrow> string list \<Rightarrow> string list" where
  "merge_at i tokens =
     (let ts = tokens[i := tokens ! i @ tokens ! (i + 1)]
      in take (i + 1) ts @ drop (i + 2) ts)"

lemma min_rank_in: "min_rank p ps \<in> set (p # ps)"
  by (induction ps arbitrary: p) (auto split: if_splits)

lemma rank_pairs_index:
  "rank_pairs m ts = Inr ps \<Longrightarrow> (i, r) \<in> set ps \<longleftrightarrow>
    i + 1 < length ts \<and> pair_rank m (ts ! i) (ts ! (i + 1)) = Some r"
  by (auto simp: rank_pairs_def List.map_filter_def image_iff split: if_splits) force+

lemma length_merge_at: "i + 1 < length ts \<Longrightarrow> length (merge_at i ts) = length ts - 1"
  by (simp add: merge_at_def Let_def)

function merge_loop :: "merges_map \<Rightarrow> string list \<Rightarrow> string list res" where
  "merge_loop m tokens =
     rbind (rank_pairs m tokens) (\<lambda>pairs.
     case pairs of [] \<Rightarrow> Inr tokens
     | p # ps \<Rightarrow> merge_loop m (merge_at (fst (min_rank p ps)) tokens))"
  by pat_completeness auto
termination
proof (relation "measure (\<lambda>(m, tokens). length tokens)")
  fix m tokens pairs p ps
  assume "rank_pairs m tokens = Inr pairs" and "pairs = p # ps"
  with min_rank_in [of p ps] rank_pairs_index [of m tokens pairs] prod.collapse [of "min_rank p ps"]
  have "fst (min_rank p ps) + 1 < length tokens" by metis
  then show "((m, merge_at (fst (min_rank p ps)) tokens), m, tokens)
      \<in> measure (\<lambda>(m, tokens). length tokens)"
    by (simp add: length_merge_at)
qed simp

declare merge_loop.simps [simp del]

definition split_and_merge :: "merges_map \<Rightarrow> byte_maps \<Rightarrow> string \<Rightarrow> string list res" where
  "split_and_merge m mp chunk = merge_loop m (map (byte_to_unicode mp) chunk)"

section \<open>The greedy specification\<close>

text \<open>
  One step merges the neighbours of least rank, the leftmost of them when several pairs
  have that rank. \<open>neighbours\<close> are the adjacent pairs of a token sequence.
\<close>

abbreviation neighbours :: "string list \<Rightarrow> (string \<times> string) set" where
  "neighbours ts \<equiv> set (zip ts (tl ts))"

inductive bpe_step :: "merges_map \<Rightarrow> string list \<Rightarrow> string list \<Rightarrow> bool" for m where
  bpe_step:
    "pair_rank m a b = Some r \<Longrightarrow>
     \<forall>(x, y) \<in> neighbours (pre @ [a]). \<forall>k. pair_rank m x y = Some k \<longrightarrow> r < k \<Longrightarrow>
     \<forall>(x, y) \<in> neighbours (b # post). \<forall>k. pair_rank m x y = Some k \<longrightarrow> r \<le> k \<Longrightarrow>
     bpe_step m (pre @ a # b # post) (pre @ (a @ b) # post)"

definition mergeable :: "merges_map \<Rightarrow> string list \<Rightarrow> bool" where
  "mergeable m ts \<longleftrightarrow> (\<exists>(x, y) \<in> neighbours ts. pair_rank m x y \<noteq> None)"

lemma neighbours_nth: "(x, y) \<in> neighbours ts \<longleftrightarrow> (\<exists>i. i + 1 < length ts \<and> ts ! i = x \<and> ts ! (i + 1) = y)"
  by (auto simp: in_set_zip nth_tl) force+

lemma merge_at_split: "merge_at (length pre) (pre @ a # b # post) = pre @ (a @ b) # post"
  by (simp add: merge_at_def Let_def nth_append list_update_append)

text \<open>The pair \<open>min_element\<close> picks: no smaller rank anywhere, no equal one before.\<close>

lemma min_rank_least: "q \<in> set (p # ps) \<Longrightarrow> snd (min_rank p ps) \<le> snd q"
proof (induction ps arbitrary: p q)
  case (Cons p' ps)
  let ?b = "if snd p' < snd p then p' else p"
  have "snd (min_rank ?b ps) \<le> snd ?b" using Cons.IH [of ?b ?b] by simp
  moreover have "snd ?b \<le> snd p" "snd ?b \<le> snd p'" by auto
  ultimately show ?case using Cons.IH [of q ?b] Cons.prems by auto
qed simp

lemma min_rank_first:
  assumes "sorted_wrt (\<lambda>p q. fst p < fst q) (p # ps)" and "q \<in> set (p # ps)"
    and "fst q < fst (min_rank p ps)"
  shows "snd (min_rank p ps) < snd q"
  using assms
proof (induction ps arbitrary: p q)
  case (Cons p' ps)
  show ?case
  proof (cases "snd p' < snd p")
    case True
    with Cons.IH [of p' q] Cons.prems min_rank_least [of p' p' ps] show ?thesis by auto
  next
    case False
    show ?thesis
    proof (cases "q = p'")
      case q: True
      from min_rank_least [of p p ps] False q have le: "snd (min_rank p ps) \<le> snd q" by simp
      show ?thesis
      proof (cases "min_rank p ps = p")
        case True
        with Cons.prems q False show ?thesis by auto
      next
        case ne: False
        with Cons.IH [of p p] Cons.prems min_rank_in [of p ps]
        have "snd (min_rank p ps) < snd p" by fastforce
        with False q show ?thesis by simp
      qed
    qed (use False Cons in auto)
  qed
qed simp

lemma rank_pairs_sorted:
  assumes "rank_pairs m ts = Inr ps"
  shows "sorted_wrt (\<lambda>p q. fst p < fst q) ps"
proof -
  have "sorted_wrt (\<lambda>p q. fst p < fst q) (List.map_filter (\<lambda>i. map_option (Pair i) (f i)) xs)"
    if "sorted_wrt (<) xs" for f :: "nat \<Rightarrow> nat option" and xs
    using that by (induction xs) (auto simp: List.map_filter_def)
  with assms show ?thesis by (auto simp: rank_pairs_def split: if_splits)
qed

lemma split_two:
  "i + 1 < length ts \<Longrightarrow> ts = take i ts @ ts ! i # ts ! (i + 1) # drop (i + 2) ts"
  by (simp add: Cons_nth_drop_Suc id_take_nth_drop)

lemma merge_step:
  assumes "rank_pairs m ts = Inr (p # ps)"
  shows "bpe_step m ts (merge_at (fst (min_rank p ps)) ts)"
proof -
  obtain i r where ir: "min_rank p ps = (i, r)" by fastforce
  note at = rank_pairs_index [OF assms]
  from min_rank_in [of p ps] ir have "(i, r) \<in> set (p # ps)" by simp
  with at have i: "i + 1 < length ts" and r: "pair_rank m (ts ! i) (ts ! (i + 1)) = Some r" by auto
  let ?pre = "take i ts" and ?post = "drop (i + 2) ts"
  have least: "r \<le> k" if "j + 1 < length ts" "pair_rank m (ts ! j) (ts ! (j + 1)) = Some k" for j k
    using min_rank_least [of "(j, k)" p ps] at that ir by simp
  have first: "r < k" if "j < i" "pair_rank m (ts ! j) (ts ! (j + 1)) = Some k" for j k
    using min_rank_first [OF rank_pairs_sorted [OF assms], of "(j, k)"] at that i ir by simp
  have "bpe_step m (?pre @ ts ! i # ts ! (i + 1) # ?post) (?pre @ (ts ! i @ ts ! (i + 1)) # ?post)"
  proof (rule bpe_step [OF r])
    show "\<forall>(x, y) \<in> neighbours (?pre @ [ts ! i]). \<forall>k. pair_rank m x y = Some k \<longrightarrow> r < k"
    proof (clarify)
      fix x y k
      assume xy: "(x, y) \<in> neighbours (?pre @ [ts ! i])" "pair_rank m x y = Some k"
      have "?pre @ [ts ! i] = take (i + 1) ts" using i by (simp add: take_Suc_conv_app_nth)
      with xy(1) obtain j where "j + 1 < length (take (i + 1) ts)"
          "take (i + 1) ts ! j = x" "take (i + 1) ts ! (j + 1) = y"
        by (auto simp: neighbours_nth)
      with xy(2) first [of j k] i show "r < k" by simp
    qed
    show "\<forall>(x, y) \<in> neighbours (ts ! (i + 1) # ?post). \<forall>k. pair_rank m x y = Some k \<longrightarrow> r \<le> k"
    proof (clarify)
      fix x y k
      assume xy: "(x, y) \<in> neighbours (ts ! (i + 1) # ?post)" "pair_rank m x y = Some k"
      have "ts ! (i + 1) # ?post = drop (i + 1) ts" using i by (simp add: Cons_nth_drop_Suc)
      then have "(x, y) \<in> neighbours (drop (i + 1) ts)" using xy(1) by simp
      then obtain j where "j + 1 < length (drop (i + 1) ts)"
          "drop (i + 1) ts ! j = x" "drop (i + 1) ts ! (j + 1) = y"
        unfolding neighbours_nth by blast
      with xy(2) least [of "i + 1 + j" k] show "r \<le> k" by simp
    qed
  qed
  moreover have "merge_at i ts = ?pre @ (ts ! i @ ts ! (i + 1)) # ?post"
    using merge_at_split [of ?pre "ts ! i" "ts ! (i + 1)" ?post] split_two [OF i] i by simp
  ultimately show ?thesis using split_two [OF i] ir by simp
qed

text \<open>The specification leaves no choice, so its normal form is unique.\<close>

lemma bpe_step_deterministic:
  assumes "bpe_step m ts us" and "bpe_step m ts vs"
  shows "us = vs"
proof -
  have no: False
    if "pre @ a # b # post = pre' @ a' # b' # post'" "length pre < length pre'"
      "pair_rank m a b = Some r" "pair_rank m a' b' = Some r'"
      "\<forall>(x, y) \<in> neighbours (pre' @ [a']). \<forall>k. pair_rank m x y = Some k \<longrightarrow> r' < k"
      "\<forall>(x, y) \<in> neighbours (b # post). \<forall>k. pair_rank m x y = Some k \<longrightarrow> r \<le> k"
    for pre a b post pre' a' b' post' r r'
  proof -
    from that(1,2) obtain mid where mid: "pre' = pre @ a # mid"
      by (auto simp: append_eq_append_conv2 Cons_eq_append_conv)
    with that(1) have rest: "b # post = mid @ a' # b' # post'" by simp
    then have "(a, b) \<in> neighbours (pre' @ [a'])" unfolding neighbours_nth mid
      by (intro exI [of _ "length pre"]) (cases mid; simp add: nth_append)
    moreover have "(a', b') \<in> neighbours (b # post)" unfolding neighbours_nth rest
      by (intro exI [of _ "length mid"]) (simp add: nth_append)
    ultimately show False using that(3-6) by fastforce
  qed
  from assms(1) obtain a b r pre post where u: "ts = pre @ a # b # post" "us = pre @ (a @ b) # post"
    "pair_rank m a b = Some r"
    "\<forall>(x, y) \<in> neighbours (pre @ [a]). \<forall>k. pair_rank m x y = Some k \<longrightarrow> r < k"
    "\<forall>(x, y) \<in> neighbours (b # post). \<forall>k. pair_rank m x y = Some k \<longrightarrow> r \<le> k"
    by (auto elim: bpe_step.cases)
  from assms(2) obtain a' b' r' pre' post' where v: "ts = pre' @ a' # b' # post'"
    "vs = pre' @ (a' @ b') # post'" "pair_rank m a' b' = Some r'"
    "\<forall>(x, y) \<in> neighbours (pre' @ [a']). \<forall>k. pair_rank m x y = Some k \<longrightarrow> r' < k"
    "\<forall>(x, y) \<in> neighbours (b' # post'). \<forall>k. pair_rank m x y = Some k \<longrightarrow> r' \<le> k"
    by (auto elim: bpe_step.cases)
  from u(1) v(1) have eq: "pre @ a # b # post = pre' @ a' # b' # post'" by simp
  have "length pre = length pre'"
    using no [OF eq _ u(3) v(3,4) u(5)] no [OF eq [symmetric] _ v(3) u(3,4) v(5)]
    by (metis linorder_neqE_nat)
  with eq u(2) v(2) show ?thesis by simp
qed

lemma bpe_step_shorter: "bpe_step m ts us \<Longrightarrow> length us < length ts"
  by (erule bpe_step.cases) simp

lemma rank_pairs_empty: "ts \<noteq> [] \<Longrightarrow> rank_pairs m ts = Inr [] \<longleftrightarrow> \<not> mergeable m ts"
proof -
  assume "ts \<noteq> []"
  then obtain ps where ps: "rank_pairs m ts = Inr ps" by (simp add: rank_pairs_def)
  have "ps \<noteq> [] \<longleftrightarrow> mergeable m ts"
  proof
    assume "ps \<noteq> []"
    then obtain i r where "(i, r) \<in> set ps" by (cases ps) auto
    with rank_pairs_index [OF ps] show "mergeable m ts"
      unfolding mergeable_def by (force simp: neighbours_nth)
  next
    assume "mergeable m ts"
    then obtain i r where "i + 1 < length ts" "pair_rank m (ts ! i) (ts ! (i + 1)) = Some r"
      by (auto simp: mergeable_def neighbours_nth)
    with rank_pairs_index [OF ps] show "ps \<noteq> []" by fastforce
  qed
  with ps show ?thesis by auto
qed

lemma bpe_step_mergeable: "bpe_step m ts us \<Longrightarrow> mergeable m ts"
proof (erule bpe_step.cases)
  fix a b r pre post
  assume ts: "ts = pre @ a # b # post" and r: "pair_rank m a b = Some r"
  have "(a, b) \<in> neighbours ts"
    unfolding neighbours_nth ts by (intro exI [of _ "length pre"]) (simp add: nth_append)
  with r show ?thesis unfolding mergeable_def by blast
qed

lemma bpe_step_keeps: "bpe_step m ts us \<Longrightarrow> concat us = concat ts \<and> us \<noteq> [] \<and> ([] \<notin> set ts \<longrightarrow> [] \<notin> set us)"
  by (erule bpe_step.cases) auto

text \<open>The loop computes the normal form: it reaches it, and it stops nowhere else.\<close>

lemma merge_loop_normal_form:
  "ts \<noteq> [] \<Longrightarrow> \<exists>us. merge_loop m ts = Inr us \<and> (bpe_step m)\<^sup>*\<^sup>* ts us \<and> \<not> mergeable m us"
proof (induction "length ts" arbitrary: ts rule: less_induct)
  case less
  then obtain ps where ps: "rank_pairs m ts = Inr ps" by (simp add: rank_pairs_def)
  show ?case
  proof (cases ps)
    case Nil
    with ps have "merge_loop m ts = Inr ts" by (simp add: merge_loop.simps [of m ts])
    moreover have "\<not> mergeable m ts" using ps Nil rank_pairs_empty [OF less.prems, of m] by simp
    ultimately show ?thesis by blast
  next
    case (Cons p ps')
    let ?us = "merge_at (fst (min_rank p ps')) ts"
    from ps Cons have step: "bpe_step m ts ?us" by (simp add: merge_step)
    then have "length ?us < length ts" "?us \<noteq> []"
      by (rule bpe_step_shorter, blast dest: bpe_step_keeps)
    from less.hyps [OF this] obtain vs where vs:
      "merge_loop m ?us = Inr vs" "(bpe_step m)\<^sup>*\<^sup>* ?us vs" "\<not> mergeable m vs" by blast
    have "merge_loop m ts = Inr vs"
      using ps Cons vs(1) by (simp add: merge_loop.simps [of m ts])
    with vs step show ?thesis by (metis converse_rtranclp_into_rtranclp)
  qed
qed

lemma normal_form_unique:
  assumes "(bpe_step m)\<^sup>*\<^sup>* ts us" "\<not> mergeable m us" "(bpe_step m)\<^sup>*\<^sup>* ts vs" "\<not> mergeable m vs"
  shows "us = vs"
  using assms
proof (induction rule: converse_rtranclp_induct)
  case base
  then show ?case by (metis bpe_step_mergeable converse_rtranclpE)
next
  case (step x y)
  then show ?case by (metis bpe_step_deterministic bpe_step_mergeable converse_rtranclpE)
qed

lemma merge_loop_iff:
  "ts \<noteq> [] \<Longrightarrow> merge_loop m ts = Inr us \<longleftrightarrow> (bpe_step m)\<^sup>*\<^sup>* ts us \<and> \<not> mergeable m us"
  using merge_loop_normal_form [of ts m] normal_form_unique [of m ts] by force

lemma bpe_steps_keep:
  "(bpe_step m)\<^sup>*\<^sup>* ts us \<Longrightarrow> concat us = concat ts \<and> ([] \<notin> set ts \<longrightarrow> [] \<notin> set us)"
  by (induction rule: rtranclp_induct) (auto dest: bpe_step_keeps)

lemma merge_loop_Nil [simp]: "merge_loop m [] = Inl IndexOutOfRange"
  by (subst merge_loop.simps) (simp add: rank_pairs_def)

text \<open>Every token of a normal form is one shown byte or the result of a merge.\<close>

definition bpe_token :: "merges_map \<Rightarrow> string set \<Rightarrow> string \<Rightarrow> bool" where
  "bpe_token m base t \<longleftrightarrow> t \<in> base \<or> (\<exists>a b. pair_rank m a b \<noteq> None \<and> t = a @ b)"

lemma bpe_step_tokens: "bpe_step m us vs \<Longrightarrow> t \<in> set vs \<Longrightarrow> t \<in> set us \<or> bpe_token m base t"
proof (erule bpe_step.cases)
  fix a b r pre post
  assume "us = pre @ a # b # post" "vs = pre @ (a @ b) # post" "pair_rank m a b = Some r"
    and "t \<in> set vs"
  then show "t \<in> set us \<or> bpe_token m base t"
    unfolding bpe_token_def by (cases "t = a @ b") (metis option.distinct(1), auto)
qed

lemma bpe_steps_tokens:
  "(bpe_step m)\<^sup>*\<^sup>* ts us \<Longrightarrow> set ts \<subseteq> base \<Longrightarrow> t \<in> set us \<Longrightarrow> bpe_token m base t"
proof (induction arbitrary: t rule: rtranclp_induct)
  case base
  then show ?case by (auto simp: bpe_token_def)
next
  case (step us vs)
  then show ?case using bpe_step_tokens [of m us vs t base] by blast
qed

end
