(* ===== verification/Pretokenize.thy ===== *)
theory Pretokenize
  imports Metadata
begin

text \<open>
  Splitting text into chunks with a regular expression: \<open>get_pretokenizer_regex\<close>,
  \<open>init_pretokenize_\<close> and \<open>pretokenize\<close> in \<open>src/tokenizer/tokenizer_impl.cpp\<close>. PCRE2 is a
  parameter: \<open>pc_compile\<close> gives the compilation error of a pattern, if any, and \<open>pc_match\<close>
  the result of \<open>pcre2_jit_match\<close> for a pattern, a subject and a start offset.
\<close>

section \<open>PCRE2\<close>

datatype pcre_result = NoMatch | MatchError int | Match nat nat

record pcre =
  pc_compile :: "string \<Rightarrow> (nat \<times> string) option"
  pc_match :: "string \<Rightarrow> string \<Rightarrow> nat \<Rightarrow> pcre_result"

text \<open>
  The two patterns, with \<open>~\<close> for the backslash (which HOL strings cannot contain literally).
\<close>

definition regex :: "string \<Rightarrow> string" where
  "regex s = map (\<lambda>c. if c = CHR ''~'' then CHR 0x5C else c) s"

definition PRE_TOKENIZER_QWEN2_REGEX :: string where
  "PRE_TOKENIZER_QWEN2_REGEX = regex
     (''(?i:'s|'t|'re|'ve|'m|'ll|'d)|[^~r~n~p{L}~p{N}]?~p{L}+|~p{N}{1,3}| ''
     @ ''?[^~s~p{L}~p{N}]+[~r~n]*|~s*[~r~n]+|~s+(?!~S)|~s+'')"

definition PRE_TOKENIZER_LLAMA_REGEX :: string where
  "PRE_TOKENIZER_LLAMA_REGEX = regex
     (''(?i:'s|'t|'re|'ve|'m|'ll|'d)|[^~r~n~p{L}~p{N}]?~p{L}+|~p{N}{1,3}|[^''
     @ ''~s~p{L}~p{N}]+[~r~n]*|~s*[~r~n]+|~s+(?!~S)|~s+'')"

definition get_pretokenizer_regex :: "string \<Rightarrow> string" where
  "get_pretokenizer_regex model =
     (if model = ''qwen2'' then PRE_TOKENIZER_QWEN2_REGEX
      else if model = ''llama-bpe'' then PRE_TOKENIZER_LLAMA_REGEX
      else [])"

text \<open>
  \<open>init_pretokenize_\<close>: the pattern to match with, or the exception for one that PCRE2
  rejects (the message is its offset and text).
\<close>

definition init_pretokenize :: "pcre \<Rightarrow> string \<Rightarrow> string res" where
  "init_pretokenize P pre =
     (let re = get_pretokenizer_regex pre in
      case pc_compile P re of
        None \<Rightarrow> Inr re
      | Some (err_offset, msg) \<Rightarrow>
          Inl (RuntimeError (''PCRE2 Compilation Failed at offset '' @ nat_dec err_offset
            @ '': '' @ msg)))"

section \<open>The loop\<close>

text \<open>\<open>text.substr(pos, n)\<close> throws when \<open>pos\<close> is past the end and stops at the end otherwise.\<close>

definition substr :: "string \<Rightarrow> nat \<Rightarrow> nat \<Rightarrow> string res" where
  "substr text pos n =
     (if length text < pos then Inl (RuntimeError ''basic_string::substr'')
      else Inr (take n (drop pos text)))"

definition match_error :: "int \<Rightarrow> fault" where
  "match_error rc = RuntimeError (''PCRE2 matching error code: '' @ int_dec rc)"

partial_function (option) pretokenize_loop ::
  "pcre \<Rightarrow> string \<Rightarrow> string \<Rightarrow> nat \<Rightarrow> string list \<Rightarrow> string list run" where
  "pretokenize_loop P re text start_offset chunks =
     (if length text \<le> start_offset then Some (Inr chunks)
      else case pc_match P re text start_offset of
        NoMatch \<Rightarrow> run_bind (Some (substr text start_offset 1)) (\<lambda>c.
          pretokenize_loop P re text (start_offset + 1) (chunks @ [c]))
      | MatchError rc \<Rightarrow> Some (Inl (match_error rc))
      | Match match_start match_end \<Rightarrow>
          run_bind (Some (substr text match_start
              (unat (of_nat match_end - of_nat match_start :: u64)))) (\<lambda>c.
          pretokenize_loop P re text match_end (chunks @ [c])))"

declare pretokenize_loop.simps [code]

definition pretokenize :: "pcre \<Rightarrow> string \<Rightarrow> string \<Rightarrow> string list run" where
  "pretokenize P re text = pretokenize_loop P re text 0 []"

section \<open>Contracts of the matcher\<close>

text \<open>
  \<open>progress\<close>: a match lies at or after the start offset, ends inside the subject, and is
  not empty. \<open>covers\<close>: every match also begins at the start offset, which holds of a pattern
  whose alternatives together accept every character; a subject PCRE2 refuses (invalid UTF-8)
  may still end in an error. PCRE2 gives the first two parts of
  \<open>progress\<close> for any pattern without \<open>\K\<close>; the patterns above match no empty string.
\<close>

definition progress :: "pcre \<Rightarrow> string \<Rightarrow> string \<Rightarrow> bool" where
  "progress P re text \<longleftrightarrow> length text < 2 ^ 64 \<and>
     (\<forall>k < length text. case pc_match P re text k of
        Match s e \<Rightarrow> k \<le> s \<and> s < e \<and> e \<le> length text | _ \<Rightarrow> True)"

definition covers :: "pcre \<Rightarrow> string \<Rightarrow> string \<Rightarrow> bool" where
  "covers P re text \<longleftrightarrow> progress P re text \<and>
     (\<forall>k < length text. case pc_match P re text k of
        Match s e \<Rightarrow> s = k | _ \<Rightarrow> True)"

text \<open>An error the matcher reports for the pattern, as the exception it becomes.\<close>

definition pcre_error :: "pcre \<Rightarrow> string \<Rightarrow> fault \<Rightarrow> bool" where
  "pcre_error P re err \<longleftrightarrow> (\<exists>text k rc. pc_match P re text k = MatchError rc \<and> err = match_error rc)"

lemma match_len:
  assumes "s \<le> e" and "e < 2 ^ 64"
  shows "unat (of_nat e - of_nat s :: u64) = e - s"
proof -
  from assms have "of_nat e - of_nat s = (of_nat (e - s) :: u64)" by (simp add: of_nat_diff)
  with assms show ?thesis by (simp only: unat_of_nat) (simp add: take_bit_nat_eq_self)
qed

lemma pretokenize_loop_returns:
  assumes "progress P re text"
  shows "\<exists>r. pretokenize_loop P re text k chunks = Some r"
proof (induction "length text - k" arbitrary: k chunks rule: less_induct)
  case less
  show ?case
  proof (cases "k < length text")
    case True
    with assms less.hyps show ?thesis
      by (subst pretokenize_loop.simps)
        (fastforce simp: progress_def substr_def split: pcre_result.splits)
  qed (simp add: pretokenize_loop.simps)
qed

lemma pretokenize_loop_step:
  assumes "covers P re text" and "k < length text"
  obtains (error) err where "pretokenize_loop P re text k chunks = Some (Inl err)" "pcre_error P re err"
  | (chunk) e where "k < e" "e \<le> length text"
    "pretokenize_loop P re text k chunks = pretokenize_loop P re text e (chunks @ [take (e - k) (drop k text)])"
proof (cases "pc_match P re text k")
  case NoMatch
  with assms(2) show ?thesis
    by (intro chunk [of "k + 1"]) (simp_all add: pretokenize_loop.simps [of P re "text" k] substr_def)
next
  case (MatchError rc)
  with assms(2) show ?thesis
    by (intro error [of "match_error rc"])
      (auto simp: pretokenize_loop.simps [of P re "text" k] pcre_error_def)
next
  case (Match s e)
  with assms have "s = k" "k < e" "e \<le> length text" "length text < 2 ^ 64"
    by (auto simp: covers_def progress_def)
  with Match assms(2) show ?thesis
    by (intro chunk [of e])
      (simp_all add: pretokenize_loop.simps [of P re "text" k] substr_def match_len)
qed

text \<open>The chunks cut the text into non-empty pieces, nothing dropped or doubled.\<close>

lemma pretokenize_loop_covers:
  assumes "covers P re text" and "k \<le> length text"
  shows "(\<exists>err. pretokenize_loop P re text k chunks = Some (Inl err) \<and> pcre_error P re err) \<or>
    (\<exists>cs. pretokenize_loop P re text k chunks = Some (Inr (chunks @ cs))
      \<and> concat cs = drop k text \<and> [] \<notin> set cs)"
  using assms(2)
proof (induction "length text - k" arbitrary: k chunks rule: less_induct)
  case less
  show ?case
  proof (cases "k < length text")
    case False
    then show ?thesis by (intro disjI2 exI [of _ "[]"]) (simp add: pretokenize_loop.simps)
  next
    case True
    from assms(1) True show ?thesis
    proof (cases rule: pretokenize_loop_step [where chunks = chunks])
      case (chunk e)
      let ?c = "take (e - k) (drop k text)"
      from chunk True have "length text - e < length text - k" by linarith
      note IH = less.hyps [OF this chunk(2), of "chunks @ [?c]"]
      have "?c @ drop e text = drop k text"
        using chunk by (metis append_take_drop_id drop_drop le_add_diff_inverse2 less_imp_le)
      moreover have "?c \<noteq> []" using chunk by simp
      ultimately have "concat (?c # cs) = drop k text \<and> [] \<notin> set (?c # cs)"
        if "concat cs = drop e text" "[] \<notin> set cs" for cs using that by simp
      with IH chunk(3) show ?thesis by (metis append.assoc append_Cons append_Nil)
    qed blast
  qed
qed

lemma pretokenize_covers:
  assumes "covers P re text"
  obtains (error) err where "pretokenize P re text = Some (Inl err)" "pcre_error P re err"
  | (chunks) cs where "pretokenize P re text = Some (Inr cs)" "concat cs = text" "[] \<notin> set cs"
  using pretokenize_loop_covers [OF assms, of 0 "[]"] by (auto simp: pretokenize_def)

text \<open>A pattern that matches the empty string where it stands makes the loop spin.\<close>

lemma pretokenize_loop_stuck:
  assumes "k < length text" and "pc_match P re text k = Match k k"
  shows "pretokenize_loop P re text k chunks = None"
proof (rule ccontr)
  assume "pretokenize_loop P re text k chunks \<noteq> None"
  then obtain r where r: "pretokenize_loop P re text k chunks = Some r" by blast
  let ?stuck = "\<lambda>P re text k. k < length text \<and> pc_match P re text k = Match k k"
  let ?Q = "\<lambda>((((P, re), text), k), chunks) r. \<not> ?stuck P re text k"
  have "?Q ((((P, re), text), k), chunks) r"
  proof (rule pretokenize_loop.raw_induct [of ?Q, OF _ r])
    fix loop :: "pcre \<Rightarrow> string \<Rightarrow> string \<Rightarrow> nat \<Rightarrow> string list \<Rightarrow> string list run"
    fix P re "text" k chunks r
    assume IH: "\<And>P re text k chunks r. loop P re text k chunks = Some r \<Longrightarrow>
        ?Q ((((P, re), text), k), chunks) r"
      and "(if length text \<le> k then Some (Inr chunks)
        else case pc_match P re text k of
          NoMatch \<Rightarrow> run_bind (Some (substr text k 1)) (\<lambda>c.
            loop P re text (k + 1) (chunks @ [c]))
        | MatchError rc \<Rightarrow> Some (Inl (match_error rc))
        | Match s e \<Rightarrow>
            run_bind (Some (substr text s (unat (of_nat e - of_nat s :: u64)))) (\<lambda>c.
            loop P re text e (chunks @ [c]))) = Some r"
    then show "?Q ((((P, re), text), k), chunks) r"
      using IH [of P re "text" k] by (auto simp: substr_def)
  qed
  with assms show False by simp
qed

end
