(* ===== verification/Special_Trie.thy ===== *)
theory Special_Trie
  imports Prelude "HOL-Library.AList"
begin

text \<open>
  The trie of special tokens (\<open>src/tokenizer/special_token_vocab.cpp\<close>, the declarations in
  \<open>tokenizer_impl.h\<close>). A node's children are an \<open>std::unordered_map<char, unique_ptr>\<close>:
  here an association list whose entries may be null, because \<open>match\<close> indexes the map and
  so leaves null entries behind.
\<close>

datatype token_type =
    TOKEN_TYPE_UNDEFINED | TOKEN_TYPE_NORMAL | TOKEN_TYPE_UNKNOWN | TOKEN_TYPE_CONTROL
  | TOKEN_TYPE_USER_DEFINED | TOKEN_TYPE_UNUSED | TOKEN_TYPE_BYTE

fun token_type_code :: "token_type \<Rightarrow> u32" where
  "token_type_code TOKEN_TYPE_UNDEFINED = 0"
| "token_type_code TOKEN_TYPE_NORMAL = 1"
| "token_type_code TOKEN_TYPE_UNKNOWN = 2"
| "token_type_code TOKEN_TYPE_CONTROL = 3"
| "token_type_code TOKEN_TYPE_USER_DEFINED = 4"
| "token_type_code TOKEN_TYPE_UNUSED = 5"
| "token_type_code TOKEN_TYPE_BYTE = 6"

datatype trie_node = TNode (tn_ch: char) (tn_next: "(char \<times> trie_node option) list") (tn_id: int)

definition new_node :: "char \<Rightarrow> trie_node" where
  "new_node c = TNode c [] (- 1)"

text \<open>The child under a character: \<open>None\<close> for a missing entry and for a null pointer.\<close>

definition child :: "trie_node \<Rightarrow> char \<Rightarrow> trie_node option" where
  "child t c = (case map_of (tn_next t) c of Some (Some u) \<Rightarrow> Some u | _ \<Rightarrow> None)"

definition set_child :: "char \<Rightarrow> trie_node option \<Rightarrow> trie_node \<Rightarrow> trie_node" where
  "set_child c u t = TNode (tn_ch t) (AList.update c u (tn_next t)) (tn_id t)"

section \<open>Building the trie\<close>

text \<open>The inner loop over one token, and the assignment of its id to the node it ends at.\<close>

fun trie_insert :: "string \<Rightarrow> int \<Rightarrow> trie_node \<Rightarrow> trie_node" where
  "trie_insert [] i t = TNode (tn_ch t) (tn_next t) i"
| "trie_insert (c # cs) i t =
     (let u = (case child t c of Some u \<Rightarrow> u | None \<Rightarrow> new_node c)
      in set_child c (Some (trie_insert cs i u)) t)"

record special_trie =
  st_root :: trie_node
  st_size :: nat

text \<open>
  \<open>build_from_tokens\<close>: \<open>token_types[i]\<close> is read for every token, so a shorter type vector
  is an out-of-range read.
\<close>

fun build_loop ::
  "string list \<Rightarrow> u32 list \<Rightarrow> nat \<Rightarrow> special_trie \<Rightarrow> special_trie res" where
  "build_loop [] types i s = Inr s"
| "build_loop (tok # toks) types i s =
     rbind (vec_at types i) (\<lambda>ty.
     if ty = token_type_code TOKEN_TYPE_NORMAL then build_loop toks types (i + 1) s
     else build_loop toks types (i + 1)
       \<lparr>st_root = trie_insert tok (int i) (st_root s), st_size = st_size s + 1\<rparr>)"

definition trie_empty :: special_trie where
  "trie_empty = \<lparr>st_root = new_node (CHR 0x00), st_size = 0\<rparr>"

definition build_from_tokens :: "string list \<Rightarrow> u32 list \<Rightarrow> special_trie res" where
  "build_from_tokens tokens types = build_loop tokens types 0 trie_empty"

section \<open>Matching\<close>

text \<open>
  The walk of \<open>match\<close> over \<open>text[start..end)\<close>. \<open>best\<close> is the id of the longest token seen;
  the second result is the node with the null entries the indexing created.
\<close>

fun match_from :: "trie_node \<Rightarrow> string \<Rightarrow> int \<Rightarrow> int \<times> trie_node" where
  "match_from t [] best = (best, t)"
| "match_from t (c # cs) best = (case child t c of
      None \<Rightarrow> (best, set_child c None t)
    | Some u \<Rightarrow>
        (let (b, u') = match_from u cs (if 0 \<le> tn_id u then tn_id u else best)
         in (b, set_child c (Some u') t)))"

definition trie_match :: "special_trie \<Rightarrow> string \<Rightarrow> nat \<Rightarrow> nat \<Rightarrow> int \<times> special_trie" where
  "trie_match s text start end =
     (let (b, r) = match_from (st_root s) (take (end - start) (drop start text)) (- 1)
      in (b, s\<lparr>st_root := r\<rparr>))"

section \<open>What a trie stores\<close>

fun walk :: "trie_node \<Rightarrow> string \<Rightarrow> trie_node option" where
  "walk t [] = Some t"
| "walk t (c # cs) = (case child t c of None \<Rightarrow> None | Some u \<Rightarrow> walk u cs)"

definition id_at :: "trie_node \<Rightarrow> string \<Rightarrow> int" where
  "id_at t s = (case walk t s of None \<Rightarrow> - 1 | Some u \<Rightarrow> tn_id u)"

text \<open>The id of the longest non-empty prefix that has one, as the specification of a match.\<close>

definition longest_match :: "(string \<Rightarrow> int) \<Rightarrow> string \<Rightarrow> int" where
  "longest_match ids text =
     (case find (\<lambda>n. 0 \<le> ids (take n text)) (rev [1..<Suc (length text)]) of
        None \<Rightarrow> - 1 | Some n \<Rightarrow> ids (take n text))"

lemma child_set_child [simp]:
  "child (set_child c u t) d = (if d = c then u else child t d)"
  by (auto simp: child_def set_child_def update_conv' split: option.splits)

lemma tn_id_set_child [simp]: "tn_id (set_child c u t) = tn_id t"
  by (simp add: set_child_def)

lemma id_at_Nil [simp]: "id_at t [] = tn_id t"
  by (simp add: id_at_def)

lemma id_at_Cons: "id_at t (c # cs) = (case child t c of None \<Rightarrow> - 1 | Some u \<Rightarrow> id_at u cs)"
  by (simp add: id_at_def split: option.splits)

lemma child_new_node [simp]: "child (new_node c) d = None"
  by (simp add: child_def new_node_def)

lemma id_at_new_node [simp]: "id_at (new_node c) s = - 1"
  by (cases s) (simp_all add: id_at_Cons, simp add: new_node_def)

lemma child_retag [simp]: "child (TNode c (tn_next t) i) d = child t d"
  by (simp add: child_def)

lemma id_at_trie_insert: "id_at (trie_insert s i t) s' = (if s' = s then i else id_at t s')"
proof (induction s arbitrary: t s')
  case Nil
  then show ?case by (cases s') (auto simp: id_at_Cons)
next
  case (Cons c cs)
  then show ?case
    by (cases s') (auto simp: id_at_Cons Let_def split: option.splits)
qed

text \<open>The indexing of \<open>match\<close> leaves null entries, which store nothing.\<close>

lemma id_at_match_from: "id_at (snd (match_from t cs best)) s = id_at t s"
proof (induction cs arbitrary: t best s)
  case (Cons c cs)
  show ?case
  proof (cases "child t c")
    case None
    then show ?thesis by (cases s) (auto simp: id_at_Cons split: option.splits)
  next
    case (Some u)
    let ?r = "match_from u cs (if 0 \<le> tn_id u then tn_id u else best)"
    obtain b u' where r: "?r = (b, u')" by fastforce
    with Cons.IH [of u "if 0 \<le> tn_id u then tn_id u else best"]
    have "id_at u' s = id_at u s" for s by simp
    with Some r show ?thesis by (cases s) (auto simp: id_at_Cons split: option.splits)
  qed
qed simp

lemma find_descending:
  "find P (rev [1..<Suc (Suc n)])
    = map_option Suc (find (P \<circ> Suc) (rev [1..<Suc n] @ [0]))"
proof -
  have "[1..<Suc (Suc n)] = map Suc (0 # [1..<Suc n])"
    by (simp add: map_Suc_upt upt_conv_Cons del: upt_Suc)
  then have "rev [1..<Suc (Suc n)] = map Suc (rev [1..<Suc n] @ [0])"
    by (simp add: rev_map del: upt_Suc)
  moreover have "find P (map Suc xs) = map_option Suc (find (P \<circ> Suc) xs)" for xs
    by (induction xs) auto
  ultimately show ?thesis by metis
qed

lemma find_append: "find P (xs @ ys) = (case find P xs of None \<Rightarrow> find P ys | Some x \<Rightarrow> Some x)"
  by (induction xs) auto

lemma fst_match_from:
  "fst (match_from t cs best) =
     (case find (\<lambda>n. 0 \<le> id_at t (take n cs)) (rev [1..<Suc (length cs)]) of
        None \<Rightarrow> best | Some n \<Rightarrow> id_at t (take n cs))"
proof (induction cs arbitrary: t best)
  case (Cons c cs)
  show ?case
  proof (cases "child t c")
    case None
    then have "find (\<lambda>n. 0 \<le> id_at t (take n (c # cs))) (rev [1..<Suc (length (c # cs))]) = None"
      by (auto simp: find_None_iff id_at_Cons take_Cons split: nat.splits)
    with None show ?thesis by simp
  next
    case (Some u)
    let ?b = "if 0 \<le> tn_id u then tn_id u else best"
    have "(\<lambda>n. 0 \<le> id_at t (take n (c # cs))) \<circ> Suc = (\<lambda>n. 0 \<le> id_at u (take n cs))"
      by (auto simp: id_at_Cons Some)
    then have "find (\<lambda>n. 0 \<le> id_at t (take n (c # cs))) (rev [1..<Suc (length (c # cs))])
      = map_option Suc (find (\<lambda>n. 0 \<le> id_at u (take n cs)) (rev [1..<Suc (length cs)] @ [0]))"
      by (simp only: find_descending length_Cons)
    moreover have "fst (match_from t (c # cs) best) = fst (match_from u cs ?b)"
      by (simp add: Some split: prod.splits)
    ultimately show ?thesis
      using Cons.IH [of u ?b]
      by (auto simp: find_append id_at_Cons Some simp del: upt_Suc split: option.splits)
  qed
qed simp

section \<open>The dictionary contract\<close>

text \<open>
  What the tokenizer relies on: inserting stores an id under a string, matching returns the
  id of the longest stored prefix and changes nothing of what is stored.
\<close>

locale token_dict =
  fixes insert :: "string \<Rightarrow> int \<Rightarrow> 't \<Rightarrow> 't"
    and id_of :: "'t \<Rightarrow> string \<Rightarrow> int"
    and match :: "'t \<Rightarrow> string \<Rightarrow> int \<times> 't"
  assumes id_insert: "id_of (insert s i t) = (id_of t)(s := i)"
    and match_longest: "fst (match t text) = longest_match (id_of t) text"
    and match_keeps: "id_of (snd (match t text)) = id_of t"
begin

lemma id_insert_all:
  "id_of (fold (\<lambda>(s, i). insert s i) kvs t) s
    = (case map_of (rev kvs) s of Some i \<Rightarrow> i | None \<Rightarrow> id_of t s)"
  by (induction kvs arbitrary: t)
    (auto simp: id_insert map_add_def split: option.splits)

text \<open>Any number of matches made before does not change the result of the next.\<close>

lemma match_after_matches:
  "fst (match (fold (\<lambda>x t. snd (match t x)) texts t) text) = longest_match (id_of t) text"
proof -
  have "id_of (fold (\<lambda>x t. snd (match t x)) texts t) = id_of t"
    by (induction texts arbitrary: t) (auto simp: match_keeps)
  then show ?thesis by (simp add: match_longest)
qed

end

interpretation trie: token_dict trie_insert id_at "\<lambda>t text. match_from t text (- 1)"
  by unfold_locales
    (auto simp: id_at_trie_insert id_at_match_from fst_match_from longest_match_def fun_eq_iff)

section \<open>The special tokens of a vocabulary\<close>

definition special_tokens_from :: "nat \<Rightarrow> string list \<Rightarrow> u32 list \<Rightarrow> (string \<times> int) list" where
  "special_tokens_from i tokens types =
     map (\<lambda>(tok, ty, k). (tok, int k))
       (filter (\<lambda>(tok, ty, k). ty \<noteq> 1) (zip tokens (zip types [i..<i + length tokens])))"

definition special_tokens :: "string list \<Rightarrow> u32 list \<Rightarrow> (string \<times> int) list" where
  "special_tokens tokens types = special_tokens_from 0 tokens types"

text \<open>The id of a special token: the last of its occurrences in the vocabulary, else \<open>-1\<close>.\<close>

definition special_id :: "string list \<Rightarrow> u32 list \<Rightarrow> string \<Rightarrow> int" where
  "special_id tokens types s =
     (case map_of (rev (special_tokens tokens types)) s of Some i \<Rightarrow> i | None \<Rightarrow> - 1)"

lemma special_tokens_from_Cons:
  "special_tokens_from i (tok # toks) (ty # types)
    = (if ty = 1 then [] else [(tok, int i)]) @ special_tokens_from (Suc i) toks types"
proof -
  have "[i..<i + length (tok # toks)] = i # [Suc i..<Suc i + length toks]"
    by (simp add: upt_conv_Cons del: upt_Suc)
  then show ?thesis by (simp add: special_tokens_from_def del: upt_Suc)
qed

lemma build_loop_eq:
  assumes "i + length toks \<le> length types"
  shows "\<exists>s'. build_loop toks types i s = Inr s'
    \<and> st_root s' = fold (\<lambda>(t, k). trie_insert t k) (special_tokens_from i toks (drop i types))
        (st_root s)"
  using assms
proof (induction toks arbitrary: i s)
  case Nil
  then show ?case by (simp add: special_tokens_from_def)
next
  case (Cons tok toks)
  then have "drop i types = types ! i # drop (Suc i) types"
    by (simp add: Cons_nth_drop_Suc)
  moreover have "Suc i + length toks \<le> length types" using Cons.prems by simp
  note Cons.IH [OF this, of s] and
    Cons.IH [OF this, of "\<lparr>st_root = trie_insert tok (int i) (st_root s), st_size = st_size s + 1\<rparr>"]
  ultimately show ?case
    using Cons.prems by (cases "types ! i = 1") (simp_all add: special_tokens_from_Cons)
qed

lemma build_from_tokens_ids:
  assumes "length tokens \<le> length types"
  shows "\<exists>s. build_from_tokens tokens types = Inr s
    \<and> id_at (st_root s) = special_id tokens types"
proof -
  from build_loop_eq [of 0 tokens types trie_empty] assms obtain s where
    "build_from_tokens tokens types = Inr s"
    "st_root s = fold (\<lambda>(t, k). trie_insert t k) (special_tokens tokens types) (new_node (CHR 0x00))"
    by (auto simp: build_from_tokens_def trie_empty_def special_tokens_def)
  then show ?thesis
    by (auto simp: fun_eq_iff trie.id_insert_all special_id_def split: option.splits)
qed

lemma build_loop_short:
  "length types < i + length toks \<Longrightarrow> i \<le> length types \<Longrightarrow>
    build_loop toks types i s = Inl IndexOutOfRange"
proof (induction toks arbitrary: i s)
  case (Cons tok toks)
  then show ?case by (cases "i < length types") auto
qed simp

section \<open>Facts on longest matches\<close>

lemma longest_match_Some:
  assumes "longest_match ids text = i" and "0 \<le> i"
  obtains n where "1 \<le> n" "n \<le> length text" "ids (take n text) = i"
    "\<forall>k. n < k \<and> k \<le> length text \<longrightarrow> ids (take k text) < 0"
proof -
  let ?P = "\<lambda>n. 0 \<le> ids (take n text)"
  from assms obtain n where n: "find ?P (rev [1..<Suc (length text)]) = Some n"
      "ids (take n text) = i"
    by (auto simp: longest_match_def simp del: upt_Suc split: option.splits)
  then obtain j where j: "j < length text" "n = rev [1..<Suc (length text)] ! j" "?P n"
      "\<forall>l < j. \<not> ?P (rev [1..<Suc (length text)] ! l)"
    by (auto simp: find_Some_iff simp del: upt_Suc)
  have nth: "rev [1..<Suc (length text)] ! l = length text - l" if "l < length text" for l
    using that by (simp add: rev_nth del: upt_Suc)
  show ?thesis
  proof (rule that [of n])
    show "1 \<le> n" "n \<le> length text" "ids (take n text) = i"
      using j(1,2) n(2) nth by auto
    show "\<forall>k. n < k \<and> k \<le> length text \<longrightarrow> ids (take k text) < 0"
    proof (intro allI impI)
      fix k assume k: "n < k \<and> k \<le> length text"
      with j(1,2) nth have "length text - k < j" by auto
      with j(4) nth [of "length text - k"] k j(1) show "ids (take k text) < 0" by force
    qed
  qed
qed

lemma longest_match_None:
  assumes "longest_match ids text < 0" and "1 \<le> n" and "n \<le> length text"
  shows "ids (take n text) < 0"
proof (rule ccontr)
  let ?P = "\<lambda>n. 0 \<le> ids (take n text)"
  assume "\<not> ids (take n text) < 0"
  then have "find ?P (rev [1..<Suc (length text)]) \<noteq> None"
    using assms(2,3) by (auto simp: find_None_iff simp del: upt_Suc intro!: exI [of _ n])
  then obtain k where k: "find ?P (rev [1..<Suc (length text)]) = Some k" by auto
  then have "?P k" by (auto simp: find_Some_iff simp del: upt_Suc)
  with k assms(1) show False by (simp add: longest_match_def del: upt_Suc)
qed

end
