(* ===== verification/Tokenizer.thy ===== *)
theory Tokenizer
  imports Model_Types Bpe Pretokenize Special_Trie
begin

text \<open>
  The tokenizer: construction, encoding, decoding and the small queries of
  \<open>src/tokenizer/tokenizer_impl.cpp\<close>. \<open>operator[]\<close> on its maps inserts a default entry for
  a missing key, so encoding returns the tokenizer it leaves behind.
\<close>

record tokenizer =
  tz_model :: string
  tz_pre :: string
  tz_tokens :: "string list"
  tz_types :: "u32 list"
  tz_re :: string
  tz_maps :: byte_maps
  tz_merges :: merges_map
  token_to_id :: "(string \<times> nat) list"
  id_to_token :: "(nat \<times> string) list"
  tz_stop :: "string list"
  tz_trie :: special_trie
  tz_info :: tokenizer_info_t

section \<open>Construction\<close>

text \<open>The fullwidth bar of the DeepSeek token is the UTF-8 sequence EF BD 9C.\<close>

definition stop_tokens :: "string list" where
  "stop_tokens =
     [''<|im_end|>'', ''<|endoftext|>'', ''<|eot_id|>'', ''<|end_of_text|>'', ''</s>'',
      ''[/INST]'', ''<end_of_turn>'', ''<eos>'',
      ''<'' @ [CHR 0xEF, CHR 0xBD, CHR 0x9C] @ ''end of sentence''
        @ [CHR 0xEF, CHR 0xBD, CHR 0x9C] @ ''>'',
      ''<|end|>'', ''<|END_OF_TURN_TOKEN|>'']"

fun token_id_loop ::
  "string list \<Rightarrow> nat \<Rightarrow> (string \<times> nat) list \<Rightarrow> (nat \<times> string) list
    \<Rightarrow> (string \<times> nat) list \<times> (nat \<times> string) list" where
  "token_id_loop [] i to_id to_token = (to_id, to_token)"
| "token_id_loop (t # ts) i to_id to_token =
     token_id_loop ts (i + 1) (um_assign t i to_id) (um_assign i t to_token)"

text \<open>\<open>for_model\<close>, on the \<open>tokenizer_info\<close> of the model.\<close>

definition for_model :: "pcre \<Rightarrow> tokenizer_info_t \<Rightarrow> tokenizer res" where
  "for_model P info =
     rbind (init_pretokenize P (tk_pre info)) (\<lambda>re.
     let (to_id, to_token) = token_id_loop (tk_tokens info) 0 [] [] in
     rbind (build_from_tokens (tk_tokens info) (tk_token_type info)) (\<lambda>trie.
     Inr \<lparr>tz_model = tk_model info, tz_pre = tk_pre info, tz_tokens = tk_tokens info,
       tz_types = tk_token_type info, tz_re = re, tz_maps = build_byte_to_unicode_map,
       tz_merges = build_merges_map (tk_merges info),
       token_to_id = to_id, id_to_token = to_token, tz_stop = stop_tokens,
       tz_trie = trie, tz_info = info\<rparr>))"

section \<open>Encoding\<close>

fun merge_chunks :: "tokenizer \<Rightarrow> string list \<Rightarrow> string list \<Rightarrow> string list res" where
  "merge_chunks z [] tokens = Inr tokens"
| "merge_chunks z (c # cs) tokens =
     rbind (split_and_merge (tz_merges z) (tz_maps z) c) (\<lambda>splitted.
     merge_chunks z cs (tokens @ splitted))"

definition bpe :: "pcre \<Rightarrow> tokenizer \<Rightarrow> string \<Rightarrow> string list \<Rightarrow> string list run" where
  "bpe P z text tokens =
     run_bind (pretokenize P (tz_re z) text) (\<lambda>chunks. Some (merge_chunks z chunks tokens))"

text \<open>
  The loop of \<open>tokenize\<close>. \<open>start\<close> is an \<open>int\<close>, incremented by one outside special tokens;
  the end given to \<open>match\<close> is the text size converted to \<open>int\<close>.
\<close>

partial_function (option) tokenize_loop ::
  "pcre \<Rightarrow> string \<Rightarrow> tokenizer \<Rightarrow> nat \<Rightarrow> string \<Rightarrow> string list
    \<Rightarrow> (tokenizer \<times> string \<times> string list) run" where
  "tokenize_loop P text z start pretext final_tokens =
     (if length text \<le> start then Some (Inr (z, pretext, final_tokens))
      else
        let (token_id, trie) = trie_match (tz_trie z) text start (nat (wrap32 (int (length text)))) in
        if 0 \<le> token_id then
          let (spl_token, to_token) = um_index [] (nat token_id) (id_to_token z) in
          run_bind (bpe P z pretext final_tokens) (\<lambda>tokens.
            tokenize_loop P text (z\<lparr>tz_trie := trie, id_to_token := to_token\<rparr>)
              (start + length spl_token) [] (tokens @ [spl_token]))
        else if 2 ^ 31 \<le> start + 1 then Some (Inl IntOverflow)
        else tokenize_loop P text (z\<lparr>tz_trie := trie\<rparr>) (start + 1)
          (pretext @ [text ! start]) final_tokens)"

declare tokenize_loop.simps [code]

text \<open>The last loop: an unknown token is inserted with id 0; ids are narrowed to \<open>int32_t\<close>.\<close>

fun lookup_ids :: "tokenizer \<Rightarrow> string list \<Rightarrow> int list \<times> tokenizer" where
  "lookup_ids z [] = ([], z)"
| "lookup_ids z (t # ts) =
     (let (i, to_id) = um_index 0 t (token_to_id z);
          (ids, z') = lookup_ids (z\<lparr>token_to_id := to_id\<rparr>) ts
      in (wrap32 (int i) # ids, z'))"

definition tokenize :: "pcre \<Rightarrow> tokenizer \<Rightarrow> string \<Rightarrow> (int list \<times> tokenizer) run" where
  "tokenize P z text =
     run_bind (tokenize_loop P text z 0 [] []) (\<lambda>(z', pretext, final_tokens).
     run_bind (if pretext \<noteq> [] then bpe P z' pretext final_tokens else Some (Inr final_tokens))
       (\<lambda>tokens. Some (Inr (lookup_ids z' tokens))))"

section \<open>Decoding and queries\<close>

definition decode :: "tokenizer \<Rightarrow> u32 \<Rightarrow> string" where
  "decode z token_id = (case map_of (id_to_token z) (unat token_id) of
      Some t \<Rightarrow> unicode_to_chars (tz_maps z) t | None \<Rightarrow> [])"

definition is_stop_token :: "tokenizer \<Rightarrow> string \<Rightarrow> bool" where
  "is_stop_token z token \<longleftrightarrow> token \<in> set (tz_stop z) \<and> map_of (token_to_id z) token \<noteq> None"

definition get_bos :: "tokenizer \<Rightarrow> string" where
  "get_bos z = (case map_of (id_to_token z) (unat (bos_token_id (tz_info z))) of
      Some t \<Rightarrow> t | None \<Rightarrow> [])"

definition get_eos :: "tokenizer \<Rightarrow> string" where
  "get_eos z = (case map_of (id_to_token z) (unat (bos_token_id (tz_info z))) of
      Some t \<Rightarrow> t | None \<Rightarrow> [])"

section \<open>The id maps\<close>

lemma token_id_loop_maps:
  "token_id_loop ts i to_id to_token =
    (fold (\<lambda>(k, v). um_assign k v) (zip ts [i..<i + length ts]) to_id,
     fold (\<lambda>(k, v). um_assign k v) (zip [i..<i + length ts] ts) to_token)"
proof (induction ts arbitrary: i to_id to_token)
  case (Cons t ts)
  have "[i..<i + length (t # ts)] = i # [Suc i..<Suc i + length ts]"
    by (simp add: upt_conv_Cons del: upt_Suc)
  then show ?case by (simp add: Cons.IH del: upt_Suc)
qed simp

lemma map_of_rev_distinct:
  assumes "distinct (map fst kvs)"
  shows "map_of (rev kvs) k = map_of kvs k"
proof -
  have "distinct (map fst (rev kvs))" using assms by (simp add: rev_map [symmetric])
  then have "map_of (rev kvs) k = Some v \<longleftrightarrow> map_of kvs k = Some v" for v
    using assms by (simp only: map_of_eq_Some_iff set_rev)
  then show ?thesis by (metis not_None_eq)
qed

lemma map_of_zip_upt:
  "length xs = n \<Longrightarrow> map_of (rev (zip [0..<n] xs)) i = (if i < n then Some (xs ! i) else None)"
  using map_of_zip_nth [of "[0..<n]" xs i]
  by (auto simp: map_of_rev_distinct map_of_eq_None_iff dest: set_zip_leftD)

lemma id_to_token_built:
  "map_of (snd (token_id_loop ts 0 [] [])) i = (if i < length ts then Some (ts ! i) else None)"
  by (simp add: token_id_loop_maps um.assign_all_last map_of_zip_upt)

lemma token_to_id_built:
  "map_of (fst (token_id_loop ts 0 [] [])) t = Some i \<Longrightarrow> i < length ts \<and> ts ! i = t"
  by (auto simp: token_id_loop_maps um.assign_all_last in_set_zip dest!: map_of_SomeD
      split: option.splits)

lemma token_to_id_dom:
  "map_of (fst (token_id_loop ts 0 [] [])) t \<noteq> None \<longleftrightarrow> t \<in> set ts"
proof -
  have "fst ` set (zip ts [0..<length ts]) = set ts"
    by (metis length_map map_fst_zip length_upt diff_zero list.set_map)
  then show ?thesis
    by (auto simp: token_id_loop_maps um.assign_all_last map_of_eq_None_iff simp flip: not_None_eq
        split: option.splits)
qed

end
