(* ===== verification/Tokenizer_Facts.thy ===== *)
theory Tokenizer_Facts
  imports Tokenizer
begin

text \<open>
  Encoding a text and decoding the ids: merges keep the bytes a token stands for, special
  tokens are cut out of the text where they stand, and the id maps of a closed vocabulary
  lead back to the same tokens.
\<close>

section \<open>Tokens as byte sequences\<close>

definition shown :: "string \<Rightarrow> string" where
  "shown bs = concat (map shown_as bs)"

lemma shown_append: "shown (xs @ ys) = shown xs @ shown ys"
  by (simp add: shown_def)

lemma unicode_to_chars_shown: "unicode_to_chars build_byte_to_unicode_map (shown bs) = bs"
  by (simp add: shown_def unicode_to_chars_built)

text \<open>Merging shown byte strings is merging the byte strings.\<close>

lemma bpe_steps_shown:
  assumes "(bpe_step m)\<^sup>*\<^sup>* (map shown bss) us"
  shows "\<exists>css. us = map shown css \<and> concat css = concat bss \<and> length css \<le> length bss"
  using assms
proof (induction rule: rtranclp_induct)
  case (step us vs)
  then obtain css where css: "us = map shown css" "concat css = concat bss" "length css \<le> length bss"
    by blast
  from step(2) obtain pre a b post where ab: "us = pre @ a # b # post" "vs = pre @ (a @ b) # post"
    by (auto elim: bpe_step.cases)
  with css(1) obtain xs x y ys where xy: "css = xs @ x # y # ys" "map shown xs = pre"
      "shown x = a" "shown y = b" "map shown ys = post"
    by (auto simp: append_eq_map_conv Cons_eq_map_conv map_eq_append_conv map_eq_Cons_conv)
  have "vs = map shown (xs @ (x @ y) # ys)" using ab(2) xy by (simp add: shown_append)
  moreover have "concat (xs @ (x @ y) # ys) = concat bss" "length (xs @ (x @ y) # ys) \<le> length bss"
    using css(2,3) xy(1) by simp_all
  ultimately show ?case by blast
qed blast

lemma split_and_merge_shown:
  assumes "chunk \<noteq> []"
  shows "\<exists>css. split_and_merge m build_byte_to_unicode_map chunk = Inr (map shown css)
    \<and> concat css = chunk \<and> length css \<le> length chunk
    \<and> (\<forall>cs \<in> set css. bpe_token m (range shown_as) (shown cs))"
proof -
  let ?bss = "map (\<lambda>c. [c]) chunk"
  have start: "map (byte_to_unicode build_byte_to_unicode_map) chunk = map shown ?bss"
    by (simp add: shown_def)
  from assms merge_loop_normal_form [of "map shown ?bss" m] obtain us where
    us: "merge_loop m (map shown ?bss) = Inr us" "(bpe_step m)\<^sup>*\<^sup>* (map shown ?bss) us" by auto
  from bpe_steps_shown [OF us(2)] obtain css where
    css: "us = map shown css" "concat css = concat ?bss" "length css \<le> length ?bss" by blast
  have "bpe_token m (range shown_as) (shown cs)" if "cs \<in> set css" for cs
    using bpe_steps_tokens [OF us(2), of "range shown_as" "shown cs"] that css(1)
    by (auto simp: shown_def)
  moreover have "split_and_merge m build_byte_to_unicode_map chunk = Inr (map shown css)"
    by (simp only: split_and_merge_def start us(1) css(1))
  moreover have "concat css = chunk" "length css \<le> length chunk" using css(2,3) by simp_all
  ultimately show ?thesis by blast
qed

section \<open>A closed vocabulary\<close>

text \<open>
  Every shown byte and every merge result is a token, special tokens are ASCII, each token
  has a type, and ids fit an \<open>int32_t\<close>. \<open>merge_results\<close> are the readings of a merge entry:
  the entry without one of its spaces.
\<close>

definition merge_results :: "string \<Rightarrow> string list" where
  "merge_results e = map (\<lambda>i. take i e @ drop (i + 1) e) (filter (\<lambda>i. e ! i = CHR '' '') [0..<length e])"

definition ascii :: "string \<Rightarrow> bool" where
  "ascii s = list_all (\<lambda>c. (of_char c :: nat) < 128) s"

definition vocab_closed :: "tokenizer_info_t \<Rightarrow> bool" where
  "vocab_closed info \<longleftrightarrow>
     length (tk_tokens info) < 2 ^ 31 \<and>
     length (tk_tokens info) \<le> length (tk_token_type info) \<and>
     list_all (\<lambda>k. code_point_to_utf8 (byte_cp k) \<in> set (tk_tokens info)) [0..<256] \<and>
     list_all (\<lambda>e. list_all (\<lambda>t. t \<in> set (tk_tokens info)) (merge_results e)) (tk_merges info) \<and>
     list_all (\<lambda>(t, i). ascii t) (special_tokens (tk_tokens info) (tk_token_type info))"

lemma merges_loop_dom: "map_of (merges_loop xs i m) e \<noteq> None \<Longrightarrow> e \<in> set xs \<or> map_of m e \<noteq> None"
  by (induction xs i m rule: merges_loop.induct) (auto simp: um_laws split: if_splits)

lemma pair_rank_merges:
  assumes "pair_rank (build_merges_map merges) a b \<noteq> None"
  shows "\<exists>e \<in> set merges. a @ b \<in> set (merge_results e)"
proof
  let ?e = "a @ '' '' @ b"
  show "?e \<in> set merges"
    using assms merges_loop_dom [of merges 0 "[]"] by (auto simp: pair_rank_def build_merges_map_def)
  show "a @ b \<in> set (merge_results ?e)"
    by (auto simp: merge_results_def image_iff intro!: exI [of _ "length a"])
qed

lemma bpe_token_in_vocab:
  assumes "vocab_closed info" and "bpe_token (build_merges_map (tk_merges info)) (range shown_as) t"
  shows "t \<in> set (tk_tokens info)"
  using assms(2) unfolding bpe_token_def
proof (elim disjE exE conjE rangeE)
  fix c assume "t = shown_as c"
  then show ?thesis using assms(1) nat_of_char_less_256 [of c]
    by (simp add: vocab_closed_def list_all_iff del: upt_rec_numeral)
next
  fix a b assume "pair_rank (build_merges_map (tk_merges info)) a b \<noteq> None" "t = a @ b"
  then show ?thesis using assms(1) pair_rank_merges [of "tk_merges info" a b]
    by (auto simp: vocab_closed_def list_all_iff simp del: upt_rec_numeral)
qed

text \<open>Special tokens, being ASCII, are decoded to themselves.\<close>

lemma ascii_piece: "(of_char c :: nat) < 128 \<Longrightarrow> map_of (bm_u2b build_byte_to_unicode_map) [c] = Some d \<Longrightarrow> d = c"
proof -
  assume c: "(of_char c :: nat) < 128" "map_of (bm_u2b build_byte_to_unicode_map) [c] = Some d"
  then have eq: "[c] = shown_as d" by (simp add: u2b_built)
  show ?thesis
  proof (cases "byte_cp (of_char d) < 128")
    case True
    then have "byte_cp (of_char d) = of_char d" by (auto simp: byte_cp_def split: if_splits)
    with True eq show ?thesis by (simp add: code_point_to_utf8_def)
  next
    case False
    with eq utf8_two [of "byte_cp (of_char d)"] shown_as_bound [of d] show ?thesis by simp
  qed
qed

lemma unicode_to_chars_ascii: "ascii s \<Longrightarrow> unicode_to_chars build_byte_to_unicode_map s = s"
proof (induction s)
  case (Cons c s)
  then have c: "(of_char c :: nat) < 128" by (simp add: ascii_def)
  have "utf8_len c = 1" using utf8_len_one [of "of_char c"] c by simp
  with Cons ascii_piece [OF c] show ?case
    by (subst unicode_to_chars.simps) (auto simp: ascii_def Let_def split: option.splits)
qed (simp add: unicode_to_chars.simps)

section \<open>The encoder's state\<close>

text \<open>What construction establishes and encoding keeps, over a vocabulary.\<close>

definition tok_state :: "tokenizer_info_t \<Rightarrow> tokenizer \<Rightarrow> bool" where
  "tok_state info z \<longleftrightarrow>
     tz_maps z = build_byte_to_unicode_map \<and>
     tz_merges z = build_merges_map (tk_merges info) \<and>
     tz_re z = get_pretokenizer_regex (tk_pre info) \<and>
     (token_to_id z, id_to_token z) = token_id_loop (tk_tokens info) 0 [] [] \<and>
     id_at (st_root (tz_trie z)) = special_id (tk_tokens info) (tk_token_type info)"

lemma for_model_state:
  assumes "for_model P info = Inr z" and "length (tk_tokens info) \<le> length (tk_token_type info)"
  shows "tok_state info z"
  using assms build_from_tokens_ids [OF assms(2)]
  by (auto simp: for_model_def tok_state_def init_pretokenize_def Let_def rbind_eq_Inr
      split: option.splits prod.splits)

definition decoded :: "string list \<Rightarrow> string" where
  "decoded ts = concat (map (unicode_to_chars build_byte_to_unicode_map) ts)"

lemma decoded_append [simp]: "decoded (ts @ us) = decoded ts @ decoded us"
  by (simp add: decoded_def)

lemma decoded_Nil [simp]: "decoded [] = []"
  by (simp add: decoded_def)

lemma decoded_one [simp]: "decoded [t] = unicode_to_chars build_byte_to_unicode_map t"
  by (simp add: decoded_def)

lemma decoded_shown [simp]: "decoded (map shown css) = concat css"
  by (induction css) (simp_all add: decoded_def unicode_to_chars_shown)

lemma merge_chunks_decoded:
  assumes "tok_state info z" and "vocab_closed info" and "[] \<notin> set cs"
  shows "\<exists>us. merge_chunks z cs tokens = Inr (tokens @ us) \<and> set us \<subseteq> set (tk_tokens info)
    \<and> decoded us = concat cs \<and> length us \<le> length (concat cs)"
  using assms(3)
proof (induction cs arbitrary: tokens)
  case (Cons c cs)
  then have "c \<noteq> []" by auto
  from split_and_merge_shown [OF this, of "tz_merges z"] obtain css where
    css: "split_and_merge (tz_merges z) (tz_maps z) c = Inr (map shown css)" "concat css = c"
      "length css \<le> length c" "\<forall>cs \<in> set css. bpe_token (tz_merges z) (range shown_as) (shown cs)"
    using assms(1) by (auto simp: tok_state_def)
  moreover from Cons obtain us where "merge_chunks z cs (tokens @ map shown css)
      = Inr ((tokens @ map shown css) @ us)" "set us \<subseteq> set (tk_tokens info)" "decoded us = concat cs"
      "length us \<le> length (concat cs)"
    by fastforce
  moreover have "shown ` set css \<subseteq> set (tk_tokens info)"
    using css(4) bpe_token_in_vocab [OF assms(2)] assms(1) by (auto simp: tok_state_def)
  ultimately show ?case by (intro exI [of _ "map shown css @ us"]) auto
qed auto

lemma bpe_decoded:
  assumes "tok_state info z" and "vocab_closed info" and "covers P (tz_re z) text"
  obtains (error) err where "bpe P z text tokens = Some (Inl err)" "pcre_error P (tz_re z) err"
  | (tokens) us where "bpe P z text tokens = Some (Inr (tokens @ us))"
    "set us \<subseteq> set (tk_tokens info)" "decoded us = text" "length us \<le> length text"
  using assms(3)
proof (cases rule: pretokenize_covers)
  case (error err)
  then show ?thesis using that(1) by (simp add: bpe_def)
next
  case (chunks cs)
  with merge_chunks_decoded [OF assms(1,2) chunks(3), of tokens] that(2) show ?thesis
    by (auto simp: bpe_def)
qed

section \<open>Special tokens\<close>

lemma special_tokens_nth:
  "(t, i) \<in> set (special_tokens tokens types) \<Longrightarrow>
    \<exists>k < length tokens. i = int k \<and> tokens ! k = t"
  by (auto simp: special_tokens_def special_tokens_from_def in_set_zip)

lemma special_match:
  assumes "tok_state info z" and "length text < 2 ^ 31"
    and "trie_match (tz_trie z) text start (nat (wrap32 (int (length text)))) = (i, trie)"
  shows "i = longest_match (special_id (tk_tokens info) (tk_token_type info)) (drop start text)"
    and "id_at (st_root trie) = special_id (tk_tokens info) (tk_token_type info)"
  using assms trie.match_longest [of "st_root (tz_trie z)" "drop start text"]
    trie.match_keeps [of "st_root (tz_trie z)" "drop start text"]
  by (auto simp: trie_match_def tok_state_def split: prod.splits)

lemma special_match_token:
  assumes "tok_state info z" and "0 \<le> i"
    and "i = longest_match (special_id (tk_tokens info) (tk_token_type info)) s"
  obtains n where "1 \<le> n" "n \<le> length s" "map_of (id_to_token z) (nat i) = Some (take n s)"
    "take n s \<in> set (tk_tokens info)"
    "(take n s, i) \<in> set (special_tokens (tk_tokens info) (tk_token_type info))"
proof -
  from assms(2,3) obtain n where n: "1 \<le> n" "n \<le> length s"
    "special_id (tk_tokens info) (tk_token_type info) (take n s) = i"
    by (metis longest_match_Some)
  with assms(2) have mem: "(take n s, i) \<in> set (special_tokens (tk_tokens info) (tk_token_type info))"
    by (auto simp: special_id_def dest!: map_of_SomeD split: option.splits)
  from special_tokens_nth [OF this] obtain k where
    k: "k < length (tk_tokens info)" "i = int k" "tk_tokens info ! k = take n s" by blast
  have "id_to_token z = snd (token_id_loop (tk_tokens info) 0 [] [])"
    using assms(1) by (metis snd_conv tok_state_def)
  with k have "map_of (id_to_token z) (nat i) = Some (take n s)" by (simp add: id_to_token_built)
  moreover have "take n s \<in> set (tk_tokens info)" using k by (metis nth_mem)
  ultimately show ?thesis using that n mem by blast
qed

section \<open>The encoding loop\<close>

lemma tok_state_update:
  "tok_state info z \<Longrightarrow> id_at (st_root tr) = special_id (tk_tokens info) (tk_token_type info) \<Longrightarrow>
    tok_state info (z\<lparr>tz_trie := tr\<rparr>)"
  by (simp add: tok_state_def)

lemma tokenize_loop_decoded:
  assumes "vocab_closed info" and "length text < 2 ^ 31"
    and re: "\<forall>s. length s < 2 ^ 31 \<longrightarrow> covers P (get_pretokenizer_regex (tk_pre info)) s"
    and "tok_state info z" and "set toks \<subseteq> set (tk_tokens info)"
    and "decoded toks @ pre @ drop start text = text" and "start \<le> length text"
    and "length toks + length pre \<le> start"
  shows "(\<exists>err. tokenize_loop P text z start pre toks = Some (Inl err) \<and>
      pcre_error P (get_pretokenizer_regex (tk_pre info)) err) \<or>
    (\<exists>z' pre' toks'. tokenize_loop P text z start pre toks = Some (Inr (z', pre', toks'))
      \<and> tok_state info z' \<and> set toks' \<subseteq> set (tk_tokens info) \<and> decoded toks' @ pre' = text
      \<and> length toks' + length pre' \<le> length text)"
  using assms(4-8)
proof (induction "length text - start" arbitrary: z start pre toks rule: less_induct)
  case less
  show ?case
  proof (cases "start < length text")
    case False
    with less.prems show ?thesis by (subst (1 2) tokenize_loop.simps) auto
  next
    case True
    obtain i tr where m:
      "trie_match (tz_trie z) text start (nat (wrap32 (int (length text)))) = (i, tr)" by fastforce
    note match = special_match [OF less.prems(1) assms(2) m]
    show ?thesis
    proof (cases "0 \<le> i")
      case True
      from special_match_token [OF less.prems(1) this match(1)] obtain n where n:
        "1 \<le> n" "n \<le> length (drop start text)"
        "map_of (id_to_token z) (nat i) = Some (take n (drop start text))"
        "take n (drop start text) \<in> set (tk_tokens info)"
        "(take n (drop start text), i) \<in> set (special_tokens (tk_tokens info) (tk_token_type info))"
        by blast
      let ?t = "take n (drop start text)"
      have asc: "ascii ?t" using assms(1) n(5) by (force simp: vocab_closed_def list_all_iff)
      have "length pre \<le> length text"
        using arg_cong [OF less.prems(3), of length] by simp
      with re assms(2) less.prems(1) have cov: "covers P (tz_re z) pre" by (simp add: tok_state_def)
      have idx: "um_index [] (nat i) (id_to_token z) = (?t, id_to_token z)"
        using n(3) by (simp add: um_index_def)
      from less.prems(1) assms(1) cov show ?thesis
      proof (cases rule: bpe_decoded [where tokens = toks])
        case (error err)
        with \<open>start < length text\<close> m True idx less.prems(1) show ?thesis
          by (intro disjI1 exI [of _ err]) (subst tokenize_loop.simps, simp add: tok_state_def)
      next
        case (tokens us)
        let ?z = "z\<lparr>tz_trie := tr, id_to_token := id_to_token z\<rparr>" and ?toks = "(toks @ us) @ [?t]"
        have "tokenize_loop P text z start pre toks
          = tokenize_loop P text ?z (start + length ?t) [] ?toks"
          using \<open>start < length text\<close> m True idx tokens(1)
          by (subst tokenize_loop.simps) simp
        moreover have "length text - (start + length ?t) < length text - start" "start + length ?t \<le> length text"
          using n(1,2) \<open>start < length text\<close> by auto
        moreover have "tok_state info ?z"
          using tok_state_update [OF less.prems(1) match(2)] by simp
        moreover have "decoded ?toks @ [] @ drop (start + length ?t) text = text"
        proof -
          have "?t @ drop (start + length ?t) text = drop start text"
            using n(2) by (metis add.commute append_take_drop_id drop_drop length_take min.absorb2)
          with less.prems(3) tokens(3) unicode_to_chars_ascii [OF asc] show ?thesis by simp
        qed
        moreover have "set ?toks \<subseteq> set (tk_tokens info)"
          using less.prems(2) tokens(2) n(4) by simp
        moreover have "length ?toks + length ([] :: string) \<le> start + length ?t"
          using less.prems(5) tokens(4) n(1,2) by simp
        ultimately show ?thesis using less.hyps by simp
      qed
    next
      case False
      have "tokenize_loop P text z start pre toks
        = tokenize_loop P text (z\<lparr>tz_trie := tr\<rparr>) (start + 1) (pre @ [text ! start]) toks"
        using \<open>start < length text\<close> m False assms(2) by (subst tokenize_loop.simps) simp
      moreover have "decoded toks @ (pre @ [text ! start]) @ drop (start + 1) text = text"
        using less.prems(3) \<open>start < length text\<close> by (simp add: Cons_nth_drop_Suc)
      moreover have "length text - (start + 1) < length text - start" "start + 1 \<le> length text"
        "length toks + length (pre @ [text ! start]) \<le> start + 1"
        using \<open>start < length text\<close> less.prems(5) by auto
      ultimately show ?thesis
        using less.hyps [OF _ tok_state_update [OF less.prems(1) match(2)] less.prems(2)] by simp
    qed
  qed
qed

section \<open>Ids\<close>

lemma lookup_ids_decoded:
  assumes "tok_state info z" and "vocab_closed info" and "set ts \<subseteq> set (tk_tokens info)"
  shows "\<exists>ids. lookup_ids z ts = (ids, z) \<and> length ids = length ts
    \<and> concat (map (\<lambda>i. decode z (word_of_int i)) ids) = decoded ts"
  using assms(3)
proof (induction ts)
  case (Cons t ts)
  have maps: "token_to_id z = fst (token_id_loop (tk_tokens info) 0 [] [])"
      "id_to_token z = snd (token_id_loop (tk_tokens info) 0 [] [])"
    using assms(1) unfolding tok_state_def by (metis fst_conv, metis snd_conv)
  from Cons.prems token_to_id_dom [of "tk_tokens info" t] obtain k where
    k: "map_of (token_to_id z) t = Some k" using maps(1) by auto
  with token_to_id_built maps(1) have k': "k < length (tk_tokens info)" "tk_tokens info ! k = t"
    by metis+
  with assms(2) have b: "k < 2 ^ 31" by (simp add: vocab_closed_def)
  have "unat (word_of_int (int k) :: u32) = k" using b by (simp add: take_bit_nat_eq_self unat_of_nat)
  then have dec: "decode z (word_of_int (int k)) = unicode_to_chars build_byte_to_unicode_map t"
    using k' maps(2) assms(1) by (simp add: decode_def id_to_token_built tok_state_def)
  from Cons obtain ids where "lookup_ids z ts = (ids, z)" "length ids = length ts"
    "concat (map (\<lambda>i. decode z (word_of_int i)) ids) = decoded ts" by auto
  then show ?case
    using k b dec decoded_append [of "[t]" ts] by (simp add: um_index_def)
qed simp

text \<open>
  Encoding as a whole: it returns with an error of PCRE2 or with at most as many ids as the text has
  bytes, which decode to the text.
\<close>

lemma tokenize_outcome:
  assumes "tok_state info z" and "vocab_closed info"
    and re: "\<forall>s. length s < 2 ^ 31 \<longrightarrow> covers P (get_pretokenizer_regex (tk_pre info)) s"
    and "length text < 2 ^ 31"
  obtains (error) err where "tokenize P z text = Some (Inl err)"
    "pcre_error P (get_pretokenizer_regex (tk_pre info)) err"
  | (ids) ids z' where "tokenize P z text = Some (Inr (ids, z'))" "length ids \<le> length text"
    "concat (map (\<lambda>i. decode z' (word_of_int i)) ids) = text"
proof -
  from tokenize_loop_decoded [OF assms(2,4,3,1), of "[]" "[]" 0] consider
    (failed) err where "tokenize_loop P text z 0 [] [] = Some (Inl err)"
      "pcre_error P (get_pretokenizer_regex (tk_pre info)) err"
  | (ends) z' pre toks where "tokenize_loop P text z 0 [] [] = Some (Inr (z', pre, toks))"
      "tok_state info z'" "set toks \<subseteq> set (tk_tokens info)" "decoded toks @ pre = text"
      "length toks + length pre \<le> length text"
    by auto
  then show thesis
  proof cases
    case failed
    then show ?thesis using error by (simp add: tokenize_def)
  next
    case ends
    have "length pre < 2 ^ 31" using arg_cong [OF ends(4), of length] assms(4) by simp
    with re ends(2) have "covers P (tz_re z') pre" by (simp add: tok_state_def)
    with ends(2) assms(2) show ?thesis
    proof (cases rule: bpe_decoded [where tokens = toks])
      case (error err)
      then have "pcre_error P (get_pretokenizer_regex (tk_pre info)) err"
        using ends(2) by (simp add: tok_state_def)
      with error ends lookup_ids_decoded [OF ends(2) assms(2) ends(3)] that show ?thesis
        by (cases "pre = []") (auto simp: tokenize_def)
    next
      case (tokens us)
      let ?ts = "if pre = [] then toks else toks @ us"
      have "set ?ts \<subseteq> set (tk_tokens info)" using ends(3) tokens(2) by simp
      from lookup_ids_decoded [OF ends(2) assms(2) this] obtain ids where
        i: "lookup_ids z' ?ts = (ids, z')" "length ids = length ?ts"
        "concat (map (\<lambda>i. decode z' (word_of_int i)) ids) = decoded ?ts" by blast
      have "tokenize P z text = Some (Inr (ids, z'))" using ends(1) tokens(1) i(1)
        by (simp add: tokenize_def split: if_splits)
      moreover have "decoded ?ts = text" "length ids \<le> length text" using ends(4,5) tokens(3,4) i(2) by auto
      ultimately show ?thesis using ids i(3) by simp
    qed
  qed
qed

lemma for_model_ok:
  assumes "pc_compile P (get_pretokenizer_regex (tk_pre info)) = None"
    and "length (tk_tokens info) \<le> length (tk_token_type info)"
  shows "\<exists>z. for_model P info = Inr z"
  using build_from_tokens_ids [OF assms(2)] assms(1)
  by (auto simp: for_model_def init_pretokenize_def Let_def split: prod.splits)

end
