(* ===== verification/Bpe_Reference.thy ===== *)
theory Bpe_Reference
  imports Bpe
begin

text \<open>
  The byte-pair encoding of GPT-2 as its reference implementation has it: each round takes the pair
  of least rank and merges all its occurrences in one pass from the left, where the tokenizer merges
  one occurrence per round. For merge lists as training produces them both give the same tokens.
\<close>

section \<open>The reference\<close>

fun merge_all :: "string \<Rightarrow> string \<Rightarrow> string list \<Rightarrow> string list" where
  "merge_all a b (x # y # zs) =
     (if x = a \<and> y = b then (a @ b) # merge_all a b zs else x # merge_all a b (y # zs))"
| "merge_all a b ts = ts"

fun best_pair :: "merges_map \<Rightarrow> (string \<times> string) list \<Rightarrow> (nat \<times> string \<times> string) option" where
  "best_pair m [] = None"
| "best_pair m ((a, b) # ps) =
     (case pair_rank m a b of
        None \<Rightarrow> best_pair m ps
      | Some r \<Rightarrow>
          (case best_pair m ps of
             None \<Rightarrow> Some (r, a, b)
           | Some (r', c, d) \<Rightarrow> if r' < r then Some (r', c, d) else Some (r, a, b)))"

lemma best_pair_None: "best_pair m ps = None \<longleftrightarrow> (\<forall>(x, y) \<in> set ps. pair_rank m x y = None)"
proof (induction ps)
  case (Cons p ps)
  obtain c d where "p = (c, d)" by fastforce
  with Cons show ?case by (cases "pair_rank m c d"; cases "best_pair m ps") auto
qed simp

lemma best_pair_in:
  "best_pair m ps = Some (r, a, b) \<Longrightarrow> (a, b) \<in> set ps \<and> pair_rank m a b = Some r"
proof (induction ps arbitrary: r a b)
  case (Cons p ps)
  obtain c d where p: "p = (c, d)" by fastforce
  show ?case
  proof (cases "best_pair m ps")
    case None
    with Cons.prems p show ?thesis by (cases "pair_rank m c d") auto
  next
    case (Some q)
    obtain r' c' d' where q: "q = (r', c', d')" using prod_cases3 by blast
    from Cons.IH Some q have "(c', d') \<in> set ps \<and> pair_rank m c' d' = Some r'" by simp
    with Cons.prems p q Some show ?thesis by (cases "pair_rank m c d") (auto split: if_splits)
  qed
qed simp

lemma best_pair_least:
  "best_pair m ps = Some (r, a, b) \<Longrightarrow> (x, y) \<in> set ps \<Longrightarrow> pair_rank m x y = Some k \<Longrightarrow> r \<le> k"
proof (induction ps arbitrary: r a b)
  case (Cons p ps)
  obtain c d where p: "p = (c, d)" by fastforce
  show ?case
  proof (cases "best_pair m ps")
    case None
    then have "(x, y) \<notin> set ps" using Cons.prems(3) by (auto simp: best_pair_None)
    with Cons.prems p None show ?thesis by (cases "pair_rank m c d") auto
  next
    case (Some q)
    obtain r' c' d' where q: "q = (r', c', d')" using prod_cases3 by blast
    from Cons.IH Some q Cons.prems(3) have "(x, y) \<in> set ps \<Longrightarrow> r' \<le> k" by simp
    with Cons.prems p q Some show ?thesis by (cases "pair_rank m c d") (auto split: if_splits)
  qed
qed simp

lemma length_merge_all: "length (merge_all a b ts) \<le> length ts"
  by (induction a b ts rule: merge_all.induct) auto

lemma length_merge_all_less: "(a, b) \<in> neighbours ts \<Longrightarrow> length (merge_all a b ts) < length ts"
proof (induction a b ts rule: merge_all.induct)
  case (1 a b x y zs)
  then show ?case using length_merge_all [of a b zs] by auto
qed auto

function gpt2_loop :: "merges_map \<Rightarrow> string list \<Rightarrow> string list" where
  "gpt2_loop m ts =
     (case best_pair m (zip ts (tl ts)) of
        None \<Rightarrow> ts
      | Some (r, a, b) \<Rightarrow> gpt2_loop m (merge_all a b ts))"
  by pat_completeness auto
termination
  by (relation "measure (\<lambda>(m, ts). length ts)")
    (auto dest!: best_pair_in intro: length_merge_all_less)

declare gpt2_loop.simps [simp del]

section \<open>Trained merges\<close>

text \<open>
  Every merge is a pair of two tokens without blanks; what a merge produces is an operand only of
  later merges.
\<close>

definition ordered_merges :: "merges_map \<Rightarrow> bool" where
  "ordered_merges m \<longleftrightarrow> (\<forall>a b c d r k. pair_rank m a b = Some r \<longrightarrow> pair_rank m c d = Some k \<longrightarrow>
     c = a @ b \<or> d = a @ b \<longrightarrow> r < k)"

definition trained :: "string list \<Rightarrow> bool" where
  "trained merges \<longleftrightarrow> (\<forall>x \<in> set merges. count_list x (CHR '' '') = 1) \<and>
     ordered_merges (build_merges_map merges)"

lemma merges_loop_rank:
  assumes "map_of (merges_loop xs i m) x = Some r"
  shows "map_of m x = Some r \<or> (i \<le> r \<and> r < i + length xs \<and> xs ! (r - i) = x)"
  using assms
proof (induction xs i m rule: merges_loop.induct)
  case (2 y ys i m)
  then have "map_of (um_assign y i m) x = Some r \<or>
      (i + 1 \<le> r \<and> r < i + 1 + length ys \<and> ys ! (r - (i + 1)) = x)" by simp
  then show ?case
  proof
    assume "i + 1 \<le> r \<and> r < i + 1 + length ys \<and> ys ! (r - (i + 1)) = x"
    moreover from this have "r - i = Suc (r - (i + 1))" by arith
    ultimately show ?thesis by simp
  qed (auto simp: um_laws split: if_splits)
qed simp

lemma pair_rank_merge:
  "pair_rank (build_merges_map merges) a b = Some r \<Longrightarrow>
    r < length merges \<and> merges ! r = a @ '' '' @ b"
  using merges_loop_rank [of merges 0 "[]" "a @ '' '' @ b" r]
  by (simp add: pair_rank_def build_merges_map_def)

lemma split_list_first_unique:
  "us @ x # vs = us' @ x # vs' \<Longrightarrow> x \<notin> set us \<Longrightarrow> x \<notin> set us' \<Longrightarrow> us = us' \<and> vs = vs'"
proof (induction us arbitrary: us')
  case Nil
  then show ?case by (cases us') auto
next
  case (Cons u us)
  then show ?case by (cases us') auto
qed

lemma blank_split:
  assumes "a @ '' '' @ b = c @ '' '' @ d" and "count_list (a @ '' '' @ b) (CHR '' '') = 1"
  shows "a = c \<and> b = d"
proof -
  have "count_list a (CHR '' '') = 0" "count_list b (CHR '' '') = 0" using assms(2) by simp_all
  moreover have "count_list c (CHR '' '') = 0" "count_list d (CHR '' '') = 0"
    using assms(2) unfolding assms(1) by simp_all
  ultimately have "CHR '' '' \<notin> set a" "CHR '' '' \<notin> set b" "CHR '' '' \<notin> set c" "CHR '' '' \<notin> set d"
    by (simp_all add: count_list_0_iff)
  moreover from assms(1) have "a @ CHR '' '' # b = c @ CHR '' '' # d" by simp
  ultimately show ?thesis using split_list_first_unique by metis
qed

lemma rank_determines_pair:
  assumes "trained merges" and "pair_rank (build_merges_map merges) a b = Some r"
    and "pair_rank (build_merges_map merges) c d = Some r"
  shows "a = c \<and> b = d"
proof -
  from pair_rank_merge [OF assms(2)] pair_rank_merge [OF assms(3)] have
    s: "a @ '' '' @ b = c @ '' '' @ d" "a @ '' '' @ b \<in> set merges" by (metis, metis nth_mem)
  with assms(1) have "count_list (a @ '' '' @ b) (CHR '' '') = 1" unfolding trained_def by blast
  from blank_split [OF s(1) this] show ?thesis .
qed

section \<open>Equivalence\<close>

text \<open>
  One pass over \<open>rest\<close> is a sequence of single merges: in front of the scan no pair of the least rank
  is left.
\<close>

lemma neighbours_append:
  "(x, y) \<in> neighbours (us @ vs) \<longleftrightarrow> (x, y) \<in> neighbours us \<or> (x, y) \<in> neighbours vs \<or>
     (us \<noteq> [] \<and> vs \<noteq> [] \<and> x = last us \<and> y = hd vs)"
proof (induction us)
  case (Cons u us)
  then show ?case by (cases us; cases vs) auto
qed auto

lemma neighbours_Cons:
  "(x, y) \<in> set (zip (u # vs) vs) \<longleftrightarrow> vs \<noteq> [] \<and> ((x = u \<and> y = hd vs) \<or> (x, y) \<in> neighbours vs)"
  by (cases vs) auto

lemma pass_steps:
  fixes m
  assumes r: "pair_rank m a b = Some r" and ord: "ordered_merges m"
    and inj: "\<And>x y. pair_rank m x y = Some r \<Longrightarrow> x = a \<and> y = b"
    and "\<And>x y k. (x, y) \<in> neighbours (pre @ rest) \<Longrightarrow> pair_rank m x y = Some k \<Longrightarrow> r \<le> k"
    and "\<And>x y k. (x, y) \<in> neighbours (pre @ take 1 rest) \<Longrightarrow> pair_rank m x y = Some k \<Longrightarrow> r < k"
  shows "(bpe_step m)\<^sup>*\<^sup>* (pre @ rest) (pre @ merge_all a b rest)"
  using assms(4,5)
proof (induction "length rest" arbitrary: pre rest rule: less_induct)
  case less
  show ?case
  proof (cases "\<exists>x y zs. rest = x # y # zs")
    case True
    then obtain x y zs where rest: "rest = x # y # zs" by blast
    have new: "r < k" if "pair_rank m u v = Some k" "u = a @ b \<or> v = a @ b" for u v k
      using ord r that unfolding ordered_merges_def by blast
    show ?thesis
    proof (cases "x = a \<and> y = b")
      case True
      have "bpe_step m (pre @ a # b # zs) (pre @ (a @ b) # zs)"
      proof (rule bpe_step [OF r])
        show "\<forall>(x, y) \<in> neighbours (pre @ [a]). \<forall>k. pair_rank m x y = Some k \<longrightarrow> r < k"
          using less.prems(2) rest True by auto
        show "\<forall>(x, y) \<in> neighbours (b # zs). \<forall>k. pair_rank m x y = Some k \<longrightarrow> r \<le> k"
        proof clarify
          fix u v k
          assume uv: "(u, v) \<in> neighbours (b # zs)" and k: "pair_rank m u v = Some k"
          from uv have "(u, v) \<in> neighbours (pre @ rest)"
            using neighbours_append [of u v "pre @ [a]" "b # zs"] rest True by simp
          with k show "r \<le> k" using less.prems(1) by blast
        qed
      qed
      moreover have "(bpe_step m)\<^sup>*\<^sup>* ((pre @ [a @ b]) @ zs) ((pre @ [a @ b]) @ merge_all a b zs)"
      proof (rule less.hyps)
        fix u v k
        assume uv: "(u, v) \<in> neighbours ((pre @ [a @ b]) @ zs)" and k: "pair_rank m u v = Some k"
        from uv have "(u, v) \<in> neighbours pre \<or> (u, v) \<in> neighbours zs \<or> u = a @ b \<or> v = a @ b"
          by (auto simp: neighbours_append neighbours_Cons)
        moreover have "(u, v) \<in> neighbours pre \<or> (u, v) \<in> neighbours zs \<Longrightarrow> (u, v) \<in> neighbours (pre @ rest)"
          unfolding rest by (cases zs) (auto simp: neighbours_append neighbours_Cons)
        ultimately show "r \<le> k" using less.prems(1) k new less_imp_le by blast
      next
        fix u v k
        assume uv: "(u, v) \<in> neighbours ((pre @ [a @ b]) @ take 1 zs)" and k: "pair_rank m u v = Some k"
        from uv have "(u, v) \<in> neighbours pre \<or> u = a @ b \<or> v = a @ b"
          by (cases zs) (auto simp: neighbours_append neighbours_Cons)
        moreover have "(u, v) \<in> neighbours pre \<Longrightarrow> (u, v) \<in> neighbours (pre @ take 1 rest)"
          by (simp add: neighbours_append)
        ultimately show "r < k" using less.prems(2) k new by blast
      qed (simp add: rest)
      ultimately show ?thesis using True rest by (simp add: converse_rtranclp_into_rtranclp)
    next
      case False
      have "(bpe_step m)\<^sup>*\<^sup>* ((pre @ [x]) @ y # zs) ((pre @ [x]) @ merge_all a b (y # zs))"
      proof (rule less.hyps)
        fix u v k
        assume uv: "(u, v) \<in> neighbours ((pre @ [x]) @ take 1 (y # zs))" and k: "pair_rank m u v = Some k"
        from uv have "(u, v) \<in> neighbours (pre @ take 1 rest) \<or> (u = x \<and> v = y)"
          by (auto simp: neighbours_append rest)
        then show "r < k"
        proof
          assume uv': "u = x \<and> v = y"
          then have "(u, v) \<in> neighbours (pre @ rest)" by (simp add: neighbours_append rest)
          with less.prems(1) k have "r \<le> k" by blast
          moreover have "r \<noteq> k" using inj k uv' False by auto
          ultimately show "r < k" by simp
        qed (use less.prems(2) k in blast)
      qed (use less.prems(1) rest in auto)
      with False rest show ?thesis by auto
    qed
  next
    case False
    then have "merge_all a b rest = rest" by (cases "(a, b, rest)" rule: merge_all.cases) auto
    then show ?thesis by simp
  qed
qed

lemma gpt2_loop_normal_form:
  assumes "trained merges"
  shows "(bpe_step (build_merges_map merges))\<^sup>*\<^sup>* ts (gpt2_loop (build_merges_map merges) ts)
    \<and> \<not> mergeable (build_merges_map merges) (gpt2_loop (build_merges_map merges) ts)"
proof (induction "length ts" arbitrary: ts rule: less_induct)
  case less
  let ?m = "build_merges_map merges"
  show ?case
  proof (cases "best_pair ?m (zip ts (tl ts))")
    case None
    then have "gpt2_loop ?m ts = ts" by (simp add: gpt2_loop.simps [of ?m ts])
    moreover have "\<not> mergeable ?m ts" using None by (auto simp: best_pair_None mergeable_def)
    ultimately show ?thesis by simp
  next
    case (Some p)
    then obtain r a b where best: "best_pair ?m (zip ts (tl ts)) = Some (r, a, b)" by (cases p) auto
    note ab = best_pair_in [OF best]
    have "(bpe_step ?m)\<^sup>*\<^sup>* ([] @ ts) ([] @ merge_all a b ts)"
    proof (rule pass_steps)
      show "pair_rank ?m a b = Some r" using ab by simp
      show "ordered_merges ?m" using assms by (simp add: trained_def)
      show "x = a \<and> y = b" if "pair_rank ?m x y = Some r" for x y
        by (rule rank_determines_pair [OF assms that ab [THEN conjunct2]])
      show "r \<le> k" if "(x, y) \<in> neighbours ([] @ ts)" "pair_rank ?m x y = Some k" for x y k
        using best_pair_least [OF best _ that(2)] that(1) by simp
      show "r < k" if "(x, y) \<in> neighbours ([] @ take 1 ts)" for x y k
        using that by (cases ts) auto
    qed
    then have steps: "(bpe_step ?m)\<^sup>*\<^sup>* ts (merge_all a b ts)" by simp
    have "gpt2_loop ?m ts = gpt2_loop ?m (merge_all a b ts)"
      using best by (simp add: gpt2_loop.simps [of ?m ts])
    with less [of "merge_all a b ts"] length_merge_all_less [OF ab [THEN conjunct1]] steps
    show ?thesis by (metis rtranclp_trans)
  qed
qed

lemma merge_loop_gpt2:
  assumes "trained merges" and "ts \<noteq> []"
  shows "merge_loop (build_merges_map merges) ts = Inr (gpt2_loop (build_merges_map merges) ts)"
  using merge_loop_iff [OF assms(2)] gpt2_loop_normal_form [OF assms(1)] by blast

end
