(* ===== verification/Tokenizer_Properties.thy ===== *)
theory Tokenizer_Properties
  imports Tokenizer_Facts Bpe_Reference
begin

text \<open>The properties of the tokenizer: special tokens, byte-pair merging, encoding and decoding.\<close>

section \<open>A small vocabulary\<close>

text \<open>All shown bytes, one merge and one special token, with a matcher of single characters.\<close>

definition demo_tokens :: "string list" where
  "demo_tokens = map (\<lambda>k. code_point_to_utf8 (byte_cp k)) [0..<256] @ [''hi'', ''<|im_end|>'']"

definition demo_info :: tokenizer_info_t where
  "demo_info = \<lparr>tk_model = ''gpt2'', tk_pre = ''qwen2'', eos_token_id = 257,
     padding_token_id = 257, bos_token_id = 256, add_bos_token = False,
     tk_tokens = demo_tokens, tk_merges = [''h i''],
     tk_token_type = replicate 257 1 @ [3], template_str = []\<rparr>"

definition demo_pcre :: pcre where
  "demo_pcre = \<lparr>pc_compile = \<lambda>re. None, pc_match = \<lambda>re s k. Match k (k + 1)\<rparr>"

lemma demo_covers: "length s < 2 ^ 31 \<Longrightarrow> covers demo_pcre re s"
  by (simp add: covers_def progress_def demo_pcre_def)

lemma demo_no_error [simp]: "\<not> pcre_error demo_pcre re err"
  by (simp add: pcre_error_def demo_pcre_def)

lemma demo_length: "length demo_tokens = 258"
  by (simp add: demo_tokens_def del: upt_rec_numeral)

lemma demo_special: "(t, i) \<in> set (special_tokens demo_tokens (replicate 257 1 @ [3])) \<Longrightarrow> ascii t"
proof -
  assume "(t, i) \<in> set (special_tokens demo_tokens (replicate 257 1 @ [3]))"
  then obtain k where "k < 258" "demo_tokens ! k = t" "(replicate 257 1 @ [3 :: u32]) ! k \<noteq> 1"
    by (auto simp: special_tokens_def special_tokens_from_def in_set_zip demo_length)
  then have "k = 257" by (cases "k < 257") (auto simp: nth_append)
  with \<open>demo_tokens ! k = t\<close> have "t = ''<|im_end|>''"
    by (simp add: demo_tokens_def nth_append del: upt_rec_numeral)
  then show ?thesis by (simp add: ascii_def)
qed

lemma demo_closed: "vocab_closed demo_info"
proof -
  have "merge_results ''h i'' = [''hi'']" by code_simp
  then show ?thesis using demo_special demo_length
    by (auto simp: vocab_closed_def demo_info_def list_all_iff simp del: upt_rec_numeral)
      (auto simp: demo_tokens_def simp del: upt_rec_numeral)
qed

lemma demo_built: "\<exists>z. for_model demo_pcre demo_info = Inr z"
  using build_from_tokens_ids [of demo_tokens "replicate 257 1 @ [3]"]
  by (auto simp: for_model_def init_pretokenize_def demo_pcre_def demo_info_def demo_length Let_def
      split: prod.splits)

section \<open>Encoding\<close>

text \<open>
  C2: decoding undoes encoding. For a vocabulary that contains every byte and every merge
  result, and a matcher whose matches start where they are asked for, \<open>tokenize\<close> returns, and
  unless PCRE2 reports an error the decoded ids concatenate to exactly the input text.
\<close>

theorem decode_tokenize:
  assumes "for_model P info = Inr z" and "vocab_closed info"
    and "\<forall>s. length s < 2 ^ 31 \<longrightarrow> covers P (get_pretokenizer_regex (tk_pre info)) s"
    and "length text < 2 ^ 31"
  shows "case tokenize P z text of
      None \<Rightarrow> False
    | Some (Inl e) \<Rightarrow> pcre_error P (get_pretokenizer_regex (tk_pre info)) e
    | Some (Inr (ids, z')) \<Rightarrow> concat (map (\<lambda>i. decode z' (word_of_int i)) ids) = text"
proof -
  from assms have z: "tok_state info z" by (simp add: for_model_state vocab_closed_def)
  from z assms(2-4) show ?thesis by (cases rule: tokenize_outcome) auto
qed

theorem decode_tokenize_witness:
  "\<exists>z ids z'. for_model demo_pcre demo_info = Inr z \<and>
    tokenize demo_pcre z ''hi <|im_end|>'' = Some (Inr (ids, z')) \<and>
    concat (map (\<lambda>i. decode z' (word_of_int i)) ids) = ''hi <|im_end|>''"
proof -
  from demo_built obtain z where z: "for_model demo_pcre demo_info = Inr z" ..
  have "length ''hi <|im_end|>'' < 2 ^ 31" by simp
  from decode_tokenize [OF z demo_closed _ this] demo_covers z show ?thesis
    by (auto split: option.splits sum.splits)
qed

text \<open>
  C7: the merge loop computes byte-pair encoding. On a non-empty chunk it always returns, and
  its result is the one sequence that greedy merging (least rank first, leftmost first) reaches
  from the shown bytes and that no merge applies to.
\<close>

theorem split_and_merge_greedy:
  assumes "chunk \<noteq> []"
  shows "split_and_merge m mp chunk = Inr us \<longleftrightarrow>
    (bpe_step m)\<^sup>*\<^sup>* (map (byte_to_unicode mp) chunk) us \<and> \<not> mergeable m us"
  using merge_loop_iff [of "map (byte_to_unicode mp) chunk" m us] assms
  by (simp add: split_and_merge_def)

theorem split_and_merge_greedy_witness:
  "let m = build_merges_map [''h i'', ''i h''];
       mp = \<lparr>bm_b2u = [(CHR ''h'', ''h''), (CHR ''i'', ''i'')], bm_u2b = []\<rparr> in
    (bpe_step m)\<^sup>*\<^sup>* (map (byte_to_unicode mp) ''ihih'') [''i'', ''hi'', ''h'']
    \<and> \<not> mergeable m [''i'', ''hi'', ''h'']"
proof -
  let ?m = "build_merges_map [''h i'', ''i h'']"
  let ?mp = "\<lparr>bm_b2u = [(CHR ''h'', ''h''), (CHR ''i'', ''i'')], bm_u2b = []\<rparr>"
  have m: "?m = [(''h i'', 0), (''i h'', 1)]"
    by (simp add: build_merges_map_def um_assign_def)
  note scan = rank_pairs_def List.map_filter_def pair_rank_def m merge_at_def upt_rec
  have "merge_loop ?m [''i'', ''h'', ''i'', ''h''] = merge_loop ?m [''i'', ''hi'', ''h'']"
    by (subst merge_loop.simps) (simp add: scan)
  also have "\<dots> = Inr [''i'', ''hi'', ''h'']"
    by (subst merge_loop.simps) (simp add: scan)
  finally have "split_and_merge ?m ?mp ''ihih'' = Inr [''i'', ''hi'', ''h'']"
    by (simp add: split_and_merge_def byte_to_unicode_def um_index_def)
  then show ?thesis unfolding Let_def by (rule split_and_merge_greedy [THEN iffD1, rotated]) simp
qed

text \<open>
  C4: the loop gives the tokens of GPT-2's reference encoder, which in a round merges all occurrences
  of the best pair and not only the first, for merge lists as training produces them: two tokens
  without blanks per entry, and results that only later entries use.
\<close>

theorem gpt2_equivalent:
  assumes "trained merges" and "chunk \<noteq> []"
  shows "split_and_merge (build_merges_map merges) mp chunk
    = Inr (gpt2_loop (build_merges_map merges) (map (byte_to_unicode mp) chunk))"
  using assms merge_loop_gpt2 by (simp add: split_and_merge_def)

lemma demo_trained: "trained [''h i'', ''hi h'']"
proof -
  have rank: "(a = ''h'' \<and> b = ''i'' \<and> r = 0) \<or> (a = ''hi'' \<and> b = ''h'' \<and> r = 1)"
    if "pair_rank (build_merges_map [''h i'', ''hi h'']) a b = Some r" for a b r
  proof -
    from pair_rank_merge [OF that] consider
      "r = 0" "''h'' @ '' '' @ ''i'' = a @ '' '' @ b" | "r = 1" "''hi'' @ '' '' @ ''h'' = a @ '' '' @ b"
      by (auto simp: less_Suc_eq numeral_2_eq_2)
    then show ?thesis
    proof cases
      case 1
      from blank_split [OF this(2)] 1(1) show ?thesis by simp
    next
      case 2
      from blank_split [OF this(2)] 2(1) show ?thesis by simp
    qed
  qed
  have "ordered_merges (build_merges_map [''h i'', ''hi h''])"
    unfolding ordered_merges_def
  proof (intro allI impI)
    fix a b c d r k
    assume r: "pair_rank (build_merges_map [''h i'', ''hi h'']) a b = Some r"
      and k: "pair_rank (build_merges_map [''h i'', ''hi h'']) c d = Some k"
      and "c = a @ b \<or> d = a @ b"
    with rank [OF r] rank [OF k] show "r < k" by auto
  qed
  then show ?thesis by (simp add: trained_def)
qed

theorem gpt2_equivalent_witness:
  "split_and_merge (build_merges_map [''h i'', ''hi h''])
      \<lparr>bm_b2u = [(CHR ''h'', ''h''), (CHR ''i'', ''i'')], bm_u2b = []\<rparr> ''hihhi''
    = Inr (gpt2_loop (build_merges_map [''h i'', ''hi h''])
        (map (byte_to_unicode \<lparr>bm_b2u = [(CHR ''h'', ''h''), (CHR ''i'', ''i'')], bm_u2b = []\<rparr>) ''hihhi''))"
  by (rule gpt2_equivalent [OF demo_trained]) simp

text \<open>
  The byte tables are inverse to each other: whatever the bytes, showing them as Unicode
  and reading the result back with \<open>unicode_to_chars_\<close> gives the same bytes.
\<close>

theorem byte_detour_roundtrip:
  "unicode_to_chars build_byte_to_unicode_map
    (concat (map (byte_to_unicode build_byte_to_unicode_map) bs)) = bs"
proof -
  have "map (byte_to_unicode build_byte_to_unicode_map) bs = map shown_as bs" by simp
  then show ?thesis using unicode_to_chars_built [of bs] by (simp only:)
qed

section \<open>Special tokens\<close>

text \<open>
  C22: the trie finds the longest special token. On a trie built from a vocabulary, and after any
  earlier matches, \<open>match\<close> gives the id of the longest non-empty prefix of the text that is a
  token of a type other than \<open>NORMAL\<close> (the last such id if the token is repeated), and \<open>-1\<close> if
  there is none.
\<close>

theorem special_longest_match:
  assumes "length tokens \<le> length types"
  shows "\<exists>s. build_from_tokens tokens types = Inr s \<and>
    fst (match_from (fold (\<lambda>t r. snd (match_from r t (- 1))) earlier (st_root s)) text (- 1))
      = longest_match (special_id tokens types) text"
proof -
  from build_from_tokens_ids [OF assms] obtain s where
    "build_from_tokens tokens types = Inr s" "id_at (st_root s) = special_id tokens types" by blast
  with trie.match_after_matches [of earlier "st_root s" "text"] show ?thesis by auto
qed

theorem special_longest_match_witness:
  "(\<exists>s. build_from_tokens [''<a>'', ''x'', ''<a><b>''] [3, 1, 4] = Inr s \<and>
    fst (match_from (fold (\<lambda>t r. snd (match_from r t (- 1))) [''<c>''] (st_root s))
        ''<a><b>!'' (- 1))
      = longest_match (special_id [''<a>'', ''x'', ''<a><b>''] [3, 1, 4]) ''<a><b>!'')
    \<and> longest_match (special_id [''<a>'', ''x'', ''<a><b>''] [3, 1, 4]) ''<a><b>!'' = 2"
  by (rule conjI, rule special_longest_match) (simp, code_simp)

text \<open>
  A type array shorter than the vocabulary (or absent, as for a file without
  \<open>tokenizer.ggml.token_type\<close>) makes the construction read out of range.
\<close>

theorem short_types_out_of_range:
  assumes "length types < length tokens"
  shows "build_from_tokens tokens types = Inl IndexOutOfRange"
  using build_loop_short [of types 0 tokens trie_empty] assms by (simp add: build_from_tokens_def)

theorem short_types_out_of_range_witness:
  "build_from_tokens [''a'', ''b''] [1] = Inl IndexOutOfRange"
  by (rule short_types_out_of_range) simp

section \<open>Splitting\<close>

text \<open>
  C25: pre-tokenization loses nothing: when matches are non-empty and begin where the search
  begins, \<open>pretokenize\<close> returns, and unless PCRE2 reports an error its chunks are non-empty
  and concatenate to the text.
\<close>

theorem pretokenize_lossless:
  assumes "covers P re text"
  shows "(\<exists>err. pretokenize P re text = Some (Inl err) \<and> pcre_error P re err)
    \<or> (\<exists>cs. pretokenize P re text = Some (Inr cs) \<and> concat cs = text \<and> [] \<notin> set cs)"
  using assms by (cases rule: pretokenize_covers) auto

theorem pretokenize_lossless_witness:
  "\<exists>cs. pretokenize demo_pcre PRE_TOKENIZER_QWEN2_REGEX ''abc'' = Some (Inr cs) \<and>
    concat cs = ''abc'' \<and> [] \<notin> set cs"
  using pretokenize_lossless [OF demo_covers, of "''abc''" PRE_TOKENIZER_QWEN2_REGEX] by simp

text \<open>
  C37: an unknown pre-tokenizer hangs. For every model name but the two known ones the pattern
  is empty; as the empty pattern matches the empty string at every offset, splitting a non-empty
  text never returns.
\<close>

theorem unknown_pretokenizer_hangs:
  assumes "pre \<noteq> ''qwen2''" and "pre \<noteq> ''llama-bpe''" and "text \<noteq> []"
    and "\<forall>k < length text. pc_match P [] text k = Match k k"
  shows "pretokenize P (get_pretokenizer_regex pre) text = None"
  using assms pretokenize_loop_stuck [of 0 "text" P "[]" "[]"]
  by (simp add: pretokenize_def get_pretokenizer_regex_def)

theorem unknown_pretokenizer_hangs_witness:
  "pretokenize \<lparr>pc_compile = \<lambda>re. None, pc_match = \<lambda>re s k. Match k k\<rparr>
    (get_pretokenizer_regex ''gpt-2'') ''a'' = None"
  by (rule unknown_pretokenizer_hangs) simp_all

section \<open>Lookups\<close>

text \<open>
  A token outside the vocabulary is silently encoded as id 0 and enters the id map, so that
  a stop string that was no token becomes a stop token by being looked up.
\<close>

theorem unknown_token_is_id_zero:
  assumes "map_of (token_to_id z) t = None"
  shows "fst (lookup_ids z [t]) = [0] \<and> \<not> is_stop_token z t
    \<and> (is_stop_token (snd (lookup_ids z [t])) t \<longleftrightarrow> t \<in> set (tz_stop z))"
  using assms wrap32_nat [of 0] by (simp add: um_index_def is_stop_token_def um_laws)

theorem unknown_token_is_id_zero_witness:
  "let z = \<lparr>tz_model = [], tz_pre = ''qwen2'', tz_tokens = [''a''], tz_types = [1], tz_re = [],
      tz_maps = \<lparr>bm_b2u = [], bm_u2b = []\<rparr>, tz_merges = [], token_to_id = [(''a'', 0)],
      id_to_token = [(0, ''a'')], tz_stop = stop_tokens, tz_trie = trie_empty,
      tz_info = demo_info\<rparr> in
    fst (lookup_ids z [''</s>'']) = [0] \<and> \<not> is_stop_token z ''</s>''
    \<and> (is_stop_token (snd (lookup_ids z [''</s>''])) ''</s>'' \<longleftrightarrow> ''</s>'' \<in> set (tz_stop z))"
  unfolding Let_def by (rule unknown_token_is_id_zero) simp

text \<open>
  \<open>get_eos\<close> returns the beginning-of-sequence token: for a built tokenizer it is the token
  at \<open>bos_token_id\<close>, whatever \<open>eos_token_id\<close> is.
\<close>

theorem get_eos_gives_bos:
  assumes "for_model P info = Inr z" and "unat (bos_token_id info) < length (tk_tokens info)"
  shows "get_eos z = tk_tokens info ! unat (bos_token_id info)"
proof -
  from assms(1) have "tz_info z = info \<and> id_to_token z = snd (token_id_loop (tk_tokens info) 0 [] [])"
    by (auto simp: for_model_def rbind_eq_Inr Let_def split_def)
  with assms(2) show ?thesis by (simp add: get_eos_def id_to_token_built)
qed

theorem get_eos_gives_bos_witness:
  "\<exists>z. for_model demo_pcre demo_info = Inr z \<and> get_eos z = ''hi''
    \<and> tk_tokens demo_info ! unat (eos_token_id demo_info) = ''<|im_end|>''"
proof -
  from demo_built obtain z where z: "for_model demo_pcre demo_info = Inr z" ..
  have "unat (bos_token_id demo_info) < length (tk_tokens demo_info)"
    by (simp add: demo_info_def demo_length)
  from get_eos_gives_bos [OF z this] z show ?thesis
    by (auto simp: demo_info_def demo_tokens_def nth_append simp del: upt_rec_numeral)
qed

end
