(* ===== verification/KV_Cache.thy ===== *)
theory KV_Cache
  imports Containers
begin

text \<open>
  The paged key/value cache (\<open>src/kv_cache/cache.h\<close>, \<open>cache.cpp\<close>): a table of blocks of
  sixteen token rows per layer, a usage record of sequence 0 that all layers share, block
  allocation, and the copy commands \<open>write_kv\<close> adds to the compute graph. ggml is outside
  the repository; what reaches it is the list of copies.
\<close>

section \<open>State\<close>

record kv_block =
  seq_id :: int
  start_pos :: int
  num_entries :: int

record kv_table =
  blocks :: "kv_block list"
  used :: "bool list"

record kv_usage =
  u_seq_id :: int
  block_list :: "int list"
  seq_len :: int

record kv_cache =
  max_len :: int
  d_head :: int
  n_kv :: int
  layers :: int
  block_tables :: "kv_table list"
  usage_table :: "(int \<times> kv_usage) list"

text \<open>The constructor sets \<open>block_size_\<close> to 16 and nothing changes it.\<close>

definition block_size :: int where
  "block_size = 16"

definition blocks_count :: "kv_cache \<Rightarrow> int" where
  "blocks_count c = sgn (max_len c) * (\<bar>max_len c\<bar> div block_size)"

definition kv_new :: "int \<Rightarrow> int \<Rightarrow> int \<Rightarrow> int \<Rightarrow> kv_cache" where
  "kv_new ctx_len n_layers nkv dhead =
     \<lparr>max_len = ctx_len, d_head = dhead, n_kv = nkv, layers = n_layers,
      block_tables = [], usage_table = []\<rparr>"

section \<open>Initialisation\<close>

text \<open>
  \<open>init\<close> reserves capacity in \<open>block_tables_\<close> but adds no element, and then indexes the
  vector for every layer.
\<close>

fun init_layers :: "kv_table list \<Rightarrow> nat \<Rightarrow> nat \<Rightarrow> unit res" where
  "init_layers tables i 0 = Inr ()"
| "init_layers tables i (Suc n) = rbind (vec_at tables i) (\<lambda>t. init_layers tables (i + 1) n)"

definition kv_init :: "kv_cache option \<Rightarrow> int \<Rightarrow> u32 \<Rightarrow> int \<Rightarrow> int \<Rightarrow> kv_cache option res" where
  "kv_init inst len n_blocks nkv dhead =
     (case inst of Some c \<Rightarrow> Inr inst
      | None \<Rightarrow>
          let c = kv_new len (wrap32 (int (unat n_blocks))) nkv dhead in
          rbind (init_layers (block_tables c) 0 (unat n_blocks)) (\<lambda>_. Inr (Some c)))"

section \<open>Allocation\<close>

text \<open>The scan over \<open>usage_\<close> from index \<open>i\<close>.\<close>

fun alloc_scan :: "kv_table \<Rightarrow> nat \<Rightarrow> bool list \<Rightarrow> (int \<times> kv_table) res" where
  "alloc_scan t i [] = Inr (- 1, t)"
| "alloc_scan t i (u # us) =
     (if u then alloc_scan t (i + 1) us
      else rbind (vec_at (blocks t) i) (\<lambda>b.
        Inr (int i, t\<lparr>used := (used t)[i := True],
          blocks := (blocks t)[i := \<lparr>seq_id = - 1, start_pos = 0, num_entries = 0\<rparr>]\<rparr>)))"

definition alloc_block :: "kv_cache \<Rightarrow> nat \<Rightarrow> (int \<times> kv_cache) res" where
  "alloc_block c layer =
     rbind (vec_at (block_tables c) layer) (\<lambda>t.
     rbind (alloc_scan t 0 (used t)) (\<lambda>(i, t').
     Inr (i, c\<lparr>block_tables := (block_tables c)[layer := t']\<rparr>)))"

section \<open>Writing\<close>

text \<open>
  A copy command: \<open>cp_len\<close> rows from token \<open>cp_src\<close> of the new tensor to row \<open>cp_row\<close> of block
  \<open>cp_block\<close>. Every round emits one for K and one for V with the same coordinates.
\<close>

record kv_copy =
  cp_layer :: nat
  cp_block :: int
  cp_row :: int
  cp_src :: int
  cp_len :: int

definition usage_of :: "kv_cache \<Rightarrow> kv_usage" where
  "usage_of c = fst (um_index \<lparr>u_seq_id = 0, block_list = [], seq_len = 0\<rparr> 0 (usage_table c))"

definition set_usage :: "kv_usage \<Rightarrow> kv_cache \<Rightarrow> kv_cache" where
  "set_usage u c = c\<lparr>usage_table := um_assign 0 u (usage_table c)\<rparr>"

definition set_block :: "nat \<Rightarrow> int \<Rightarrow> kv_block \<Rightarrow> kv_cache \<Rightarrow> kv_cache" where
  "set_block l i b c = c\<lparr>block_tables := (block_tables c)[l :=
     (let t = block_tables c ! l in t\<lparr>blocks := (blocks t)[nat i := b]\<rparr>)]\<rparr>"

text \<open>The block to write to: the last one of the sequence while it has room, else a new one.\<close>

definition pick_block :: "kv_cache \<Rightarrow> nat \<Rightarrow> (int \<times> kv_cache) res" where
  "pick_block c l =
     rbind (vec_at (block_tables c) l) (\<lambda>t.
     let bl = block_list (usage_of c) in
     rbind (if bl \<noteq> [] then
         rbind (int_at (blocks t) (last bl)) (\<lambda>b.
         Inr (if num_entries b < block_size then last bl else - 1))
       else Inr (- 1)) (\<lambda>block_id.
     if block_id = - 1 then alloc_block c l else Inr (block_id, c)))"

partial_function (option) write_loop ::
  "nat \<Rightarrow> nat \<Rightarrow> kv_cache \<Rightarrow> int \<Rightarrow> kv_copy list \<Rightarrow> (int \<times> kv_cache \<times> kv_copy list) run" where
  "write_loop l n c stored copies =
     (if int n \<le> stored then Some (Inr (stored, c, copies))
      else run_bind (Some (pick_block c l)) (\<lambda>(block_id, c).
        run_bind (Some (vec_at (block_tables c) l)) (\<lambda>t.
        run_bind (Some (int_at (blocks t) block_id)) (\<lambda>b.
          let usage = usage_of c;
              b = b\<lparr>start_pos := seq_len usage, seq_id := 0\<rparr>;
              remaining = wrap32 (int n - stored);
              len = min (block_size - num_entries b) remaining in
          if 2 ^ 31 \<le> stored + len then Some (Inl IntOverflow)
          else write_loop l n
            (set_usage (usage\<lparr>block_list := block_list usage @ [block_id]\<rparr>)
              (set_block l block_id (b\<lparr>num_entries := num_entries b + len\<rparr>) c))
            (stored + len)
            (copies @ [\<lparr>cp_layer = l, cp_block = block_id, cp_row = num_entries b,
               cp_src = stored, cp_len = len\<rparr>])))))"

declare write_loop.simps [code]

text \<open>\<open>n\<close> is \<open>K->ne[2]\<close>, the number of new tokens.\<close>

definition write_kv :: "kv_cache \<Rightarrow> nat \<Rightarrow> nat \<Rightarrow> (kv_cache \<times> kv_copy list) run" where
  "write_kv c l n =
     run_bind (Some (vec_at (block_tables c) l)) (\<lambda>_.
     run_bind (write_loop l n (set_usage (usage_of c) c) 0 []) (\<lambda>(stored, c, copies).
     let usage = usage_of c in
     if 2 ^ 31 \<le> seq_len usage + stored then Some (Inl IntOverflow)
     else Some (Inr (set_usage (usage\<lparr>seq_len := seq_len usage + stored\<rparr>) c, copies))))"

text \<open>\<open>get_slice\<close> walks the block list and ends without a \<open>return\<close>.\<close>

definition get_slice :: "kv_cache \<Rightarrow> nat \<Rightarrow> unit res" where
  "get_slice c l = rbind (vec_at (block_tables c) l) (\<lambda>t. Inl MissingReturn)"

end
