(* ===== verification/KV_Cache_Facts.thy ===== *)
theory KV_Cache_Facts
  imports KV_Cache
begin

text \<open>
  What a write does to the rows of its layer: the slots (block, row) that hold tokens, the
  room left, one round of the loop, and the loop as a whole.
\<close>

section \<open>Slots\<close>

type_synonym slot = "nat \<times> int"

definition layer_ok :: "kv_cache \<Rightarrow> nat \<Rightarrow> bool" where
  "layer_ok c l \<longleftrightarrow> l < length (block_tables c) \<and>
     (let t = block_tables c ! l in
       length (used t) = length (blocks t) \<and>
       (\<forall>b < length (blocks t). used t ! b \<longrightarrow>
         0 \<le> num_entries (blocks t ! b) \<and> num_entries (blocks t ! b) \<le> block_size) \<and>
       (\<forall>i \<in> set (block_list (usage_of c)). 0 \<le> i \<and> nat i < length (blocks t) \<and> used t ! nat i))"

definition occupied :: "kv_cache \<Rightarrow> nat \<Rightarrow> slot set" where
  "occupied c l = (let t = block_tables c ! l in
     {(b, r). b < length (blocks t) \<and> used t ! b \<and> 0 \<le> r \<and> r < num_entries (blocks t ! b)})"

definition copy_slots :: "kv_copy \<Rightarrow> slot set" where
  "copy_slots cp = {nat (cp_block cp)} \<times> {cp_row cp..<cp_row cp + cp_len cp}"

text \<open>Rows left: those of the last block of the sequence and all of the unused blocks.\<close>

definition room :: "kv_cache \<Rightarrow> nat \<Rightarrow> int" where
  "room c l = (let t = block_tables c ! l; bl = block_list (usage_of c) in
     (if bl = [] then 0 else block_size - num_entries (blocks t ! nat (last bl)))
     + block_size * int (length (filter Not (used t))))"

text \<open>Copies in token order without gaps, into slots that were free, inside the blocks.\<close>

fun tiles :: "int \<Rightarrow> kv_copy list \<Rightarrow> int \<Rightarrow> bool" where
  "tiles a [] e \<longleftrightarrow> a = e"
| "tiles a (cp # cps) e \<longleftrightarrow> cp_src cp = a \<and> 0 < cp_len cp \<and> tiles (a + cp_len cp) cps e"

fun fresh :: "slot set \<Rightarrow> kv_copy list \<Rightarrow> bool" where
  "fresh occ [] \<longleftrightarrow> True"
| "fresh occ (cp # cps) \<longleftrightarrow> copy_slots cp \<inter> occ = {} \<and> fresh (occ \<union> copy_slots cp) cps"

definition in_bounds :: "nat \<Rightarrow> kv_copy \<Rightarrow> bool" where
  "in_bounds n cp \<longleftrightarrow> 0 \<le> cp_block cp \<and> nat (cp_block cp) < n \<and> 0 \<le> cp_row cp
     \<and> cp_row cp + cp_len cp \<le> block_size"

definition slots_of :: "kv_copy list \<Rightarrow> slot set" where
  "slots_of cps = (\<Union>cp \<in> set cps. copy_slots cp)"

lemma usage_of_set [simp]: "usage_of (set_usage u c) = u"
  by (simp add: usage_of_def set_usage_def um_index_value um_laws)

lemma block_tables_set_usage [simp]: "block_tables (set_usage u c) = block_tables c"
  by (simp add: set_usage_def)

lemma usage_of_set_block [simp]: "usage_of (set_block l i b c) = usage_of c"
  by (simp add: usage_of_def set_block_def)

lemma usage_of_tables [simp]: "usage_of (c\<lparr>block_tables := ts\<rparr>) = usage_of c"
  by (simp add: usage_of_def)

section \<open>Allocation\<close>

lemma alloc_scan_eq:
  assumes "length (blocks t) = i + length us"
  shows "alloc_scan t i us =
    (if False \<in> set us then
       let k = i + length (takeWhile (\<lambda>u. u) us) in
       Inr (int k, t\<lparr>used := (used t)[k := True],
         blocks := (blocks t)[k := \<lparr>seq_id = - 1, start_pos = 0, num_entries = 0\<rparr>]\<rparr>)
     else Inr (- 1, t))"
  using assms by (induction us arbitrary: i) (auto simp: Let_def)

lemma takeWhile_first:
  "False \<in> set us \<Longrightarrow> length (takeWhile (\<lambda>u. u) us) < length us \<and> \<not> us ! length (takeWhile (\<lambda>u. u) us)"
  by (induction us) auto

lemma unused_update:
  "k < length us \<Longrightarrow> \<not> us ! k \<Longrightarrow> length (filter Not us) = Suc (length (filter Not (us[k := True])))"
  by (induction us arbitrary: k) (auto split: nat.splits)

section \<open>One round\<close>

text \<open>
  The block picked has room, and picking it changes neither what is occupied nor the usage.
  \<open>gain\<close> is what the round loses of the free blocks.
\<close>

lemma pick_block_ok:
  assumes ok: "layer_ok c l" and room: "0 < room c l"
  obtains b c1 where "pick_block c l = Inr (int b, c1)" "layer_ok c1 l" "occupied c1 l = occupied c l"
    "usage_of c1 = usage_of c" "length (block_tables c1) = length (block_tables c)"
    "length (blocks (block_tables c1 ! l)) = length (blocks (block_tables c ! l))"
    "b < length (blocks (block_tables c ! l))" "used (block_tables c1 ! l) ! b"
    "num_entries (blocks (block_tables c1 ! l) ! b) < block_size"
    "room c l = block_size - num_entries (blocks (block_tables c1 ! l) ! b)
      + block_size * int (length (filter Not (used (block_tables c1 ! l))))"
proof -
  let ?t = "block_tables c ! l" and ?bl = "block_list (usage_of c)"
  from ok have l: "l < length (block_tables c)" and len: "length (used ?t) = length (blocks ?t)"
    and ne: "\<And>b. b < length (blocks ?t) \<Longrightarrow> used ?t ! b \<Longrightarrow>
      0 \<le> num_entries (blocks ?t ! b) \<and> num_entries (blocks ?t ! b) \<le> block_size"
    and bl: "\<And>i. i \<in> set ?bl \<Longrightarrow> 0 \<le> i \<and> nat i < length (blocks ?t) \<and> used ?t ! nat i"
    by (auto simp: layer_ok_def Let_def)
  show ?thesis
  proof (cases "?bl \<noteq> [] \<and> num_entries (blocks ?t ! nat (last ?bl)) < block_size")
    case True
    with bl [of "last ?bl"] have last: "0 \<le> last ?bl" "nat (last ?bl) < length (blocks ?t)"
      "used ?t ! nat (last ?bl)" by auto
    then have "pick_block c l = Inr (int (nat (last ?bl)), c)"
      using l True int_at_in [of "nat (last ?bl)" "blocks ?t"] by (simp add: pick_block_def Let_def)
    then show ?thesis
      using that [of "nat (last ?bl)" c] ok last True by (simp add: room_def Let_def)
  next
    case False
    have full: "num_entries (blocks ?t ! nat (last ?bl)) = block_size" if "?bl \<noteq> []"
      using False bl [of "last ?bl"] ne [of "nat (last ?bl)"] that by force
    with room have "filter Not (used ?t) \<noteq> []"
      by (auto simp: room_def Let_def block_size_def split: if_splits)
    then have un: "False \<in> set (used ?t)" by (force simp: filter_empty_conv)
    let ?k = "length (takeWhile (\<lambda>u. u) (used ?t))"
    let ?t' = "?t\<lparr>used := (used ?t)[?k := True],
      blocks := (blocks ?t)[?k := \<lparr>seq_id = - 1, start_pos = 0, num_entries = 0\<rparr>]\<rparr>"
    let ?c = "c\<lparr>block_tables := (block_tables c)[l := ?t']\<rparr>"
    note k = takeWhile_first [OF un]
    have "alloc_block c l = Inr (int ?k, ?c)"
      using l un len by (simp add: alloc_block_def alloc_scan_eq Let_def)
    moreover have "(if ?bl \<noteq> [] then rbind (int_at (blocks ?t) (last ?bl))
        (\<lambda>b. Inr (if num_entries b < block_size then last ?bl else - 1)) else Inr (- 1)) = Inr (- 1)"
      using False bl [of "last ?bl"] int_at_in [of "nat (last ?bl)" "blocks ?t"] by auto
    ultimately have "pick_block c l = Inr (int ?k, ?c)"
      unfolding pick_block_def Let_def by (simp only: vec_at_in [OF l] rbind_Inr if_True simp_thms)
    moreover have "layer_ok ?c l"
      using l len ne bl k by (auto simp: layer_ok_def Let_def nth_list_update block_size_def)
    moreover have "occupied ?c l = occupied c l"
      using l len k by (auto simp: occupied_def Let_def nth_list_update split: if_splits)
    moreover have "room c l = block_size * int (length (filter Not (used ?t)))"
      using full by (simp add: room_def Let_def)
    ultimately show ?thesis
      using that l len k unused_update [of ?k "used ?t"] by (simp add: block_size_def)
  qed
qed

lemma pick_block_full:
  assumes ok: "layer_ok c l" and room: "room c l \<le> 0"
  shows "pick_block c l = Inr (- 1, c)"
proof -
  let ?t = "block_tables c ! l" and ?bl = "block_list (usage_of c)"
  from ok have l: "l < length (block_tables c)" and len: "length (used ?t) = length (blocks ?t)"
    and ne: "\<And>b. b < length (blocks ?t) \<Longrightarrow> used ?t ! b \<Longrightarrow> num_entries (blocks ?t ! b) \<le> block_size"
    and bl: "\<And>i. i \<in> set ?bl \<Longrightarrow> 0 \<le> i \<and> nat i < length (blocks ?t) \<and> used ?t ! nat i"
    by (auto simp: layer_ok_def Let_def)
  have last: "num_entries (blocks ?t ! nat (last ?bl)) \<le> block_size" if "?bl \<noteq> []"
    using bl [of "last ?bl"] ne [of "nat (last ?bl)"] that by force
  define free where "free = length (filter Not (used ?t))"
  have "free = 0 \<and> (?bl \<noteq> [] \<longrightarrow> \<not> num_entries (blocks ?t ! nat (last ?bl)) < block_size)"
    using room last unfolding room_def Let_def free_def [symmetric] block_size_def
    by (cases "?bl = []") auto
  then have "filter Not (used ?t) = []" and full: "?bl \<noteq> [] \<Longrightarrow> \<not> num_entries (blocks ?t ! nat (last ?bl)) < block_size"
    unfolding free_def by auto
  then have "False \<notin> set (used ?t)" by (force simp: filter_empty_conv)
  then have "alloc_block c l = Inr (- 1, c)"
    using l len by (simp add: alloc_block_def alloc_scan_eq)
  with l full bl [of "last ?bl"] int_at_in [of "nat (last ?bl)" "blocks ?t"] show ?thesis
    by (auto simp: pick_block_def Let_def)
qed

text \<open>What a round writes, as a function of the block it picked.\<close>

definition round :: "nat \<Rightarrow> nat \<Rightarrow> kv_cache \<Rightarrow> int \<Rightarrow> kv_cache" where
  "round l b c len =
     (let usage = usage_of c; blk = blocks (block_tables c ! l) ! b in
      set_usage (usage\<lparr>block_list := block_list usage @ [int b]\<rparr>)
        (set_block l (int b) (blk\<lparr>start_pos := seq_len usage, seq_id := 0,
           num_entries := num_entries blk + len\<rparr>) c))"

lemma round_ok:
  assumes ok: "layer_ok c l" and b: "b < length (blocks (block_tables c ! l))"
    and u: "used (block_tables c ! l) ! b"
    and len: "0 < len" "num_entries (blocks (block_tables c ! l) ! b) + len \<le> block_size"
  shows "layer_ok (round l b c len) l"
    and "occupied (round l b c len) l = occupied c l
      \<union> {b} \<times> {num_entries (blocks (block_tables c ! l) ! b)
          ..<num_entries (blocks (block_tables c ! l) ! b) + len}"
    and "length (blocks (block_tables (round l b c len) ! l)) = length (blocks (block_tables c ! l))"
    and "length (block_tables (round l b c len)) = length (block_tables c)"
    and "seq_len (usage_of (round l b c len)) = seq_len (usage_of c)"
    and "room (round l b c len) l = block_size - num_entries (blocks (block_tables c ! l) ! b)
      + block_size * int (length (filter Not (used (block_tables c ! l)))) - len"
proof -
  let ?t = "block_tables c ! l" and ?bl = "block_list (usage_of c)"
  let ?blk = "blocks ?t ! b"
  let ?new = "?blk\<lparr>start_pos := seq_len (usage_of c), seq_id := 0,
    num_entries := num_entries ?blk + len\<rparr>"
  from ok have l: "l < length (block_tables c)" and lenu: "length (used ?t) = length (blocks ?t)"
    and ne: "\<And>b. b < length (blocks ?t) \<Longrightarrow> used ?t ! b \<Longrightarrow>
      0 \<le> num_entries (blocks ?t ! b) \<and> num_entries (blocks ?t ! b) \<le> block_size"
    and bl: "\<And>i. i \<in> set ?bl \<Longrightarrow> 0 \<le> i \<and> nat i < length (blocks ?t) \<and> used ?t ! nat i"
    by (auto simp: layer_ok_def Let_def)
  have tab: "block_tables (round l b c len) = (block_tables c)[l := ?t\<lparr>blocks := (blocks ?t)[b := ?new]\<rparr>]"
    by (simp add: round_def set_block_def Let_def)
  have use: "usage_of (round l b c len) = (usage_of c)\<lparr>block_list := ?bl @ [int b]\<rparr>"
    by (simp add: round_def Let_def)
  note num = ne [OF b u]
  show "layer_ok (round l b c len) l"
    unfolding layer_ok_def tab use using l lenu ne bl b u len num
    by (auto simp: Let_def nth_list_update)
  show "occupied (round l b c len) l = occupied c l \<union> {b} \<times> {num_entries ?blk..<num_entries ?blk + len}"
    unfolding occupied_def tab using l b u num len by (auto simp: Let_def nth_list_update split: if_splits)
  show "length (blocks (block_tables (round l b c len) ! l)) = length (blocks ?t)"
    and "length (block_tables (round l b c len)) = length (block_tables c)"
    and "seq_len (usage_of (round l b c len)) = seq_len (usage_of c)"
    using l by (simp_all add: tab use)
  show "room (round l b c len) l = block_size - num_entries ?blk
      + block_size * int (length (filter Not (used ?t))) - len"
    unfolding room_def tab use using l b by (simp add: Let_def)
qed

section \<open>The loop\<close>

lemma write_loop_step:
  assumes "pick_block c l = Inr (int b, c1)" and "l < length (block_tables c1)"
    and "b < length (blocks (block_tables c1 ! l))" and "stored < int n" and "0 \<le> stored" and "n < 2 ^ 31"
    and "0 \<le> num_entries (blocks (block_tables c1 ! l) ! b)"
    and "len = min (block_size - num_entries (blocks (block_tables c1 ! l) ! b)) (int n - stored)"
  shows "write_loop l n c stored copies = write_loop l n (round l b c1 len) (stored + len)
    (copies @ [\<lparr>cp_layer = l, cp_block = int b,
      cp_row = num_entries (blocks (block_tables c1 ! l) ! b), cp_src = stored, cp_len = len\<rparr>])"
proof -
  have "wrap32 (int n - stored) = int n - stored"
    using assms(4-6) by (intro wrap32_id) auto
  moreover have "\<not> 2 ^ 31 \<le> stored + len" using assms(4-8) by auto
  ultimately show ?thesis
    using assms(1-4,8) by (subst write_loop.simps) (simp add: round_def Let_def)
qed

lemma write_loop_full:
  assumes "layer_ok c l" and "room c l \<le> 0" and "stored < int n"
  shows "write_loop l n c stored copies = Some (Inl IndexOutOfRange)"
  using assms pick_block_full [OF assms(1,2)]
  by (subst write_loop.simps) (simp add: layer_ok_def)

lemma write_loop_ok:
  assumes "n < 2 ^ 31" and "layer_ok c l" and "0 \<le> stored" and "stored \<le> int n"
  shows "if int n - stored \<le> room c l \<or> stored = int n then
      \<exists>c' cps. write_loop l n c stored copies = Some (Inr (int n, c', copies @ cps))
        \<and> layer_ok c' l \<and> length (block_tables c') = length (block_tables c)
        \<and> seq_len (usage_of c') = seq_len (usage_of c)
        \<and> tiles stored cps (int n) \<and> fresh (occupied c l) cps
        \<and> list_all (in_bounds (length (blocks (block_tables c ! l)))) cps
        \<and> occupied c' l = occupied c l \<union> slots_of cps
    else write_loop l n c stored copies = Some (Inl IndexOutOfRange)"
  using assms(2-4)
proof (induction "nat (int n - stored)" arbitrary: c stored copies rule: less_induct)
  case less
  consider (finished) "stored = int n" | (full) "stored < int n" "room c l \<le> 0"
    | (go) "stored < int n" "0 < room c l" using less.prems(3) by linarith
  then show ?case
  proof cases
    case finished
    then show ?thesis using less.prems by (subst write_loop.simps) (simp add: slots_of_def)
  next
    case full
    with less.prems show ?thesis by (simp add: write_loop_full)
  next
    case go
    from pick_block_ok [OF less.prems(1) go(2)] obtain b c1 where
      p: "pick_block c l = Inr (int b, c1)" and c1: "layer_ok c1 l" "occupied c1 l = occupied c l"
        "usage_of c1 = usage_of c" "length (block_tables c1) = length (block_tables c)"
        "length (blocks (block_tables c1 ! l)) = length (blocks (block_tables c ! l))"
      and b: "b < length (blocks (block_tables c ! l))" "used (block_tables c1 ! l) ! b"
        "num_entries (blocks (block_tables c1 ! l) ! b) < block_size"
      and rm: "room c l = block_size - num_entries (blocks (block_tables c1 ! l) ! b)
        + block_size * int (length (filter Not (used (block_tables c1 ! l))))" by blast
    let ?r = "num_entries (blocks (block_tables c1 ! l) ! b)"
    define len where "len = min (block_size - ?r) (int n - stored)"
    let ?cp = "\<lparr>cp_layer = l, cp_block = int b, cp_row = ?r, cp_src = stored, cp_len = len\<rparr>"
    let ?c2 = "round l b c1 len"
    from c1(1,5) b have r: "0 \<le> ?r" and l: "l < length (block_tables c1)"
      by (auto simp: layer_ok_def Let_def)
    have len: "0 < len" "?r + len \<le> block_size" "stored + len \<le> int n"
      using b(3) go(1) by (auto simp: len_def)
    have b1: "b < length (blocks (block_tables c1 ! l))" using b(1) c1(5) by simp
    note step = write_loop_step [OF p l b1 go(1) less.prems(2) assms(1) r len_def]
    note c2 = round_ok [OF c1(1) b1 b(2) len(1,2)]
    have slots: "copy_slots ?cp = {b} \<times> {?r..<?r + len}" by (simp add: copy_slots_def)
    have new: "copy_slots ?cp \<inter> occupied c l = {}"
      unfolding slots c1(2) [symmetric] by (auto simp: occupied_def Let_def)
    have occ: "occupied ?c2 l = occupied c l \<union> copy_slots ?cp" using c2(2) c1(2) slots by simp
    have room2: "room ?c2 l = room c l - len" using c2(6) rm by simp
    have "nat (int n - (stored + len)) < nat (int n - stored)" using len(1) go(1) by simp
    note IH = less.hyps [OF this c2(1) _ len(3), of "copies @ [?cp]"]
    have cases: "int n - (stored + len) \<le> room ?c2 l \<or> stored + len = int n
      \<longleftrightarrow> int n - stored \<le> room c l \<or> stored = int n"
    proof -
      have "0 \<le> block_size * int (length (filter Not (used (block_tables c1 ! l))))"
        by (simp add: block_size_def)
      then show ?thesis using room2 go(1) rm b(3) unfolding len_def by linarith
    qed
    have bound: "in_bounds (length (blocks (block_tables c ! l))) ?cp"
      using b(1) r len(2) by (simp add: in_bounds_def)
    show ?thesis
    proof (cases "int n - stored \<le> room c l \<or> stored = int n")
      case True
      with IH cases less.prems(2) len(1) obtain c' cps where
        "write_loop l n ?c2 (stored + len) (copies @ [?cp]) = Some (Inr (int n, c', (copies @ [?cp]) @ cps))"
        "layer_ok c' l" "length (block_tables c') = length (block_tables c)"
        "seq_len (usage_of c') = seq_len (usage_of c)"
        "tiles (stored + len) cps (int n)" "fresh (occupied ?c2 l) cps"
        "list_all (in_bounds (length (blocks (block_tables c ! l)))) cps"
        "occupied c' l = occupied ?c2 l \<union> slots_of cps"
        using c1(3-5) c2(3-5) by auto
      then have "write_loop l n c stored copies = Some (Inr (int n, c', copies @ (?cp # cps)))
        \<and> layer_ok c' l \<and> length (block_tables c') = length (block_tables c)
        \<and> seq_len (usage_of c') = seq_len (usage_of c)
        \<and> tiles stored (?cp # cps) (int n) \<and> fresh (occupied c l) (?cp # cps)
        \<and> list_all (in_bounds (length (blocks (block_tables c ! l)))) (?cp # cps)
        \<and> occupied c' l = occupied c l \<union> slots_of (?cp # cps)"
        using step new occ bound len(1) by (auto simp: slots_of_def)
      with True show ?thesis by auto
    next
      case False
      with IH cases less.prems(2) len(1) step show ?thesis by auto
    qed
  qed
qed

end
