(* ===== verification/KV_Views.thy ===== *)
theory KV_Views
  imports KV_Cache_Facts
begin

text \<open>
  Where the copies of \<open>write_kv\<close> (\<open>src/kv_cache/cache.cpp\<close>) go in memory: the two-dimensional views
  of the new keys or values and of the cache tensor that every copy is made of, by their byte
  offsets, and the rows they cover.
\<close>

section \<open>Views\<close>

text \<open>
  The strides the code reads: \<open>nb[1]\<close> and \<open>nb[2]\<close> of the cache tensor, whose rows and blocks they
  are, \<open>nb[2]\<close> of the new tensor, and the size \<open>ggml_row_size\<close> gives for one of its tokens. Keys
  and values have strides of their own.
\<close>

record kv_strides =
  e_nb1 :: nat
  e_nb2 :: nat
  n_nb2 :: nat
  n_row :: nat

record kv_view =
  v_cols :: int
  v_rows :: int
  v_stride :: nat
  v_offset :: nat

text \<open>\<open>seq_id\<close> is zero; block, row and source token are not negative.\<close>

definition dst_view :: "kv_strides \<Rightarrow> kv_cache \<Rightarrow> kv_copy \<Rightarrow> kv_view" where
  "dst_view S c cp = \<lparr>v_cols = d_head c * n_kv c, v_rows = cp_len cp, v_stride = e_nb1 S,
     v_offset = nat (cp_block cp) * e_nb2 S + nat (cp_row cp) * e_nb1 S\<rparr>"

definition src_view :: "kv_strides \<Rightarrow> kv_cache \<Rightarrow> kv_copy \<Rightarrow> kv_view" where
  "src_view S c cp = \<lparr>v_cols = d_head c * n_kv c, v_rows = cp_len cp, v_stride = n_row S,
     v_offset = nat (cp_src cp) * n_nb2 S\<rparr>"

section \<open>Rows\<close>

text \<open>The byte offsets of the rows of a view; tensors without padding.\<close>

definition row_offsets :: "kv_view \<Rightarrow> nat list" where
  "row_offsets v = map (\<lambda>k. v_offset v + k * v_stride v) [0..<nat (v_rows v)]"

definition packed :: "kv_strides \<Rightarrow> bool" where
  "packed S \<longleftrightarrow> 0 < e_nb1 S \<and> e_nb2 S = nat block_size * e_nb1 S \<and> n_nb2 S = n_row S"

lemma tiles_le: "tiles (int a) cps (int e) \<Longrightarrow> a \<le> e"
proof (induction cps arbitrary: a)
  case (Cons cp cps)
  then have "tiles (int (a + nat (cp_len cp))) cps (int e)" by simp
  from Cons.IH [OF this] show ?case by simp
qed simp

lemma src_rows_from:
  assumes "packed S" and "tiles (int a) cps (int e)"
  shows "concat (map (row_offsets \<circ> src_view S c) cps) = map (\<lambda>k. k * n_row S) [a..<e]"
  using assms(2)
proof (induction cps arbitrary: a)
  case (Cons cp cps)
  let ?l = "nat (cp_len cp)"
  from Cons.prems have cp: "cp_src cp = int a" "cp_len cp = int ?l" "tiles (int (a + ?l)) cps (int e)"
    by auto
  have "a + ?l \<le> e" using cp(3) by (rule tiles_le)
  then have "[a..<e] = [a..<a + ?l] @ [a + ?l..<e]" by (metis le_add1 upt_add_eq_append le_iff_add)
  moreover have "row_offsets (src_view S c cp) = map (\<lambda>k. k * n_row S) [a..<a + ?l]"
    using assms(1) cp(1)
    by (simp add: row_offsets_def src_view_def packed_def list_eq_iff_nth_eq add_mult_distrib)
  ultimately show ?case using Cons.IH [OF cp(3)] by simp
qed simp

lemmas src_rows = src_rows_from [where a = 0, simplified]

text \<open>A destination row is the number of its slot times the size of a row.\<close>

definition slot_number :: "slot \<Rightarrow> nat" where
  "slot_number = (\<lambda>(b, r). b * nat block_size + nat r)"

lemma slot_number_inj:
  assumes "0 \<le> r" "r < block_size" "0 \<le> r'" "r' < block_size"
    and "slot_number (b, r) = slot_number (b', r')"
  shows "b = b' \<and> r = r'"
proof -
  from assms have "b * 16 + nat r = b' * 16 + nat r'" "nat r < 16" "nat r' < 16"
    by (auto simp: slot_number_def block_size_def)
  from arg_cong [OF this(1), of "\<lambda>x. x div 16"] this(2,3) have "b = b'" by simp
  then have "nat r = nat r'" using \<open>b * 16 + nat r = b' * 16 + nat r'\<close> by simp
  with \<open>b = b'\<close> assms(1,3) show ?thesis by auto
qed

lemma dst_row:
  assumes "packed S" and "0 \<le> cp_row cp" and "0 \<le> cp_block cp"
  shows "row_offsets (dst_view S c cp)
    = map (\<lambda>k. slot_number (nat (cp_block cp), cp_row cp + int k) * e_nb1 S) [0..<nat (cp_len cp)]"
  using assms
  by (simp add: row_offsets_def dst_view_def packed_def slot_number_def nat_add_distrib algebra_simps)

lemma dst_row_slot:
  assumes "packed S" and "in_bounds m cp" and "a \<in> set (row_offsets (dst_view S c cp))"
  obtains b r where "(b, r) \<in> copy_slots cp" "0 \<le> r" "r < block_size" "b < m"
    "a = slot_number (b, r) * e_nb1 S"
proof -
  from assms(2) have cp: "0 \<le> cp_block cp" "nat (cp_block cp) < m" "0 \<le> cp_row cp"
    "cp_row cp + cp_len cp \<le> block_size" by (auto simp: in_bounds_def)
  from assms(3) obtain k where k: "k < nat (cp_len cp)"
    "a = slot_number (nat (cp_block cp), cp_row cp + int k) * e_nb1 S"
    by (auto simp: dst_row [OF assms(1) cp(3,1)])
  then show ?thesis using cp
    by (intro that [of "nat (cp_block cp)" "cp_row cp + int k"]) (auto simp: copy_slots_def)
qed

lemma dst_rows_inside:
  assumes "packed S" and "list_all (in_bounds m) cps"
  shows "list_all (\<lambda>cp. list_all (\<lambda>a. a + e_nb1 S \<le> m * e_nb2 S) (row_offsets (dst_view S c cp))) cps"
proof (unfold list_all_iff, intro ballI)
  fix cp a assume "cp \<in> set cps" and a: "a \<in> set (row_offsets (dst_view S c cp))"
  with assms(2) have "in_bounds m cp" by (simp add: list_all_iff)
  from dst_row_slot [OF assms(1) this a] obtain b r where
    "0 \<le> r" "r < block_size" "b < m" "a = slot_number (b, r) * e_nb1 S" by metis
  moreover from this have "slot_number (b, r) + 1 \<le> m * nat block_size"
    by (simp add: slot_number_def block_size_def)
  then have "(slot_number (b, r) + 1) * e_nb1 S \<le> m * nat block_size * e_nb1 S" by (rule mult_le_mono1)
  ultimately show "a + e_nb1 S \<le> m * e_nb2 S" using assms(1) by (simp add: packed_def mult.assoc)
qed

lemma dst_view_distinct:
  assumes "packed S" and "in_bounds m cp"
  shows "distinct (row_offsets (dst_view S c cp))"
proof -
  have "0 \<le> cp_row cp" "0 \<le> cp_block cp" using assms(2) by (auto simp: in_bounds_def)
  then show ?thesis using assms(1)
    by (auto simp: dst_row distinct_map inj_on_def slot_number_def packed_def nat_add_distrib)
qed

lemma dst_rows_distinct_aux:
  assumes "packed S" and "fresh occ cps" and "list_all (in_bounds m) cps"
  shows "distinct (concat (map (row_offsets \<circ> dst_view S c) cps)) \<and>
    (\<forall>a \<in> set (concat (map (row_offsets \<circ> dst_view S c) cps)). \<exists>b r. (b, r) \<notin> occ \<and> 0 \<le> r \<and>
      r < block_size \<and> a = slot_number (b, r) * e_nb1 S)"
  using assms(2,3)
proof (induction cps arbitrary: occ)
  case (Cons cp cps)
  from Cons.prems have cp: "in_bounds m cp" "copy_slots cp \<inter> occ = {}" by auto
  from Cons.prems have "fresh (occ \<union> copy_slots cp) cps" "list_all (in_bounds m) cps" by auto
  note rest = Cons.IH [OF this]
  from rest have IH: "distinct (concat (map (row_offsets \<circ> dst_view S c) cps))"
    "\<And>a. a \<in> set (concat (map (row_offsets \<circ> dst_view S c) cps)) \<Longrightarrow>
      \<exists>b r. (b, r) \<notin> occ \<union> copy_slots cp \<and> 0 \<le> r \<and> r < block_size \<and> a = slot_number (b, r) * e_nb1 S"
    by blast+
  have apart: "a \<notin> set (concat (map (row_offsets \<circ> dst_view S c) cps))"
    if a: "a \<in> set (row_offsets (dst_view S c cp))" for a
  proof
    assume "a \<in> set (concat (map (row_offsets \<circ> dst_view S c) cps))"
    from IH(2) [OF this] obtain b r where br: "(b, r) \<notin> copy_slots cp" "0 \<le> r" "r < block_size"
      "a = slot_number (b, r) * e_nb1 S" by blast
    from dst_row_slot [OF assms(1) cp(1) a] obtain b' r' where
      br': "(b', r') \<in> copy_slots cp" "0 \<le> r'" "r' < block_size" "a = slot_number (b', r') * e_nb1 S"
      by metis
    from br(4) br'(4) assms(1) have "slot_number (b, r) = slot_number (b', r')"
      by (simp add: packed_def)
    with slot_number_inj [OF br(2,3) br'(2,3)] br(1) br'(1) show False by blast
  qed
  have free: "\<exists>b r. (b, r) \<notin> occ \<and> 0 \<le> r \<and> r < block_size \<and> a = slot_number (b, r) * e_nb1 S"
    if "a \<in> set (row_offsets (dst_view S c cp))" for a
    using dst_row_slot [OF assms(1) cp(1) that] cp(2) by (metis disjoint_iff)
  have split: "concat (map (row_offsets \<circ> dst_view S c) (cp # cps))
      = row_offsets (dst_view S c cp) @ concat (map (row_offsets \<circ> dst_view S c) cps)" by simp
  have "distinct (concat (map (row_offsets \<circ> dst_view S c) (cp # cps)))"
    unfolding split distinct_append using IH(1) dst_view_distinct [OF assms(1) cp(1), of c] apart
    by blast
  moreover have "\<exists>b r. (b, r) \<notin> occ \<and> 0 \<le> r \<and> r < block_size \<and> a = slot_number (b, r) * e_nb1 S"
    if "a \<in> set (concat (map (row_offsets \<circ> dst_view S c) (cp # cps)))" for a
    using that free IH(2) [of a] unfolding split set_append by blast
  ultimately show ?case by blast
qed simp

lemma dst_rows_distinct:
  "packed S \<Longrightarrow> fresh occ cps \<Longrightarrow> list_all (in_bounds m) cps \<Longrightarrow>
    distinct (concat (map (row_offsets \<circ> dst_view S c) cps))"
  using dst_rows_distinct_aux by blast

section \<open>A write\<close>

lemma write_kv_ok:
  assumes "layer_ok c l" and "int n \<le> room c l" and "n < 2 ^ 31"
    and "seq_len (usage_of c) + int n < 2 ^ 31"
  shows "\<exists>c' cps. write_kv c l n = Some (Inr (c', cps))
    \<and> layer_ok c' l
    \<and> tiles 0 cps (int n)
    \<and> fresh (occupied c l) cps
    \<and> list_all (in_bounds (length (blocks (block_tables c ! l)))) cps
    \<and> occupied c' l = occupied c l \<union> slots_of cps
    \<and> seq_len (usage_of c') = seq_len (usage_of c) + int n"
proof -
  let ?c = "set_usage (usage_of c) c"
  have same: "layer_ok ?c l = layer_ok c l" "room ?c l = room c l" "occupied ?c l = occupied c l"
    by (simp_all add: layer_ok_def room_def occupied_def)
  with assms have "layer_ok ?c l" "int n - 0 \<le> room ?c l" by auto
  with write_loop_ok [of n ?c l 0 "[]"] assms(3) obtain c' cps where
    w: "write_loop l n ?c 0 [] = Some (Inr (int n, c', cps))" "layer_ok c' l"
      "seq_len (usage_of c') = seq_len (usage_of c)" "tiles 0 cps (int n)" "fresh (occupied c l) cps"
      "list_all (in_bounds (length (blocks (block_tables c ! l)))) cps"
      "occupied c' l = occupied c l \<union> slots_of cps"
    using same by auto
  let ?u = "(usage_of c')\<lparr>seq_len := seq_len (usage_of c') + int n\<rparr>"
  have "write_kv c l n = Some (Inr (set_usage ?u c', cps))"
    using w assms by (simp add: write_kv_def layer_ok_def Let_def)
  moreover have "layer_ok (set_usage ?u c') l" "occupied (set_usage ?u c') l = occupied c' l"
    using w(2) by (simp_all add: layer_ok_def occupied_def)
  ultimately show ?thesis using w by auto
qed

end
