(* ===== verification/KV_Properties.thy ===== *)
theory KV_Properties
  imports KV_Views
begin

text \<open>
  The properties of the key/value cache: what a write does on one layer, what happens when
  the blocks run out, and where sharing the usage record between layers goes wrong.
\<close>

definition fresh_table :: "nat \<Rightarrow> kv_table" where
  "fresh_table n = \<lparr>blocks = replicate n \<lparr>seq_id = 0, start_pos = 0, num_entries = 0\<rparr>,
     used = replicate n False\<rparr>"

definition fresh_cache :: "nat \<Rightarrow> nat \<Rightarrow> kv_cache" where
  "fresh_cache n_layers n = (kv_new (16 * int n) (int n_layers) 1 1)
     \<lparr>block_tables := replicate n_layers (fresh_table n)\<rparr>"

lemma fresh_cache_ok:
  "l < n_layers \<Longrightarrow> layer_ok (fresh_cache n_layers n) l \<and> room (fresh_cache n_layers n) l = 16 * int n"
  by (auto simp: layer_ok_def room_def fresh_cache_def fresh_table_def kv_new_def usage_of_def
      um_index_def block_size_def Let_def)

text \<open>
  C8: a write stores each new token once, in a row nothing else uses. If the layer has room,
  \<open>write_kv\<close> returns; its copies take the tokens in order and without gaps into rows that were
  free, pairwise different and inside the blocks, the rows in use afterwards are the old ones
  and these, and the sequence grows by the number of tokens.
\<close>

theorem write_kv_places_rows:
  assumes "layer_ok c l" and "int n \<le> room c l" and "n < 2 ^ 31"
    and "seq_len (usage_of c) + int n < 2 ^ 31"
  shows "\<exists>c' cps. write_kv c l n = Some (Inr (c', cps))
    \<and> layer_ok c' l
    \<and> tiles 0 cps (int n)
    \<and> fresh (occupied c l) cps
    \<and> list_all (in_bounds (length (blocks (block_tables c ! l)))) cps
    \<and> occupied c' l = occupied c l \<union> slots_of cps
    \<and> seq_len (usage_of c') = seq_len (usage_of c) + int n"
  by (rule write_kv_ok [OF assms])

theorem write_kv_places_rows_witness:
  "\<exists>c' cps. write_kv (fresh_cache 1 3) 0 20 = Some (Inr (c', cps))
    \<and> layer_ok c' 0 \<and> tiles 0 cps (int 20) \<and> fresh (occupied (fresh_cache 1 3) 0) cps
    \<and> list_all (in_bounds (length (blocks (block_tables (fresh_cache 1 3) ! 0)))) cps
    \<and> occupied c' 0 = occupied (fresh_cache 1 3) 0 \<union> slots_of cps
    \<and> seq_len (usage_of c') = seq_len (usage_of (fresh_cache 1 3)) + int 20"
  using fresh_cache_ok [of 0 1 3]
  by (intro write_kv_places_rows) (simp_all add: fresh_cache_def kv_new_def usage_of_def um_index_def)

text \<open>
  C9: the copies stay inside the tensors and do not touch each other's bytes. With room for the new
  tokens, in a cache tensor of rows without padding and new keys or values without padding, the
  source views cover the new tensor row by row in order, and the destination rows lie inside the
  cache tensor at pairwise different addresses.
\<close>

theorem write_kv_in_memory:
  assumes "layer_ok c l" and "int n \<le> room c l" and "n < 2 ^ 31"
    and "seq_len (usage_of c) + int n < 2 ^ 31" and "packed S"
  shows "\<exists>c' cps. write_kv c l n = Some (Inr (c', cps)) \<and>
    concat (map (row_offsets \<circ> src_view S c) cps) = map (\<lambda>k. k * n_row S) [0..<n] \<and>
    distinct (concat (map (row_offsets \<circ> dst_view S c) cps)) \<and>
    list_all (\<lambda>cp. list_all (\<lambda>a. a + e_nb1 S \<le> length (blocks (block_tables c ! l)) * e_nb2 S)
      (row_offsets (dst_view S c cp))) cps"
proof -
  from write_kv_ok [OF assms(1-4)] obtain c' cps where w: "write_kv c l n = Some (Inr (c', cps))"
    "tiles 0 cps (int n)" "fresh (occupied c l) cps"
    "list_all (in_bounds (length (blocks (block_tables c ! l)))) cps" by blast
  from src_rows [OF assms(5) w(2)] dst_rows_distinct [OF assms(5) w(3,4)] dst_rows_inside [OF assms(5) w(4)]
  show ?thesis using w(1) by auto
qed

definition demo_strides :: kv_strides where
  "demo_strides = \<lparr>e_nb1 = 256, e_nb2 = 4096, n_nb2 = 512, n_row = 512\<rparr>"

theorem write_kv_in_memory_witness:
  "\<exists>c' cps. write_kv (fresh_cache 1 3) 0 20 = Some (Inr (c', cps)) \<and>
    concat (map (row_offsets \<circ> src_view demo_strides (fresh_cache 1 3)) cps) = map (\<lambda>k. k * 512) [0..<20] \<and>
    distinct (concat (map (row_offsets \<circ> dst_view demo_strides (fresh_cache 1 3)) cps))"
proof -
  have "int 20 \<le> room (fresh_cache 1 3) 0" "seq_len (usage_of (fresh_cache 1 3)) + int 20 < 2 ^ 31"
    using fresh_cache_ok [of 0 1 3] by (simp_all add: fresh_cache_def kv_new_def usage_of_def um_index_def)
  moreover have "packed demo_strides" by (simp add: packed_def demo_strides_def block_size_def)
  ultimately show ?thesis
    using write_kv_in_memory [of "fresh_cache 1 3" 0 20 demo_strides] fresh_cache_ok [of 0 1 3]
    by (auto simp: demo_strides_def)
qed

text \<open>
  C35: nothing handles a full cache: when the new tokens exceed the room, the block id is
  \<open>-1\<close> and the code indexes the block vector with it.
\<close>

theorem write_kv_full_out_of_range:
  assumes "layer_ok c l" and "room c l < int n" and "0 < n" and "n < 2 ^ 31"
  shows "write_kv c l n = Some (Inl IndexOutOfRange)"
proof -
  let ?c = "set_usage (usage_of c) c"
  have "layer_ok ?c l = layer_ok c l" "room ?c l = room c l"
    by (simp_all add: layer_ok_def room_def)
  with write_loop_ok [of n ?c l 0 "[]"] assms show ?thesis
    by (simp add: write_kv_def layer_ok_def)
qed

theorem write_kv_full_out_of_range_witness:
  "write_kv (fresh_cache 1 3) 0 49 = Some (Inl IndexOutOfRange)"
  using fresh_cache_ok [of 0 1 3] by (intro write_kv_full_out_of_range) simp_all

text \<open>
  Initialisation reads past the end of \<open>block_tables_\<close>, which was only reserved, for every
  model with at least one layer.
\<close>

theorem kv_init_out_of_range:
  assumes "n_blocks \<noteq> 0"
  shows "kv_init None len n_blocks nkv dhead = Inl IndexOutOfRange"
proof -
  obtain k where "unat n_blocks = Suc k" using assms by (metis not0_implies_Suc unat_eq_zero)
  then show ?thesis by (simp add: kv_init_def kv_new_def Let_def)
qed

theorem kv_init_out_of_range_witness:
  "kv_init None 4096 28 4 128 = Inl IndexOutOfRange"
  by (rule kv_init_out_of_range) simp



text \<open>
  \<open>start_pos\<close> is not the position of a block's first token: after a prompt of 20 tokens
  the second block, whose first row holds token 16, still has start position 0.
\<close>

theorem start_pos_stale:
  "case write_kv (fresh_cache 1 2) 0 20 of
    Some (Inr (c, [_, cp])) \<Rightarrow>
      cp_block cp = 1 \<and> cp_row cp = 0 \<and> cp_src cp = 16 \<and>
      start_pos (blocks (block_tables c ! 0) ! 1) = 0
  | _ \<Rightarrow> False"
  by code_simp

end
