(* ===== verification/Task_Worker.thy ===== *)
theory Task_Worker
  imports Prelude
begin

text \<open>
  The single-thread task queue (\<open>src/worker/worker.hpp\<close>) and its instance for inference tasks
  (\<open>src/inference/worker.cpp\<close>). Each definition is one section the code runs under
  \<open>task_lock_\<close>, or the execution of a task between two of them; \<open>worker_step\<close> interleaves them
  with the calls of other threads. A promise is a number; \<open>w_accepted\<close> is a history of what
  \<open>add_task\<close> has taken, which the code does not keep.
\<close>

section \<open>State\<close>

datatype 'r outcome = Value 'r | Exception string

datatype 't thread = Waiting | Executing 't nat | Exited

record ('t, 'r) worker =
  w_running :: bool
  w_tasks :: "('t \<times> nat) list"
  w_thread :: "'t thread"
  w_outcomes :: "(nat \<times> 'r outcome) list"
  w_accepted :: "('t \<times> nat) list"

definition worker_init :: "('t, 'r) worker" where
  "worker_init = \<lparr>w_running = True, w_tasks = [], w_thread = Waiting, w_outcomes = [], w_accepted = []\<rparr>"

section \<open>Operations\<close>

definition add_task :: "'t \<Rightarrow> nat \<Rightarrow> ('t, 'r) worker \<Rightarrow> ('t, 'r) worker res" where
  "add_task t p w =
     (if \<not> w_running w then Inl (RuntimeError ''worker is stopped'')
      else Inr (w\<lparr>w_tasks := w_tasks w @ [(t, p)], w_accepted := w_accepted w @ [(t, p)]\<rparr>))"

text \<open>The body of \<open>run\<close> once the wait is over; \<open>None\<close> while the wait condition does not hold.\<close>

definition cancel_all :: "('t \<times> nat) list \<Rightarrow> (nat \<times> 'r outcome) list" where
  "cancel_all ts = map (\<lambda>(t, p). (p, Exception ''worker stopped'')) ts"

definition run_locked :: "('t, 'r) worker \<Rightarrow> ('t, 'r) worker option" where
  "run_locked w =
     (if w_tasks w = [] \<and> w_running w then None
      else if \<not> w_running w then
        Some (w\<lparr>w_outcomes := w_outcomes w @ cancel_all (w_tasks w), w_tasks := [],
          w_thread := Exited\<rparr>)
      else Some (w\<lparr>w_thread := Executing (fst (hd (w_tasks w))) (snd (hd (w_tasks w))),
          w_tasks := tl (w_tasks w)\<rparr>))"

text \<open>
  \<open>execute_task_\<close> of the inference worker: the value of the run, or the exception it ended in.
\<close>

definition execute_task :: "('t \<Rightarrow> string + 'r) \<Rightarrow> 't \<Rightarrow> nat \<Rightarrow> ('t, 'r) worker \<Rightarrow> ('t, 'r) worker" where
  "execute_task invoke t p w = w\<lparr>
     w_outcomes := w_outcomes w @ [(p, case invoke t of Inr out \<Rightarrow> Value out | Inl e \<Rightarrow> Exception e)],
     w_thread := Waiting\<rparr>"

definition stop_worker :: "('t, 'r) worker \<Rightarrow> ('t, 'r) worker" where
  "stop_worker w = (if \<not> w_running w then w else w\<lparr>w_running := False\<rparr>)"

section \<open>Interleavings\<close>

inductive thread_step :: "('t \<Rightarrow> string + 'r) \<Rightarrow> ('t, 'r) worker \<Rightarrow> ('t, 'r) worker \<Rightarrow> bool"
  for invoke where
  wake: "w_thread w = Waiting \<Longrightarrow> run_locked w = Some w' \<Longrightarrow> thread_step invoke w w'"
| execute: "w_thread w = Executing t p \<Longrightarrow> thread_step invoke w (execute_task invoke t p w)"

inductive worker_step :: "('t \<Rightarrow> string + 'r) \<Rightarrow> ('t, 'r) worker \<Rightarrow> ('t, 'r) worker \<Rightarrow> bool"
  for invoke where
  submit: "p \<notin> snd ` set (w_accepted w) \<Longrightarrow> add_task t p w = Inr w' \<Longrightarrow> worker_step invoke w w'"
| stop: "worker_step invoke w (stop_worker w)"
| thread: "thread_step invoke w w' \<Longrightarrow> worker_step invoke w w'"

abbreviation worker_reachable :: "('t \<Rightarrow> string + 'r) \<Rightarrow> ('t, 'r) worker \<Rightarrow> bool" where
  "worker_reachable invoke w \<equiv> (worker_step invoke)\<^sup>*\<^sup>* worker_init w"

inductive_cases thread_stepE: "thread_step invoke w w'"
inductive_cases worker_stepE: "worker_step invoke w w'"

section \<open>The invariant\<close>

text \<open>
  Settled promises, then the one being executed, then the queued ones are the accepted ones in
  order of submission; every settled promise has the outcome of its own task, or was cancelled
  after the stop; a thread that has left the loop leaves an empty queue behind.
\<close>

definition in_flight :: "'t thread \<Rightarrow> nat list" where
  "in_flight th = (case th of Executing t p \<Rightarrow> [p] | _ \<Rightarrow> [])"

definition outcome_ok :: "('t \<Rightarrow> string + 'r) \<Rightarrow> ('t, 'r) worker \<Rightarrow> nat \<times> 'r outcome \<Rightarrow> bool" where
  "outcome_ok invoke w po \<longleftrightarrow> (\<exists>t. (t, fst po) \<in> set (w_accepted w) \<and>
     (snd po = (case invoke t of Inr out \<Rightarrow> Value out | Inl e \<Rightarrow> Exception e) \<or>
      (\<not> w_running w \<and> snd po = Exception ''worker stopped'')))"

definition worker_inv :: "('t \<Rightarrow> string + 'r) \<Rightarrow> ('t, 'r) worker \<Rightarrow> bool" where
  "worker_inv invoke w \<longleftrightarrow>
     map fst (w_outcomes w) @ in_flight (w_thread w) @ map snd (w_tasks w) = map snd (w_accepted w) \<and>
     distinct (map snd (w_accepted w)) \<and>
     set (w_tasks w) \<subseteq> set (w_accepted w) \<and>
     (\<forall>t p. w_thread w = Executing t p \<longrightarrow> (t, p) \<in> set (w_accepted w)) \<and>
     (\<forall>po \<in> set (w_outcomes w). outcome_ok invoke w po) \<and>
     (w_thread w = Exited \<longrightarrow> w_tasks w = [] \<and> \<not> w_running w)"

lemma worker_inv_init: "worker_inv invoke worker_init"
  by (simp add: worker_inv_def worker_init_def in_flight_def)

lemma outcome_ok_mono:
  "outcome_ok invoke w po \<Longrightarrow> set (w_accepted w) \<subseteq> set (w_accepted w') \<Longrightarrow>
    (w_running w' \<Longrightarrow> w_running w) \<Longrightarrow> outcome_ok invoke w' po"
  by (auto simp: outcome_ok_def)

lemma inv_add_task:
  "worker_inv invoke w \<Longrightarrow> p \<notin> snd ` set (w_accepted w) \<Longrightarrow> add_task t p w = Inr w' \<Longrightarrow> worker_inv invoke w'"
  unfolding add_task_def
  by (auto simp: worker_inv_def in_flight_def image_iff split: if_splits thread.splits
      intro: outcome_ok_mono [of invoke w])

lemma inv_stop: "worker_inv invoke w \<Longrightarrow> worker_inv invoke (stop_worker w)"
  unfolding stop_worker_def
  by (auto simp: worker_inv_def intro: outcome_ok_mono [of invoke w])

lemma inv_run_locked:
  assumes inv: "worker_inv invoke w" and "w_thread w = Waiting" "run_locked w = Some w'"
  shows "worker_inv invoke w'"
proof (cases "w_running w")
  case True
  with assms(3) obtain t p ts where ts: "w_tasks w = (t, p) # ts"
      "w' = w\<lparr>w_thread := Executing t p, w_tasks := ts\<rparr>"
    by (cases "w_tasks w") (auto simp: run_locked_def)
  then show ?thesis using inv assms(2)
    by (auto simp: worker_inv_def in_flight_def intro: outcome_ok_mono [of invoke w])
next
  case False
  with assms(3) have w': "w' = w\<lparr>w_outcomes := w_outcomes w @ cancel_all (w_tasks w), w_tasks := [],
      w_thread := Exited\<rparr>"
    by (simp add: run_locked_def)
  have "map fst (cancel_all (w_tasks w) :: (nat \<times> 'b outcome) list) = map snd (w_tasks w)"
    by (simp add: cancel_all_def split_def)
  moreover have "outcome_ok invoke w' po" if "po \<in> set (cancel_all (w_tasks w))" for po
  proof -
    from that obtain t p where "(t, p) \<in> set (w_tasks w)" "po = (p, Exception ''worker stopped'')"
      by (auto simp: cancel_all_def)
    moreover from this inv have "(t, p) \<in> set (w_accepted w)" by (auto simp: worker_inv_def)
    ultimately show ?thesis using False w' by (auto simp: outcome_ok_def)
  qed
  moreover have "outcome_ok invoke w' po" if "po \<in> set (w_outcomes w)" for po
    using that inv w' by (auto simp: worker_inv_def intro: outcome_ok_mono [of invoke w])
  ultimately show ?thesis using inv assms(2) w' False
    by (auto simp: worker_inv_def in_flight_def)
qed

lemma inv_execute:
  assumes inv: "worker_inv invoke w" and "w_thread w = Executing t p"
  shows "worker_inv invoke (execute_task invoke t p w)"
  using assms
  by (auto simp: worker_inv_def in_flight_def execute_task_def outcome_ok_def)

lemma worker_invariant: "worker_reachable invoke w \<Longrightarrow> worker_inv invoke w"
proof (induction rule: rtranclp_induct)
  case (step w w')
  from step(2) show ?case
  proof (cases rule: worker_step.cases)
    case thread
    then show ?thesis using step(3)
      by (cases rule: thread_step.cases) (auto intro: inv_run_locked inv_execute)
  qed (use step(3) in \<open>auto intro: inv_add_task inv_stop\<close>)
qed (rule worker_inv_init)

section \<open>Shutdown\<close>

text \<open>Turns the thread still needs once \<open>running_\<close> is false.\<close>

definition turns_left :: "('t, 'r) worker \<Rightarrow> nat" where
  "turns_left w = (case w_thread w of Exited \<Rightarrow> 0 | Waiting \<Rightarrow> 1 | Executing t p \<Rightarrow> 2)"

lemma thread_step_stopped:
  assumes "\<not> w_running w" and "thread_step invoke w w'"
  shows "\<not> w_running w' \<and> turns_left w = Suc (turns_left w')"
  using assms(2)
proof (cases rule: thread_step.cases)
  case wake
  with assms(1) show ?thesis by (auto simp: run_locked_def turns_left_def)
next
  case (execute t p)
  with assms(1) show ?thesis by (simp add: execute_task_def turns_left_def)
qed

lemma thread_not_stuck:
  assumes "\<not> w_running w" and "w_thread w \<noteq> Exited"
  shows "\<exists>w'. thread_step invoke w w'"
proof (cases "w_thread w")
  case Waiting
  with assms(1) show ?thesis
    by (intro exI [of _ "the (run_locked w)"] wake) (auto simp: run_locked_def)
next
  case (Executing t p)
  then show ?thesis by (intro exI) (rule execute)
qed (use assms in simp)

end
