(* ===== verification/Event_Bus.thy ===== *)
theory Event_Bus
  imports Containers Model_Types
begin

text \<open>
  The event dispatcher (\<open>include/zinferlm/events.h\<close>, \<open>src/events/events.cpp\<close>): listeners are
  registered under a group, and an event of a group is handed to the listeners of the group that
  asked for its kind. Every operation runs under the dispatcher's mutex except the calls of the
  callbacks, which happen on a snapshot; \<open>dispatch\<close> therefore returns the callbacks to call.
\<close>

section \<open>Events\<close>

text \<open>A time point is a count of nanoseconds.\<close>

type_synonym time_point = int

datatype inference_event =
    TokenizerStarted (ev_time: time_point) (str_len: nat)
  | TokenizerCompleted (ev_time: time_point) (num_input: nat)
  | TokenGenerated (ev_time: time_point) (ev_seq_id: u32) (ev_token: string)
  | is_GenerationCompleted: GenerationCompleted (ev_time: time_point) (ev_status: stream_status) (num_output: u32)
  | PrefillStart (ev_time: time_point) (tokens_count: int)
  | PrefillEnd (ev_time: time_point) (tokens_count: int)

datatype event_kind =
    TOKENIZER_STARTED | TOKENIZER_COMPLETED | TOKEN_GENERATED | GENERATION_COMPLETED
  | PREFILL_STARTED | PREFILL_COMPLETED

section \<open>The dispatcher\<close>

record 'cb listener =
  callback :: 'cb
  events :: "event_kind list"

record 'cb dispatcher =
  listeners :: "(string \<times> 'cb listener list) list"
  callbacks_count :: int

definition dispatcher_init :: "'cb dispatcher" where
  "dispatcher_init = \<lparr>listeners = [], callbacks_count = 0\<rparr>"

definition listen :: "string \<Rightarrow> 'cb \<Rightarrow> event_kind list \<Rightarrow> 'cb dispatcher \<Rightarrow> 'cb dispatcher" where
  "listen gid cb evs d =
     (let l = \<lparr>callback = cb, events = evs\<rparr> in
      d\<lparr>listeners :=
          (case map_of (listeners d) gid of
             Some ls \<Rightarrow> um_assign gid (ls @ [l]) (listeners d)
           | None \<Rightarrow> um_insert gid [l] (listeners d)),
        callbacks_count := callbacks_count d + 1\<rparr>)"

definition unlisten :: "string \<Rightarrow> 'cb dispatcher \<Rightarrow> 'cb dispatcher" where
  "unlisten gid d =
     (let (ls, m) = um_index [] gid (listeners d) in
      d\<lparr>listeners := um_erase gid m, callbacks_count := callbacks_count d - int (length ls)\<rparr>)"

definition dispatch :: "string \<Rightarrow> event_kind \<Rightarrow> 'cb dispatcher \<Rightarrow> 'cb list \<times> 'cb dispatcher" where
  "dispatch gid name d =
     (let (ls, m) = um_index [] gid (listeners d) in
      (map callback (filter (\<lambda>l. name \<in> set (events l)) ls), d\<lparr>listeners := m\<rparr>))"

section \<open>The contract\<close>

text \<open>The listeners of a group, in the order of their registration.\<close>

definition listeners_of :: "'cb dispatcher \<Rightarrow> string \<Rightarrow> ('cb \<times> event_kind list) list" where
  "listeners_of d gid = (case map_of (listeners d) gid of
     None \<Rightarrow> [] | Some ls \<Rightarrow> map (\<lambda>l. (callback l, events l)) ls)"

datatype 'cb bus_call =
    Listen string 'cb "event_kind list"
  | Unlisten string
  | Dispatch string event_kind

text \<open>What a group should hear of, after a history of calls: the specification.\<close>

fun heard :: "string \<Rightarrow> ('cb \<times> event_kind list) list \<Rightarrow> 'cb bus_call list \<Rightarrow> ('cb \<times> event_kind list) list" where
  "heard g ls [] = ls"
| "heard g ls (Listen g' cb evs # cs) = heard g (if g' = g then ls @ [(cb, evs)] else ls) cs"
| "heard g ls (Unlisten g' # cs) = heard g (if g' = g then [] else ls) cs"
| "heard g ls (Dispatch g' e # cs) = heard g ls cs"

locale event_bus =
  fixes register :: "string \<Rightarrow> 'cb \<Rightarrow> event_kind list \<Rightarrow> 'd \<Rightarrow> 'd"
    and unregister :: "string \<Rightarrow> 'd \<Rightarrow> 'd"
    and emit :: "string \<Rightarrow> event_kind \<Rightarrow> 'd \<Rightarrow> 'cb list \<times> 'd"
    and registered :: "'d \<Rightarrow> string \<Rightarrow> ('cb \<times> event_kind list) list"
  assumes registered_register:
      "registered (register g cb evs d) = (registered d)(g := registered d g @ [(cb, evs)])"
    and registered_unregister: "registered (unregister g d) = (registered d)(g := [])"
    and emit_callbacks:
      "fst (emit g e d) = map fst (filter (\<lambda>(cb, evs). e \<in> set evs) (registered d g))"
    and emit_keeps: "registered (snd (emit g e d)) = registered d"
begin

fun perform :: "'cb bus_call \<Rightarrow> 'd \<Rightarrow> 'd" where
  "perform (Listen g cb evs) d = register g cb evs d"
| "perform (Unlisten g) d = unregister g d"
| "perform (Dispatch g e) d = snd (emit g e d)"

lemma registered_history: "registered (fold perform cs d) g = heard g (registered d g) cs"
proof (induction cs arbitrary: d)
  case (Cons c cs)
  then show ?case
    by (cases c) (simp_all add: registered_register registered_unregister emit_keeps)
qed simp

lemma emit_history:
  "fst (emit g e (fold perform cs d))
    = map fst (filter (\<lambda>(cb, evs). e \<in> set evs) (heard g (registered d g) cs))"
  by (simp add: emit_callbacks registered_history)

end

interpretation bus: event_bus listen unlisten dispatch listeners_of
proof
  fix g cb evs e and d :: "'cb dispatcher"
  show "listeners_of (listen g cb evs d) = (listeners_of d)(g := listeners_of d g @ [(cb, evs)])"
    by (auto simp: listeners_of_def listen_def Let_def um_laws fun_eq_iff split: option.splits)
  show "listeners_of (unlisten g d) = (listeners_of d)(g := [])"
    by (auto simp: listeners_of_def unlisten_def Let_def um_laws um_index_map um_index_value
        fun_eq_iff split_def split: option.splits)
  show "fst (dispatch g e d) = map fst (filter (\<lambda>(cb, evs). e \<in> set evs) (listeners_of d g))"
    by (auto simp: listeners_of_def dispatch_def um_index_value split_def filter_map comp_def
        split: option.splits)
  show "listeners_of (snd (dispatch g e d)) = listeners_of d"
    by (auto simp: listeners_of_def dispatch_def um_index_map um_index_value split_def fun_eq_iff
        split: option.splits)
qed

section \<open>The callback counter\<close>

definition run_call :: "'cb bus_call \<Rightarrow> 'cb dispatcher \<Rightarrow> 'cb dispatcher" where
  "run_call = bus.perform"

definition total_listeners :: "'cb dispatcher \<Rightarrow> int" where
  "total_listeners d = int (sum_list (map (\<lambda>p. length (snd p)) (listeners d)))"

definition bus_inv :: "'cb dispatcher \<Rightarrow> bool" where
  "bus_inv d \<longleftrightarrow> distinct (map fst (listeners d)) \<and> callbacks_count d = total_listeners d"

lemma sum_update:
  "distinct (map fst m) \<Longrightarrow> map_of m k = Some v \<Longrightarrow>
    int (sum_list (map (\<lambda>p. length (snd p)) (AList.update k w m)))
      = int (sum_list (map (\<lambda>p. length (snd p)) m)) - int (length v) + int (length w)"
  by (induction m) (auto split: if_splits)

lemma delete_absent: "k \<notin> fst ` set m \<Longrightarrow> AList.delete k m = m"
  by (induction m) auto

lemma sum_delete:
  "distinct (map fst m) \<Longrightarrow>
    int (sum_list (map (\<lambda>p. length (snd p)) (AList.delete k m)))
      = int (sum_list (map (\<lambda>p. length (snd p)) m))
        - int (length (case map_of m k of None \<Rightarrow> [] | Some v \<Rightarrow> v))"
proof (induction m)
  case (Cons kv m)
  then have "fst kv = k \<Longrightarrow> map_of m k = None" by (auto simp: map_of_eq_None_iff)
  with Cons show ?case by (cases kv) (auto simp: delete_absent split: option.splits)
qed simp

lemma distinct_um:
  "distinct (map fst m) \<Longrightarrow> distinct (map fst (um_insert k v m))"
  "distinct (map fst m) \<Longrightarrow> distinct (map fst (um_assign k v m))"
  "distinct (map fst m) \<Longrightarrow> distinct (map fst (um_erase k m))"
  "distinct (map fst m) \<Longrightarrow> distinct (map fst (snd (um_index d k m)))"
  by (auto simp: um_insert_def um_assign_def um_erase_def um_index_def map_of_eq_None_iff
      distinct_update distinct_delete split: option.splits)

lemma bus_inv_listen: "bus_inv d \<Longrightarrow> bus_inv (listen gid cb evs d)"
  by (auto simp: bus_inv_def listen_def Let_def total_listeners_def distinct_um um_insert_def
      um_assign_def sum_update distinct_update map_of_eq_None_iff split: option.splits)

lemma bus_inv_dispatch: "bus_inv d \<Longrightarrow> bus_inv (snd (dispatch gid e d))"
  by (auto simp: bus_inv_def dispatch_def total_listeners_def um_index_def um_insert_def split_def
      map_of_eq_None_iff split: option.splits)

lemma bus_inv_unlisten:
  assumes "bus_inv d"
  shows "bus_inv (unlisten gid d)"
proof -
  let ?m = "snd (um_index [] gid (listeners d))"
  let ?sum = "\<lambda>m. int (sum_list (map (\<lambda>p. length (snd p)) m))"
  have m: "distinct (map fst ?m)" using assms by (simp add: bus_inv_def distinct_um)
  moreover have "?sum ?m = total_listeners d"
    by (simp add: um_index_def um_insert_def total_listeners_def split: option.splits)
  moreover have "map_of ?m gid = Some (fst (um_index [] gid (listeners d)))"
    by (simp add: um_index_map)
  ultimately have "?sum (AList.delete gid ?m)
      = total_listeners d - int (length (fst (um_index [] gid (listeners d))))"
    using sum_delete [OF m, of gid] by simp
  with assms m show ?thesis
    by (simp add: bus_inv_def unlisten_def split_def total_listeners_def um_erase_def distinct_delete
        Let_def)
qed

lemma bus_inv_run: "bus_inv d \<Longrightarrow> bus_inv (run_call c d)"
  unfolding run_call_def
  by (cases c) (simp_all add: bus_inv_listen bus_inv_dispatch bus_inv_unlisten)

lemma bus_inv_init: "bus_inv dispatcher_init"
  by (simp add: bus_inv_def dispatcher_init_def total_listeners_def)

lemma bus_inv_history: "bus_inv (fold run_call cs dispatcher_init)"
proof -
  have "bus_inv d \<Longrightarrow> bus_inv (fold run_call cs d)" for d :: "'a dispatcher"
    by (induction cs arbitrary: d) (simp_all add: bus_inv_run)
  then show ?thesis by (simp add: bus_inv_init)
qed

end
