(* ===== verification/Metrics.thy ===== *)
theory Metrics
  imports Event_Bus
begin

text \<open>
  The metrics collector (\<open>include/zinferlm/metrics.h\<close>, \<open>src/metrics/metrics.cpp\<close>): a listener
  that records the times of a run's events, and the figures computed from them. Time points are
  nanoseconds; the float conversions and the division are a parameter.
\<close>

record collector =
  run_id :: string
  prefill_start_time :: time_point
  prefill_end_time :: time_point
  decode_start_time :: time_point
  decode_end_time :: time_point
  tokenizer_start_time :: time_point
  tokenizer_end_time :: time_point
  first_token_generated_time :: time_point
  generation_completed_time :: time_point
  prefill_tokens_count :: int
  decode_tokens_count :: int
  out_tokens :: u32
  inp_tokens :: u32

text \<open>
  Time points start at the epoch; the counters are not initialised by the constructor, their
  first values are arguments.
\<close>

definition collector_new :: "string \<Rightarrow> int \<Rightarrow> int \<Rightarrow> u32 \<Rightarrow> u32 \<Rightarrow> collector" where
  "collector_new rid pc dc ot it =
     \<lparr>run_id = rid, prefill_start_time = 0, prefill_end_time = 0, decode_start_time = 0,
      decode_end_time = 0, tokenizer_start_time = 0, tokenizer_end_time = 0,
      first_token_generated_time = 0, generation_completed_time = 0,
      prefill_tokens_count = pc, decode_tokens_count = dc, out_tokens = ot, inp_tokens = it\<rparr>"

text \<open>The callback of \<open>collect\<close>.\<close>

fun on_event :: "inference_event \<Rightarrow> collector \<Rightarrow> collector" where
  "on_event (PrefillStart t n) m = m\<lparr>prefill_start_time := t, prefill_tokens_count := n\<rparr>"
| "on_event (PrefillEnd t n) m = m\<lparr>prefill_end_time := t\<rparr>"
| "on_event (TokenGenerated t i tok) m =
     (if i = 0 then m\<lparr>first_token_generated_time := t\<rparr> else m)"
| "on_event (TokenizerStarted t n) m = m\<lparr>tokenizer_start_time := t\<rparr>"
| "on_event (TokenizerCompleted t n) m =
     m\<lparr>tokenizer_start_time := t, inp_tokens := of_nat n\<rparr>"
| "on_event (GenerationCompleted t s n) m =
     m\<lparr>generation_completed_time := t, out_tokens := n\<rparr>"

definition collected_kinds :: "event_kind list" where
  "collected_kinds = [TOKENIZER_STARTED, TOKENIZER_COMPLETED, PREFILL_STARTED, PREFILL_COMPLETED,
     GENERATION_COMPLETED, TOKEN_GENERATED]"

definition collect :: "'cb \<Rightarrow> collector \<Rightarrow> 'cb dispatcher \<Rightarrow> 'cb dispatcher" where
  "collect cb m d = listen (run_id m) cb collected_kinds d"

section \<open>The figures\<close>

record 'f model_metrics =
  time_to_first_token :: 'f
  throughput_in_secs :: 'f
  prefill_latency :: int
  mm_out_tokens :: u32
  mm_inp_tokens :: u32
  total_time :: int
  decode_time :: int

text \<open>\<open>duration_cast\<close> to milliseconds truncates toward zero.\<close>

definition millis :: "time_point \<Rightarrow> int" where
  "millis d = sgn d * (\<bar>d\<bar> div 1000000)"

text \<open>
  \<open>rate n ms\<close> stands for \<open>(n * 1.0f) / (ms / 1000.0)\<close> and \<open>to_float\<close> for the conversion of a
  count to \<open>float\<close>. \<open>decode_latency\<close> is never set and has no field here.
\<close>

definition get_metrics :: "(int \<Rightarrow> 'f) \<Rightarrow> (u32 \<Rightarrow> int \<Rightarrow> 'f) \<Rightarrow> collector \<Rightarrow> 'f model_metrics" where
  "get_metrics to_float rate m =
     (let dt = millis (generation_completed_time m - prefill_end_time m) in
      \<lparr>time_to_first_token =
         to_float (millis (first_token_generated_time m - tokenizer_start_time m)),
       throughput_in_secs = rate (out_tokens m) dt,
       prefill_latency = millis (prefill_end_time m - prefill_start_time m),
       mm_out_tokens = out_tokens m, mm_inp_tokens = inp_tokens m,
       total_time = millis (generation_completed_time m - tokenizer_start_time m),
       decode_time = dt\<rparr>)"

definition reset_metrics :: "collector \<Rightarrow> collector" where
  "reset_metrics m = m\<lparr>prefill_start_time := 0, prefill_end_time := 0, decode_start_time := 0,
     decode_end_time := 0, prefill_tokens_count := 0, decode_tokens_count := 0\<rparr>"

end
