(* ===== verification/Sampler.thy ===== *)
theory Sampler
  imports Prelude
begin

text \<open>
  Sampling the next token (\<open>src/sampling/samplers.h\<close>, \<open>samplers.cpp\<close>). Floating-point
  arithmetic is a parameter: \<open>'f\<close> are the \<open>float\<close> values and \<open>'d\<close> the \<open>double\<close> ones, with the
  comparisons and operations the code uses. The random number drawn is an argument.
\<close>

record ('f, 'd) float_ops =
  f_lt :: "'f \<Rightarrow> 'f \<Rightarrow> bool"
  f_pos :: "'f \<Rightarrow> bool"
  f_div :: "'f \<Rightarrow> 'f \<Rightarrow> 'f"
  f_add :: "'f \<Rightarrow> 'f \<Rightarrow> 'f"
  f_ge :: "'f \<Rightarrow> 'f \<Rightarrow> bool"
  f_exp_diff :: "'f \<Rightarrow> 'f \<Rightarrow> 'f"
  f_zero :: 'f
  f_neg_inf :: 'f
  d_zero :: 'd
  d_add :: "'d \<Rightarrow> 'f \<Rightarrow> 'd"
  d_ge :: "'d \<Rightarrow> 'd \<Rightarrow> bool"
  fd_div :: "'f \<Rightarrow> 'd \<Rightarrow> 'f"

record 'f sampler_params =
  temperature :: 'f
  sp_top_k :: u32
  sp_top_p :: 'f

text \<open>The constructors leave \<open>top_p_\<close> uninitialised: it is no component of the model.\<close>

record 'f sampler =
  temp :: 'f
  top_k :: u32

definition sampler_default :: "('f, 'd) float_ops \<Rightarrow> 'f sampler" where
  "sampler_default F = \<lparr>temp = f_zero F, top_k = 0\<rparr>"

definition sampler_of :: "'f sampler_params \<Rightarrow> 'f sampler" where
  "sampler_of p = \<lparr>temp = temperature p, top_k = sp_top_k p\<rparr>"

section \<open>Greedy choice\<close>

text \<open>\<open>std::max_element\<close>: \<open>best\<close> is replaced by later elements that exceed it.\<close>

fun max_scan :: "('f \<Rightarrow> 'f \<Rightarrow> bool) \<Rightarrow> nat \<times> 'f \<Rightarrow> nat \<Rightarrow> 'f list \<Rightarrow> nat \<times> 'f" where
  "max_scan lt best i [] = best"
| "max_scan lt best i (x # xs) = max_scan lt (if lt (snd best) x then (i, x) else best) (i + 1) xs"

definition max_element :: "('f \<Rightarrow> 'f \<Rightarrow> bool) \<Rightarrow> 'f list \<Rightarrow> nat \<times> 'f" where
  "max_element lt xs = max_scan lt (0, hd xs) 1 (tl xs)"

definition greedy :: "('f, 'd) float_ops \<Rightarrow> 'f list \<Rightarrow> nat \<times> 'f" where
  "greedy F logits = max_element (f_lt F) logits"

section \<open>Softmax\<close>

definition softmax :: "('f, 'd) float_ops \<Rightarrow> 'f list \<Rightarrow> 'f list" where
  "softmax F logits =
     (let m = snd (max_element (f_lt F) logits);
          p = map (\<lambda>l. f_exp_diff F l m) logits;
          sum = foldl (d_add F) (d_zero F) p
      in map (\<lambda>v. fd_div F v sum) p)"

section \<open>Top-k\<close>

text \<open>\<open>std::partial_sort\<close> with \<open>std::greater\<close>: the leading elements in descending order.\<close>

fun insert_desc :: "('f \<Rightarrow> 'f \<Rightarrow> bool) \<Rightarrow> 'f \<Rightarrow> 'f list \<Rightarrow> 'f list" where
  "insert_desc lt x [] = [x]"
| "insert_desc lt x (y # ys) = (if lt x y then y # insert_desc lt x ys else x # y # ys)"

definition sort_desc :: "('f \<Rightarrow> 'f \<Rightarrow> bool) \<Rightarrow> 'f list \<Rightarrow> 'f list" where
  "sort_desc lt xs = foldr (insert_desc lt) xs []"

fun pick_scan :: "('f, 'd) float_ops \<Rightarrow> 'd \<Rightarrow> 'd \<Rightarrow> nat \<Rightarrow> 'f list \<Rightarrow> (nat \<times> 'f) option" where
  "pick_scan F rand cum i [] = None"
| "pick_scan F rand cum i (p # ps) =
     (if \<not> f_pos F p then pick_scan F rand cum (i + 1) ps
      else let cum' = d_add F cum p in
        if d_ge F cum' rand then Some (i, p) else pick_scan F rand cum' (i + 1) ps)"

definition top_k_mask :: "('f, 'd) float_ops \<Rightarrow> nat \<Rightarrow> 'f list \<Rightarrow> 'f list" where
  "top_k_mask F k logits =
     (let threshold = sort_desc (f_lt F) logits ! (k - 1)
      in map (\<lambda>l. if f_lt F l threshold then f_neg_inf F else l) logits)"

definition top_k_sample :: "('f, 'd) float_ops \<Rightarrow> 'd \<Rightarrow> u32 \<Rightarrow> 'f list \<Rightarrow> nat \<times> 'f" where
  "top_k_sample F rand tk logits =
     (let k = min (unat tk) (length logits);
          probs = softmax F (top_k_mask F k logits)
      in case pick_scan F rand (d_zero F) 0 probs of
           Some r \<Rightarrow> r | None \<Rightarrow> (length logits - 1, last probs))"

section \<open>Top-p\<close>

text \<open>
  \<open>top_p_sample_\<close>, which \<open>sample\<close> never calls. The cumulated probability and the number of leading
  candidates kept; \<open>draw\<close> is the index \<open>std::discrete_distribution\<close> draws from the weights.
\<close>

fun cutoff_scan :: "('f, 'd) float_ops \<Rightarrow> 'f \<Rightarrow> nat \<Rightarrow> 'f \<Rightarrow> nat \<Rightarrow> (nat \<times> 'f) list \<Rightarrow> 'f \<times> nat" where
  "cutoff_scan F p dflt cum i [] = (cum, dflt)"
| "cutoff_scan F p dflt cum i (q # qs) =
     (let cum = f_add F cum (snd q) in
      if f_ge F cum p then (cum, i + 1) else cutoff_scan F p dflt cum (i + 1) qs)"

definition top_p_candidates :: "('f, 'd) float_ops \<Rightarrow> 'f \<Rightarrow> 'f list \<Rightarrow> 'f \<times> (nat \<times> 'f) list" where
  "top_p_candidates F p logits =
     (let probs = softmax F logits;
          pairs = sort_desc (\<lambda>a b. f_lt F (snd a) (snd b)) (zip [0..<length probs] probs);
          (cum, cutoff) = cutoff_scan F p (length logits) (f_zero F) 0 pairs
      in (cum, take cutoff pairs))"

definition top_p_sample :: "('f, 'd) float_ops \<Rightarrow> ('f list \<Rightarrow> nat) \<Rightarrow> 'f \<Rightarrow> 'f list \<Rightarrow> (nat \<times> 'f) res" where
  "top_p_sample F draw p logits =
     (let (cum, pairs) = top_p_candidates F p logits;
          weights = map (\<lambda>q. f_div F (snd q) cum) pairs
      in vec_at pairs (draw weights))"

section \<open>The entry point\<close>

definition sample :: "('f, 'd) float_ops \<Rightarrow> 'd \<Rightarrow> 'f sampler \<Rightarrow> 'f list \<Rightarrow> nat \<times> 'f" where
  "sample F rand s logits =
     (if logits = [] then (0, f_zero F)
      else let ls = (if f_lt F (f_zero F) (temp s) then map (\<lambda>l. f_div F l (temp s)) logits else logits)
        in if 0 < top_k s then top_k_sample F rand (top_k s) ls else greedy F ls)"

section \<open>Facts\<close>

lemma max_scan_range:
  "fst best < i \<Longrightarrow> fst (max_scan lt best i xs) < i + length xs"
proof (induction xs arbitrary: best i)
  case (Cons x xs)
  then show ?case using Cons.IH [of "(i, x)" "Suc i"] Cons.IH [of best "Suc i"] by auto
qed simp

lemma max_element_range: "xs \<noteq> [] \<Longrightarrow> fst (max_element lt xs) < length xs"
  using max_scan_range [of "(0, hd xs)" 1 lt "tl xs"] by (cases xs) (simp_all add: max_element_def)

lemma pick_scan_range: "pick_scan F rand cum i ps = Some r \<Longrightarrow> i \<le> fst r \<and> fst r < i + length ps
    \<and> snd r = ps ! (fst r - i) \<and> f_pos F (snd r)"
proof (induction ps arbitrary: cum i)
  case (Cons p ps)
  show ?case
  proof (cases "f_pos F p \<and> d_ge F (d_add F cum p) rand")
    case True
    with Cons.prems show ?thesis by (auto simp: Let_def)
  next
    case False
    with Cons.prems obtain cum' where "pick_scan F rand cum' (i + 1) ps = Some r"
      by (auto simp: Let_def split: if_splits)
    from Cons.IH [OF this] have r: "i + 1 \<le> fst r" "fst r < i + 1 + length ps"
      "snd r = ps ! (fst r - (i + 1))" "f_pos F (snd r)" by auto
    then have "fst r - i = Suc (fst r - (i + 1))" by simp
    with r show ?thesis by simp
  qed
qed simp

lemma length_softmax [simp]: "length (softmax F ls) = length ls"
  by (simp add: softmax_def Let_def)

lemma length_top_k_mask [simp]: "length (top_k_mask F k ls) = length ls"
  by (simp add: top_k_mask_def Let_def)

text \<open>A strict weak order, which the comparison of floats without NaN is.\<close>

definition weak_order :: "('f \<Rightarrow> 'f \<Rightarrow> bool) \<Rightarrow> bool" where
  "weak_order lt \<longleftrightarrow> (\<forall>x y. lt x y \<longrightarrow> \<not> lt y x) \<and> (\<forall>x y z. lt x z \<longrightarrow> lt x y \<or> lt y z)"

lemma weak_orderD:
  assumes "weak_order lt"
  shows "lt x y \<Longrightarrow> \<not> lt y x" and "lt x z \<Longrightarrow> lt x y \<or> lt y z" and "\<not> lt x x"
  using assms unfolding weak_order_def by blast+

lemma max_scan_max:
  assumes "weak_order lt" and "length pre = i" and "fst best < i" and "pre ! fst best = snd best"
    and "\<forall>j < i. \<not> lt (snd best) (pre ! j)" and "\<forall>j < fst best. lt (pre ! j) (snd best)"
  shows "let r = max_scan lt best i xs; all = pre @ xs in
    all ! fst r = snd r \<and> (\<forall>j < length all. \<not> lt (snd r) (all ! j)) \<and> (\<forall>j < fst r. lt (all ! j) (snd r))"
  using assms(2-)
proof (induction xs arbitrary: pre best i)
  case (Cons x xs)
  note lt = weak_orderD [OF assms(1)]
  show ?case
  proof (cases "lt (snd best) x")
    case True
    have "\<not> lt x (pre ! j)" "lt (pre ! j) x" if "j < i" for j
      using lt(1) [of x "pre ! j"] lt(2) [of "snd best" x "pre ! j"] Cons.prems(4) True that by blast+
    then show ?thesis
      using Cons.IH [of "pre @ [x]" "i + 1" "(i, x)"] Cons.prems(1) True lt(3)
      by (simp add: nth_append less_Suc_eq)
  next
    case False
    then show ?thesis
      using Cons.IH [of "pre @ [x]" "i + 1" best] Cons.prems
      by (auto simp: nth_append less_Suc_eq Let_def)
  qed
qed simp

text \<open>Fewer than \<open>k\<close> elements exceed the \<open>k\<close>-th of the descending sort.\<close>

lemma set_insert_desc [simp]: "set (insert_desc lt x ys) = insert x (set ys)"
  by (induction ys) auto

lemma length_sort_desc [simp]: "length (sort_desc lt xs) = length xs"
proof -
  have "length (insert_desc lt x ys) = Suc (length ys)" for x ys by (induction ys) auto
  then show ?thesis by (induction xs) (simp_all add: sort_desc_def)
qed

lemma mset_sort_desc: "length (filter P (sort_desc lt xs)) = length (filter P xs)"
proof -
  have "length (filter P (insert_desc lt x ys)) = length (filter P (x # ys))" for x ys
    by (induction ys) auto
  then show ?thesis by (induction xs) (simp_all add: sort_desc_def)
qed

lemma length_filter_mono: "(\<And>x. P x \<Longrightarrow> Q x) \<Longrightarrow> length (filter P xs) \<le> length (filter Q xs)"
  by (induction xs) auto

lemma sorted_sort_desc:
  assumes "weak_order lt"
  shows "sorted_wrt (\<lambda>x y. \<not> lt x y) (sort_desc lt xs)"
proof -
  note lt = weak_orderD [OF assms]
  have "sorted_wrt (\<lambda>x y. \<not> lt x y) (insert_desc lt x ys)"
    if "sorted_wrt (\<lambda>x y. \<not> lt x y) ys" for x ys
    using that by (induction ys) (auto dest: lt(1,2))
  then show ?thesis by (induction xs) (simp_all add: sort_desc_def)
qed

lemma exceed_kth:
  assumes "weak_order lt" and "0 < k" and "k \<le> length xs"
  shows "length (filter (\<lambda>x. lt (sort_desc lt xs ! (k - 1)) x) xs) < k"
proof -
  let ?s = "sort_desc lt xs" and ?P = "\<lambda>x. lt (sort_desc lt xs ! (k - 1)) x"
  have "\<not> ?P x" if "x \<in> set (drop (k - 1) ?s)" for x
  proof -
    from that obtain j where "j < length ?s - (k - 1)" "x = ?s ! (k - 1 + j)"
      by (auto simp: in_set_conv_nth)
    with sorted_sort_desc [OF assms(1), of xs] weak_orderD(3) [OF assms(1)] show ?thesis
      by (cases j) (auto simp: sorted_wrt_iff_nth_less)
  qed
  then have "filter ?P (drop (k - 1) ?s) = []" by (simp add: filter_empty_conv)
  then have "length (filter ?P ?s) = length (filter ?P (take (k - 1) ?s))"
    by (metis append_Nil2 append_take_drop_id filter_append)
  also have "\<dots> \<le> k - 1" by (metis length_filter_le length_take min.cobounded2 order_trans)
  finally show ?thesis using assms(2) by (simp add: mset_sort_desc)
qed

text \<open>Top-p returns a candidate it kept, whatever is drawn within the weights.\<close>

lemma set_sort_desc [simp]: "set (sort_desc lt xs) = set xs"
  by (induction xs) (auto simp: sort_desc_def)

lemma top_p_sample_kept:
  assumes "top_p_sample F draw p logits = Inr r"
  shows "fst r < length logits \<and> snd r = softmax F logits ! fst r"
proof -
  let ?ps = "zip [0..<length logits] (softmax F logits)"
  from assms have "r \<in> set (snd (top_p_candidates F p logits))"
    by (auto simp: top_p_sample_def vec_at_eq_Inr split_def Let_def intro!: nth_mem)
  then have "r \<in> set ?ps"
    by (auto simp: top_p_candidates_def Let_def split_def dest: in_set_takeD)
  then show ?thesis by (auto simp: set_zip)
qed

end
