(* ===== verification/Inference_Loop.thy ===== *)
theory Inference_Loop
  imports Tokenizer Event_Bus Sampler
begin

text \<open>
  One inference run (\<open>src/inference/inference.cpp\<close>, \<open>inference.h\<close>): the compute graph that is
  rebuilt when the number of input tokens changes, the prediction of the next token's logits, and
  the generation loop with the events it emits. ggml is a parameter, as is the clock the events
  are stamped with.
\<close>

section \<open>The engine\<close>

text \<open>
  \<open>be_ctx_size\<close> is the context size for an operation estimate, \<open>be_reserve\<close> whether the
  scheduler can reserve the graph for that many tokens, and \<open>be_compute\<close> runs the graph on input
  tokens and the number of past ones: the rows of logits, or \<open>None\<close> for a failed computation.
\<close>

record ('s, 'f) backend =
  be_ctx_size :: "nat \<Rightarrow> nat"
  be_reserve :: "u32 \<Rightarrow> bool"
  be_compute :: "'s \<Rightarrow> int list \<Rightarrow> int \<Rightarrow> ('f list list \<times> 's) option"

text \<open>\<open>inf_builds\<close> counts the graphs built; the code keeps only the last.\<close>

record 's inference =
  ctx_buffer_size :: nat
  cached_n_tokens :: u32
  graph_ready :: bool
  inf_engine :: 's
  inf_builds :: nat

definition inference_new :: "'s \<Rightarrow> 's inference" where
  "inference_new s = \<lparr>ctx_buffer_size = 0, cached_n_tokens = 0, graph_ready = False,
     inf_engine = s, inf_builds = 0\<rparr>"

definition init_context :: "('s, 'f) backend \<Rightarrow> nat \<Rightarrow> 's inference \<Rightarrow> 's inference" where
  "init_context B n_op_estimate ie =
     (let ctx_size = be_ctx_size B n_op_estimate in
      ie\<lparr>ctx_buffer_size := (if ctx_buffer_size ie < ctx_size then ctx_size else ctx_buffer_size ie),
        graph_ready := False\<rparr>)"

definition new_graph :: "'s inference \<Rightarrow> 's inference" where
  "new_graph ie = ie\<lparr>inf_builds := inf_builds ie + 1\<rparr>"

definition prepare :: "('s, 'f) backend \<Rightarrow> u32 \<Rightarrow> 's inference \<Rightarrow> bool \<times> 's inference" where
  "prepare B n_tokens ie =
     (if \<not> be_reserve B n_tokens then (False, ie)
      else (True, ie\<lparr>cached_n_tokens := n_tokens, graph_ready := True\<rparr>))"

definition compute :: "('s, 'f) backend \<Rightarrow> int list \<Rightarrow> int \<Rightarrow> 's inference
    \<Rightarrow> ('f list list option \<times> 's inference)" where
  "compute B input past ie = (case be_compute B (inf_engine ie) input past of
     None \<Rightarrow> (None, ie) | Some (rows, s) \<Rightarrow> (Some rows, ie\<lparr>inf_engine := s\<rparr>))"

text \<open>
  \<open>predict\<close>: a scheduler that cannot reserve gives empty logits; a failed computation a null
  tensor that is dereferenced. The logits are the row of the last token, \<open>tokens.size() - 1\<close>,
  which wraps around for no tokens.
\<close>

definition predict :: "('s, 'f) backend \<Rightarrow> u32 \<Rightarrow> int list \<Rightarrow> int \<Rightarrow> 's inference
    \<Rightarrow> ('f list \<times> 's inference) res" where
  "predict B nblk tokens past ie =
     (let n = of_nat (length tokens);
          (ok, ie) = (if \<not> graph_ready ie \<or> n \<noteq> cached_n_tokens ie
            then prepare B n (new_graph (init_context B (unat (nblk * 64 + 256)) ie))
            else (True, ie)) in
      if \<not> ok then Inr ([], ie)
      else let (out, ie) = compute B tokens past ie in
        case out of None \<Rightarrow> Inl NullDeref
        | Some rows \<Rightarrow>
            if length rows < length tokens then Inl AssertFailed
            else rbind (vec_at rows (unat (of_nat (length tokens) - 1 :: u64))) (\<lambda>logits.
              Inr (logits, ie)))"

section \<open>The run\<close>

type_synonym event_log = "(event_kind \<times> inference_event) list"

text \<open>An event is stamped when it is emitted: the clock is read once per event.\<close>

definition emit :: "(nat \<Rightarrow> time_point) \<Rightarrow> event_kind \<Rightarrow> (time_point \<Rightarrow> inference_event) \<Rightarrow> event_log
    \<Rightarrow> event_log" where
  "emit clock k ev evs = evs @ [(k, ev (clock (length evs)))]"

record ('s, 'f, 'd) run_env =
  re_backend :: "('s, 'f) backend"
  re_floats :: "('f, 'd) float_ops"
  re_sampler :: "'f sampler"
  re_random :: "nat \<Rightarrow> 'd"
  re_clock :: "nat \<Rightarrow> time_point"
  re_n_blocks :: u32

record 's gen_result =
  gr_output :: string
  gr_count :: nat
  gr_inference :: "'s inference"
  gr_events :: event_log

text \<open>
  The loop, with \<open>n\<close> rounds left before \<open>max_tokens\<close> and \<open>i\<close> done. Its counter is an \<open>int\<close>.
\<close>

fun gen_loop :: "('s, 'f, 'd) run_env \<Rightarrow> tokenizer \<Rightarrow> nat \<Rightarrow> nat \<Rightarrow> int list \<Rightarrow> int \<Rightarrow> string
    \<Rightarrow> 's inference \<Rightarrow> event_log \<Rightarrow> (bool \<times> 's gen_result) res" where
  "gen_loop R z 0 i tokens past output ie evs =
     Inr (False, \<lparr>gr_output = output, gr_count = i, gr_inference = ie, gr_events = evs\<rparr>)"
| "gen_loop R z (Suc n) i tokens past output ie evs =
     (let evs = (if past = 0
           then emit (re_clock R) PREFILL_STARTED (\<lambda>t. PrefillStart t (int (length tokens))) evs
           else evs) in
      rbind (predict (re_backend R) (re_n_blocks R) tokens past ie) (\<lambda>(logits, ie).
      let evs = (if past = 0
           then emit (re_clock R) PREFILL_COMPLETED (\<lambda>t. PrefillEnd t (int (length tokens))) evs
           else evs);
          token_id = fst (sample (re_floats R) (re_random R i) (re_sampler R) logits);
          past = past + int (length tokens);
          out_token = decode z (of_nat token_id) in
      if is_stop_token z out_token then
        Inr (True, \<lparr>gr_output = output, gr_count = i, gr_inference = ie,
          gr_events = emit (re_clock R) GENERATION_COMPLETED
            (\<lambda>t. GenerationCompleted t EOS (of_nat i)) evs\<rparr>)
      else if 2 ^ 31 \<le> i + 1 then Inl IntOverflow
      else gen_loop R z n (i + 1) [wrap32 (int token_id)] past (output @ out_token) ie
        (emit (re_clock R) TOKEN_GENERATED (\<lambda>t. TokenGenerated t (of_nat i) out_token) evs)))"

text \<open>
  \<open>invoke\<close> on a tokenizer built for the model. The completion event after the limit leaves
  \<open>num_tokens\<close> out of its initialiser, which makes it zero.
\<close>

definition finish_run :: "('s, 'f, 'd) run_env \<Rightarrow> bool \<times> 's gen_result \<Rightarrow> 's gen_result" where
  "finish_run R br = (case br of (stopped, r) \<Rightarrow>
     if stopped then r
     else r\<lparr>gr_events := emit (re_clock R) GENERATION_COMPLETED
       (\<lambda>t. GenerationCompleted t MAX_CTX_REACHED 0) (gr_events r)\<rparr>)"

definition generate :: "('s, 'f, 'd) run_env \<Rightarrow> tokenizer \<Rightarrow> u32 \<Rightarrow> int list \<Rightarrow> 's inference \<Rightarrow> event_log
    \<Rightarrow> 's gen_result res" where
  "generate R z max_tokens tokens ie evs =
     rbind (gen_loop R z (unat max_tokens) 0 tokens 0 [] ie evs) (\<lambda>br. Inr (finish_run R br))"

definition invoke :: "('s, 'f, 'd) run_env \<Rightarrow> pcre \<Rightarrow> tokenizer_info_t \<Rightarrow> string \<Rightarrow> u32 \<Rightarrow> 's inference
    \<Rightarrow> 's gen_result run" where
  "invoke R P info input max_tokens ie =
     run_bind (Some (for_model P info)) (\<lambda>z.
     let evs = emit (re_clock R) TOKENIZER_STARTED (\<lambda>t. TokenizerStarted t (length input)) [] in
     run_bind (tokenize P z input) (\<lambda>(tokens, z).
     let evs = emit (re_clock R) TOKENIZER_COMPLETED (\<lambda>t. TokenizerCompleted t (length tokens)) evs in
     Some (generate R z max_tokens tokens ie evs)))"

end
