(* ===== verification/Inference_Facts.thy ===== *)
theory Inference_Facts
  imports Inference_Loop
begin

text \<open>
  The log of a run and the number of graphs it builds, by induction over the generation loop.
\<close>

section \<open>Logs without times\<close>

fun untimed :: "inference_event \<Rightarrow> inference_event" where
  "untimed (TokenizerStarted t n) = TokenizerStarted 0 n"
| "untimed (TokenizerCompleted t n) = TokenizerCompleted 0 n"
| "untimed (TokenGenerated t i s) = TokenGenerated 0 i s"
| "untimed (GenerationCompleted t s n) = GenerationCompleted 0 s n"
| "untimed (PrefillStart t n) = PrefillStart 0 n"
| "untimed (PrefillEnd t n) = PrefillEnd 0 n"

definition ulog :: "event_log \<Rightarrow> event_log" where
  "ulog evs = map (\<lambda>(k, e). (k, untimed e)) evs"

lemma ulog_emit [simp]:
  "ulog (emit clock k ev evs) = ulog evs @ [(k, untimed (ev (clock (length evs))))]"
  by (simp add: ulog_def emit_def)

lemma ulog_Nil [simp]: "ulog [] = []"
  by (simp add: ulog_def)

definition token_events :: "nat \<Rightarrow> string list \<Rightarrow> event_log" where
  "token_events i toks =
     map (\<lambda>(j, t). (TOKEN_GENERATED, TokenGenerated 0 (of_nat j) t)) (zip [i..<i + length toks] toks)"

lemma token_events_Nil [simp]: "token_events i [] = []"
  by (simp add: token_events_def)

lemma token_events_Cons:
  "token_events i (t # ts) = (TOKEN_GENERATED, TokenGenerated 0 (of_nat i) t) # token_events (Suc i) ts"
proof -
  have "[i..<i + length (t # ts)] = i # [Suc i..<Suc i + length ts]"
    by (simp add: upt_conv_Cons del: upt_Suc)
  then show ?thesis by (simp add: token_events_def del: upt_Suc)
qed

definition prefill_events :: "int list \<Rightarrow> event_log" where
  "prefill_events tokens =
     [(PREFILL_STARTED, PrefillStart 0 (int (length tokens))),
      (PREFILL_COMPLETED, PrefillEnd 0 (int (length tokens)))]"

section \<open>The loop\<close>

text \<open>What a call of the loop adds: a prefill if nothing was computed yet, then tokens.\<close>

definition loop_adds :: "nat \<Rightarrow> nat \<Rightarrow> int list \<Rightarrow> int \<Rightarrow> string \<Rightarrow> event_log \<Rightarrow> bool \<Rightarrow> 's gen_result
    \<Rightarrow> string list \<Rightarrow> bool" where
  "loop_adds n i tokens past outp evs stopped r toks \<longleftrightarrow>
     gr_count r = i + length toks \<and>
     gr_output r = outp @ concat toks \<and>
     (if stopped then length toks < n else length toks = n) \<and>
     ulog (gr_events r) = ulog evs @ (if past = 0 \<and> 0 < n then prefill_events tokens else [])
       @ token_events i toks
       @ (if stopped
          then [(GENERATION_COMPLETED, GenerationCompleted 0 EOS (of_nat (i + length toks)))] else [])"

lemma gen_loop_adds:
  assumes "gen_loop R z n i tokens past outp ie evs = Inr (stopped, r)"
    and "tokens \<noteq> []" and "0 \<le> past"
  shows "\<exists>toks. loop_adds n i tokens past outp evs stopped r toks"
  using assms
proof (induction n arbitrary: i tokens past outp ie evs)
  case 0
  then show ?case by (intro exI [of _ "[]"]) (auto simp: loop_adds_def)
next
  case (Suc n)
  let ?evs = "if past = 0
    then emit (re_clock R) PREFILL_STARTED (\<lambda>t. PrefillStart t (int (length tokens))) evs else evs"
  from Suc.prems(1) obtain logits ie' where
    p: "predict (re_backend R) (re_n_blocks R) tokens past ie = Inr (logits, ie')"
    by (auto simp: Let_def elim!: rbindE)
  let ?evs' = "if past = 0
    then emit (re_clock R) PREFILL_COMPLETED (\<lambda>t. PrefillEnd t (int (length tokens))) ?evs else ?evs"
  let ?id = "fst (sample (re_floats R) (re_random R i) (re_sampler R) logits)"
  let ?out = "decode z (of_nat ?id)" and ?past = "past + int (length tokens)"
  have logs: "ulog ?evs' = ulog evs @ (if past = 0 then prefill_events tokens else [])"
    by (simp add: prefill_events_def)
  show ?case
  proof (cases "is_stop_token z ?out")
    case True
    with Suc.prems(1) p have "stopped" "gr_output r = outp" "gr_count r = i"
      "gr_events r = emit (re_clock R) GENERATION_COMPLETED (\<lambda>t. GenerationCompleted t EOS (of_nat i)) ?evs'"
      by (auto simp: Let_def)
    with logs show ?thesis
      by (intro exI [of _ "[]"]) (simp add: loop_adds_def)
  next
    case False
    let ?next = "emit (re_clock R) TOKEN_GENERATED (\<lambda>t. TokenGenerated t (of_nat i) ?out) ?evs'"
    from Suc.prems(1) p False have
      "gen_loop R z n (i + 1) [wrap32 (int ?id)] ?past (outp @ ?out) ie' ?next = Inr (stopped, r)"
      by (auto simp: Let_def split: if_splits)
    moreover have "0 < ?past" using Suc.prems(2,3) by (cases tokens) auto
    ultimately obtain toks where
      "loop_adds n (i + 1) [wrap32 (int ?id)] ?past (outp @ ?out) ?next stopped r toks"
      using Suc.IH by fastforce
    with logs \<open>0 < ?past\<close> have "loop_adds (Suc n) i tokens past outp evs stopped r (?out # toks)"
      unfolding loop_adds_def by (auto simp: token_events_Cons)
    then show ?thesis ..
  qed
qed

lemma generateE:
  assumes "generate R z max_tokens tokens ie evs = Inr r"
  obtains stopped r' where
    "gen_loop R z (unat max_tokens) 0 tokens 0 [] ie evs = Inr (stopped, r')"
    and "r = finish_run R (stopped, r')"
  using assms by (auto simp: generate_def elim!: rbindE)

text \<open>The log of a run that returns.\<close>

lemma generate_log:
  assumes "generate R z max_tokens tokens ie evs = Inr r" and "tokens \<noteq> []"
  shows "\<exists>toks status. gr_output r = concat toks \<and> gr_count r = length toks
    \<and> length toks \<le> unat max_tokens
    \<and> (status = MAX_CTX_REACHED \<longleftrightarrow> length toks = unat max_tokens) \<and> status \<noteq> CONTINUE
    \<and> ulog (gr_events r) = ulog evs
        @ (if max_tokens \<noteq> 0 then prefill_events tokens else [])
        @ token_events 0 toks
        @ [(GENERATION_COMPLETED, GenerationCompleted 0 status
            (if status = EOS then of_nat (length toks) else 0))]"
proof -
  from assms(1) obtain stopped r' where
    l: "gen_loop R z (unat max_tokens) 0 tokens 0 [] ie evs = Inr (stopped, r')"
    and r: "r = finish_run R (stopped, r')" by (rule generateE)
  from gen_loop_adds [OF l assms(2)] obtain toks where
    a: "loop_adds (unat max_tokens) 0 tokens 0 [] evs stopped r' toks" by auto
  show ?thesis
    using a r
    by (intro exI [of _ toks] exI [of _ "if stopped then EOS else MAX_CTX_REACHED"])
      (auto simp: loop_adds_def finish_run_def unat_gt_0 unat_eq_zero word_neq_0_conv)
qed

section \<open>Graphs\<close>

lemma predict_builds:
  assumes "predict B nb tokens past ie = Inr (logits, ie')" and "\<forall>n. be_reserve B n"
  shows "graph_ready ie' \<and> cached_n_tokens ie' = of_nat (length tokens) \<and>
    inf_builds ie' = inf_builds ie
      + (if graph_ready ie \<and> cached_n_tokens ie = of_nat (length tokens) then 0 else 1)"
  using assms
  by (auto simp: predict_def prepare_def init_context_def new_graph_def compute_def Let_def
      split: if_splits option.splits prod.splits elim!: rbindE)

lemma gen_loop_one:
  assumes "gen_loop R z (Suc n) i tokens past outp ie evs = Inr (stopped, r)"
  obtains logits ie' where "predict (re_backend R) (re_n_blocks R) tokens past ie = Inr (logits, ie')"
    "gr_inference r = ie' \<or> (\<exists>id past' outp' evs'.
      gen_loop R z n (i + 1) [id] past' outp' ie' evs' = Inr (stopped, r))"
proof -
  from assms obtain logits ie' where
    p: "predict (re_backend R) (re_n_blocks R) tokens past ie = Inr (logits, ie')"
    by (auto simp: Let_def elim!: rbindE)
  show ?thesis
  proof (rule that [OF p])
    let ?id = "fst (sample (re_floats R) (re_random R i) (re_sampler R) logits)"
    show "gr_inference r = ie' \<or> (\<exists>id past' outp' evs'.
        gen_loop R z n (i + 1) [id] past' outp' ie' evs' = Inr (stopped, r))"
    proof (cases "is_stop_token z (decode z (of_nat ?id))")
      case True
      with assms p show ?thesis by (auto simp: Let_def)
    next
      case False
      with assms p have "\<exists>evs'. gen_loop R z n (i + 1) [wrap32 (int ?id)] (past + int (length tokens))
          (outp @ decode z (of_nat ?id)) ie' evs' = Inr (stopped, r)"
        by (simp add: Let_def split: if_splits) (intro exI, assumption)+
      then show ?thesis by metis
    qed
  qed
qed

lemma gen_loop_builds_steady:
  assumes "gen_loop R z n i [t] past outp ie evs = Inr (stopped, r)"
    and "\<forall>n. be_reserve (re_backend R) n" and "graph_ready ie" and "cached_n_tokens ie = 1"
  shows "inf_builds (gr_inference r) = inf_builds ie"
  using assms(1,3,4)
proof (induction n arbitrary: i t past outp ie evs)
  case (Suc n)
  from Suc.prems(1) show ?case
  proof (rule gen_loop_one)
    fix logits ie'
    assume p: "predict (re_backend R) (re_n_blocks R) [t] past ie = Inr (logits, ie')"
      and r: "gr_inference r = ie' \<or> (\<exists>id past' outp' evs'.
        gen_loop R z n (i + 1) [id] past' outp' ie' evs' = Inr (stopped, r))"
    from predict_builds [OF p assms(2)] Suc.prems have
      "graph_ready ie'" "cached_n_tokens ie' = 1" "inf_builds ie' = inf_builds ie" by auto
    with r Suc.IH show ?thesis by fastforce
  qed
qed auto

lemma gen_loop_builds:
  assumes "gen_loop R z n i tokens past outp ie evs = Inr (stopped, r)"
    and "\<forall>n. be_reserve (re_backend R) n"
  shows "inf_builds (gr_inference r) \<le> inf_builds ie + 2"
proof -
  have one: "inf_builds (gr_inference r) \<le> inf_builds ie + 1"
    if "gen_loop R z n i [t] past outp ie evs = Inr (stopped, r)" for n i t past outp ie evs
  proof (cases n)
    case (Suc k)
    from that [unfolded Suc] show ?thesis
    proof (rule gen_loop_one)
      fix logits ie'
      assume p: "predict (re_backend R) (re_n_blocks R) [t] past ie = Inr (logits, ie')"
        and r: "gr_inference r = ie' \<or> (\<exists>id past' outp' evs'.
          gen_loop R z k (i + 1) [id] past' outp' ie' evs' = Inr (stopped, r))"
      from predict_builds [OF p assms(2)] have
        "graph_ready ie'" "cached_n_tokens ie' = 1" "inf_builds ie' \<le> inf_builds ie + 1" by auto
      with r gen_loop_builds_steady [OF _ assms(2)] show ?thesis by fastforce
    qed
  qed (use that in auto)
  show ?thesis
  proof (cases n)
    case (Suc k)
    from assms(1) [unfolded Suc] show ?thesis
    proof (rule gen_loop_one)
      fix logits ie'
      assume p: "predict (re_backend R) (re_n_blocks R) tokens past ie = Inr (logits, ie')"
        and r: "gr_inference r = ie' \<or> (\<exists>id past' outp' evs'.
          gen_loop R z k (i + 1) [id] past' outp' ie' evs' = Inr (stopped, r))"
      from predict_builds [OF p assms(2)] have "inf_builds ie' \<le> inf_builds ie + 1" by auto
      with r one show ?thesis by fastforce
    qed
  qed (use assms in auto)
qed

section \<open>Returning\<close>

text \<open>An engine that computes, with a row of logits for each input token.\<close>

definition backend_ok :: "('s, 'f) backend \<Rightarrow> bool" where
  "backend_ok B \<longleftrightarrow> (\<forall>s tokens past. \<exists>rows s'. be_compute B s tokens past = Some (rows, s')
     \<and> length tokens \<le> length rows)"

lemma predict_returns:
  assumes "backend_ok B" and "tokens \<noteq> []" and "length tokens < 2 ^ 31"
  shows "\<exists>logits ie'. predict B nb tokens past ie = Inr (logits, ie')"
proof -
  have "unat (of_nat (length tokens) - 1 :: u64) = length tokens - 1"
  proof -
    have "of_nat (length tokens) - 1 = (of_nat (length tokens - 1) :: u64)"
      using assms(2) by (cases tokens) auto
    then show ?thesis using assms(3) by (simp only: unat_of_nat) (simp add: take_bit_nat_eq_self)
  qed
  then have last: "unat (of_nat (length tokens) - 1 :: u64) < length tokens"
    using assms(2) by simp
  obtain ok ie2 where "(if \<not> graph_ready ie \<or> of_nat (length tokens) \<noteq> cached_n_tokens ie
      then prepare B (of_nat (length tokens)) (new_graph (init_context B (unat (nb * 64 + 256)) ie))
      else (True, ie)) = (ok, ie2)" by fastforce
  moreover obtain rows s' where "be_compute B (inf_engine ie2) tokens past = Some (rows, s')"
    "length tokens \<le> length rows"
    using assms(1) unfolding backend_ok_def by blast
  moreover from this last have "vec_at rows (unat (of_nat (length tokens) - 1 :: u64))
      = Inr (rows ! unat (of_nat (length tokens) - 1 :: u64))" by (intro vec_at_in) simp
  ultimately show ?thesis
    unfolding predict_def Let_def by (auto simp: compute_def)
qed

text \<open>
  What the generation loop asks of an engine: as long as an invariant holds and the positions fit
  into an \<open>int\<close>, a prediction on the prompt or on one token gives logits and keeps the invariant.
\<close>

locale steady_engine =
  fixes B :: "('s, 'f) backend" and nb :: u32 and fits :: "int list \<Rightarrow> bool"
    and inv :: "'s inference \<Rightarrow> bool"
  assumes fits_one: "fits tokens \<Longrightarrow> fits [t]"
    and fits_some: "fits tokens \<Longrightarrow> tokens \<noteq> []"
    and predicts: "fits tokens \<Longrightarrow> inv ie \<Longrightarrow> 0 \<le> past \<Longrightarrow> past + int (length tokens) \<le> 2 ^ 31 \<Longrightarrow>
      \<exists>logits ie'. predict B nb tokens past ie = Inr (logits, ie') \<and> inv ie'"
begin

lemma loop_returns:
  assumes "re_backend R = B" and "re_n_blocks R = nb" and "fits tokens" and "inv ie" and "0 \<le> past"
    and "i + n < 2 ^ 31" and "past + int (length tokens + n) \<le> 2 ^ 31"
  shows "\<exists>br. gen_loop R z n i tokens past outp ie evs = Inr br"
  using assms(3-)
proof (induction n arbitrary: i tokens past outp ie evs)
  case (Suc n)
  have "past + int (length tokens) \<le> 2 ^ 31" using Suc.prems(5) by simp
  from predicts [OF Suc.prems(1-3) this] obtain logits ie' where
    p: "predict (re_backend R) (re_n_blocks R) tokens past ie = Inr (logits, ie')" "inv ie'"
    using assms(1,2) by auto
  have "\<exists>br. gen_loop R z n (Suc i) [t] (past + int (length tokens)) outp' ie' evs' = Inr br"
    for t outp' evs'
    using Suc.prems fits_one [OF Suc.prems(1)] p(2) by (intro Suc.IH) auto
  with p(1) Suc.prems(4) show ?case by (auto simp: Let_def)
qed auto

lemma run_returns:
  assumes "re_backend R = B" and "re_n_blocks R = nb" and "fits tokens" and "inv ie"
    and "unat max_tokens < 2 ^ 31" and "length tokens + unat max_tokens \<le> 2 ^ 31"
  shows "\<exists>r. generate R z max_tokens tokens ie evs = Inr r"
proof -
  have "int x \<le> 2 ^ 31" if "x \<le> 2 ^ 31" for x using that by simp
  from this [OF assms(6)] have "0 + int (length tokens + unat max_tokens) \<le> 2 ^ 31" by linarith
  moreover have "0 + unat max_tokens < 2 ^ 31" using assms(5) by simp
  ultimately have "\<exists>br. gen_loop R z (unat max_tokens) 0 tokens 0 [] ie evs = Inr br"
    using loop_returns [OF assms(1-4)] by blast
  then show ?thesis by (auto simp: generate_def)
qed

end

text \<open>An abstract engine that always computes is one, without any invariant of the state.\<close>

interpretation abstract: steady_engine B nb "\<lambda>tokens. backend_ok B \<and> tokens \<noteq> [] \<and> length tokens < 2 ^ 31"
    "\<lambda>ie. True"
  for B :: "('s, 'f) backend" and nb
  by unfold_locales (auto intro: predict_returns)

lemma gen_loop_returns:
  assumes "backend_ok (re_backend R)" and "tokens \<noteq> []" and "length tokens < 2 ^ 31"
    and "i + n < 2 ^ 31"
  shows "\<exists>br. gen_loop R z n i tokens past outp ie evs = Inr br"
  using assms(2-)
proof (induction n arbitrary: i tokens past outp ie evs)
  case (Suc n)
  from predict_returns [OF assms(1) Suc.prems(1,2)] obtain logits ie' where
    p: "predict (re_backend R) (re_n_blocks R) tokens past ie = Inr (logits, ie')" by blast
  have "\<exists>br. gen_loop R z n (Suc i) [t] past' outp' ie'' evs' = Inr br" for t past' outp' ie'' evs'
    using Suc.prems(3) by (intro Suc.IH) simp_all
  with p Suc.prems(3) show ?case by (auto simp: Let_def)
qed auto

end
