(* ===== verification/Runtime_Properties.thy ===== *)
theory Runtime_Properties
  imports Task_Worker Metrics Inference_Facts
begin

text \<open>The properties of the runtime: the task worker, the event bus, metrics, sampling, a run.\<close>

section \<open>The task worker\<close>

text \<open>
  C21: the worker settles promises in order and once. In every state that can be reached, the
  settled promises, the one being executed and the queued ones are the accepted ones in order of
  submission without repetition; a settled promise has the outcome of its own task, or the
  cancellation that only a stopped worker hands out.
\<close>

theorem worker_settles_in_order:
  assumes "worker_reachable run w"
  shows "map fst (w_outcomes w) @ in_flight (w_thread w) @ map snd (w_tasks w) = map snd (w_accepted w)
    \<and> distinct (map snd (w_accepted w))
    \<and> (\<forall>po \<in> set (w_outcomes w). outcome_ok run w po)"
  using worker_invariant [OF assms] by (simp add: worker_inv_def)

definition demo_run :: "nat \<Rightarrow> string + nat" where
  "demo_run n = (if n = 0 then Inl ''empty'' else Inr (n + 1))"

definition demo_worker :: "(nat, nat) worker" where
  "demo_worker = \<lparr>w_running = False, w_tasks = [(7, 1)], w_thread = Executing 5 0,
     w_outcomes = [], w_accepted = [(5, 0), (7, 1)]\<rparr>"

lemma demo_worker_reachable: "worker_reachable demo_run demo_worker"
proof -
  let ?w1 = "\<lparr>w_running = True, w_tasks = [(5, 0)], w_thread = Waiting, w_outcomes = [],
    w_accepted = [(5, 0)]\<rparr> :: (nat, nat) worker"
  let ?w2 = "\<lparr>w_running = True, w_tasks = [], w_thread = Executing 5 0, w_outcomes = [],
    w_accepted = [(5, 0)]\<rparr> :: (nat, nat) worker"
  let ?w3 = "\<lparr>w_running = True, w_tasks = [(7, 1)], w_thread = Executing 5 0, w_outcomes = [],
    w_accepted = [(5, 0), (7, 1)]\<rparr> :: (nat, nat) worker"
  have a: "worker_step demo_run worker_init ?w1"
    by (rule submit [of 0 _ 5]) (simp_all add: worker_init_def add_task_def)
  have b: "worker_step demo_run ?w1 ?w2"
    by (intro thread wake) (simp_all add: run_locked_def)
  have c: "worker_step demo_run ?w2 ?w3"
    by (rule submit [of 1 _ 7]) (simp_all add: add_task_def)
  have d: "worker_step demo_run ?w3 demo_worker"
    using stop [of demo_run ?w3] by (simp add: stop_worker_def demo_worker_def)
  from a have "worker_reachable demo_run ?w1" by (rule r_into_rtranclp)
  from this b have "worker_reachable demo_run ?w2" by (rule rtranclp.rtrancl_into_rtrancl)
  from this c have "worker_reachable demo_run ?w3" by (rule rtranclp.rtrancl_into_rtrancl)
  from this d show ?thesis by (rule rtranclp.rtrancl_into_rtrancl)
qed

theorem worker_settles_in_order_witness:
  "map fst (w_outcomes demo_worker) @ in_flight (w_thread demo_worker) @ map snd (w_tasks demo_worker)
      = map snd (w_accepted demo_worker)
    \<and> distinct (map snd (w_accepted demo_worker))
    \<and> list_all (outcome_ok demo_run demo_worker) (w_outcomes demo_worker)"
  using worker_settles_in_order [OF demo_worker_reachable] by (simp add: list_all_iff)

text \<open>
  C18: shutdown leaves no caller waiting. Once the worker is stopped its thread takes at most two
  more turns, whatever it was doing, and it can always take them; when it can take none it has
  left the loop and every accepted promise is settled.
\<close>

theorem stop_settles_all:
  assumes "worker_reachable run w" and "\<not> w_running w" and "(thread_step run ^^ n) w w'"
  shows "n \<le> 2 \<and> (if n < turns_left w then \<exists>w''. thread_step run w' w''
    else w_thread w' = Exited \<and> map fst (w_outcomes w') = map snd (w_accepted w'))"
proof -
  have "worker_inv run w' \<and> \<not> w_running w' \<and> turns_left w = n + turns_left w'"
    using assms(3)
  proof (induction n arbitrary: w')
    case 0
    then show ?case using worker_invariant [OF assms(1)] assms(2) by simp
  next
    case (Suc n)
    then obtain v where v: "(thread_step run ^^ n) w v" "thread_step run v w'" by auto
    from Suc.IH [OF v(1)] have IH: "worker_inv run v" "\<not> w_running v" "turns_left w = n + turns_left v"
      by auto
    have "worker_inv run w'" using v(2) IH(1)
      by (cases rule: thread_step.cases) (auto intro: inv_run_locked inv_execute)
    with thread_step_stopped [OF IH(2) v(2)] IH(3) show ?case by simp
  qed
  moreover have "turns_left w \<le> 2" by (simp add: turns_left_def split: thread.splits)
  moreover have "turns_left w' = 0 \<longleftrightarrow> w_thread w' = Exited"
    by (simp add: turns_left_def split: thread.splits)
  ultimately show ?thesis using thread_not_stuck [of w' run]
    by (auto simp: worker_inv_def in_flight_def)
qed

theorem stop_settles_all_witness:
  "(0 :: nat) \<le> 2 \<and> (if 0 < turns_left demo_worker then \<exists>w''. thread_step demo_run demo_worker w''
    else w_thread demo_worker = Exited
      \<and> map fst (w_outcomes demo_worker) = map snd (w_accepted demo_worker))"
  by (rule stop_settles_all [OF demo_worker_reachable]) (simp_all add: demo_worker_def)

section \<open>Events\<close>

text \<open>
  C24: after any history of calls, dispatching an event of a group calls exactly the listeners
  registered for the group since it was last unregistered that asked for the event, in the order
  of their registration.
\<close>

theorem dispatch_calls_listeners:
  "fst (dispatch gid e (fold run_call cs dispatcher_init))
    = map fst (filter (\<lambda>(cb, evs). e \<in> set evs) (heard gid [] cs))"
proof -
  have "listeners_of (dispatcher_init :: 'a dispatcher) gid = []"
    by (simp add: listeners_of_def dispatcher_init_def)
  with bus.emit_history [of gid e cs dispatcher_init] show ?thesis by (simp add: run_call_def)
qed

text \<open>The callback counter is the number of registered listeners, after any history.\<close>

theorem callbacks_count_exact:
  "callbacks_count (fold run_call cs dispatcher_init) = total_listeners (fold run_call cs dispatcher_init)"
  using bus_inv_history [of cs] by (simp add: bus_inv_def)

section \<open>Metrics\<close>

text \<open>
  The times of a run are counted from the end of tokenization, not from its start: for the
  events of a run that generated at least one token, time to first token and total time start at
  the stamp of \<open>TOKENIZER_COMPLETED\<close>, and that of \<open>TOKENIZER_STARTED\<close> has no influence.
\<close>

definition run_events :: "time_point \<Rightarrow> time_point \<Rightarrow> time_point \<Rightarrow> time_point \<Rightarrow>
    (time_point \<times> string) list \<Rightarrow> time_point \<Rightarrow> stream_status \<Rightarrow> u32 \<Rightarrow> inference_event list" where
  "run_events t0 t1 t2 t3 toks t5 st c =
     [TokenizerStarted t0 9, TokenizerCompleted t1 4, PrefillStart t2 4, PrefillEnd t3 4]
     @ map (\<lambda>(i, t, s). TokenGenerated t (of_nat i) s) (zip [0..<length toks] toks)
     @ [GenerationCompleted t5 st c]"

lemma later_tokens_ignored:
  "0 < i \<Longrightarrow> i + length toks < 2 ^ 32 \<Longrightarrow>
    fold on_event (map (\<lambda>(i, t, s). TokenGenerated t (of_nat i) s) (zip [i..<i + length toks] toks)) m = m"
proof (induction toks arbitrary: i)
  case (Cons tok toks)
  have "[i..<i + length (tok # toks)] = i # [Suc i..<Suc i + length toks]"
    by (simp add: upt_conv_Cons del: upt_Suc)
  moreover have "(of_nat i :: u32) \<noteq> 0"
    using Cons.prems nat_dvd_not_less [of i "2 ^ 32"] by (simp add: word_of_nat_eq_0_iff)
  ultimately show ?case using Cons.IH [of "Suc i"] Cons.prems
    by (cases tok) (simp del: upt_Suc)
qed simp

theorem times_start_after_tokenization:
  assumes "toks \<noteq> []" and "length toks < 2 ^ 32"
  shows "let g = get_metrics to_float rate (fold on_event (run_events t0 t1 t2 t3 toks t5 st c) m) in
    time_to_first_token g = to_float (millis (fst (hd toks) - t1)) \<and>
    total_time g = millis (t5 - t1) \<and> prefill_latency g = millis (t3 - t2) \<and>
    decode_time g = millis (t5 - t3) \<and> mm_out_tokens g = c"
proof -
  obtain t s rest where toks: "toks = (t, s) # rest" using assms(1) by (cases toks) auto
  have zip: "zip [0..<length toks] toks = (0, t, s) # zip [1..<1 + length rest] rest"
    by (simp add: toks upt_conv_Cons del: upt_Suc)
  show ?thesis
    unfolding run_events_def zip
    using later_tokens_ignored [of 1 rest] assms(2) toks
    by (simp add: get_metrics_def Let_def del: upt_Suc)
qed

theorem times_start_after_tokenization_witness:
  "let g = get_metrics id (\<lambda>n ms. 0)
      (fold on_event (run_events 0 5000000 6000000 9000000 [(11000000, ''a''), (12000000, ''b'')]
        13000000 EOS 2) (collector_new ''r'' 0 0 0 0)) in
    time_to_first_token g = id (millis (fst (hd [(11000000, ''a''), (12000000, ''b'')]) - 5000000)) \<and>
    total_time g = millis (13000000 - 5000000) \<and> prefill_latency g = millis (9000000 - 6000000) \<and>
    decode_time g = millis (13000000 - 9000000) \<and> mm_out_tokens g = 2"
  by (rule times_start_after_tokenization) simp_all

section \<open>Sampling\<close>

text \<open>
  Whatever floating-point arithmetic does, for non-empty logits the sampled id is an index
  of them.
\<close>

theorem sample_in_range:
  assumes "logits \<noteq> []"
  shows "fst (sample F rand s logits) < length logits"
proof -
  have "fst (top_k_sample F rand tk ls) < length ls" if "ls \<noteq> []" for tk ls
  proof (cases "pick_scan F rand (d_zero F) 0 (softmax F (top_k_mask F (min (unat tk) (length ls)) ls))")
    case None
    with that show ?thesis by (simp add: top_k_sample_def Let_def)
  next
    case (Some r)
    with pick_scan_range [OF Some] show ?thesis by (simp add: top_k_sample_def Let_def)
  qed
  with assms show ?thesis
    by (simp add: sample_def greedy_def Let_def max_element_range)
       (metis length_map map_is_Nil_conv max_element_range)
qed

text \<open>Integers in place of floats, as an instance.\<close>

definition int_floats :: "(int, int) float_ops" where
  "int_floats = \<lparr>f_lt = (<), f_pos = (\<lambda>x. 0 < x), f_div = (\<lambda>x y. x div y),
     f_add = (+), f_ge = (\<lambda>x y. y \<le> x),
     f_exp_diff = (\<lambda>x m. if x < - 100 then 0 else 100 + x - m), f_zero = 0, f_neg_inf = - 1000,
     d_zero = 0, d_add = (+), d_ge = (\<lambda>x y. y \<le> x), fd_div = (\<lambda>x s. x)\<rparr>"

theorem sample_in_range_witness:
  "fst (sample int_floats 50 \<lparr>temp = 1, top_k = 2\<rparr> [3, 7, 5]) < length [3, 7, 5 :: int]"
  by (rule sample_in_range) simp

text \<open>
  Greedy sampling picks the first maximum. With a comparison that is a strict weak order (no
  NaN among the logits) no logit exceeds the chosen one and all before it are smaller.
\<close>

theorem greedy_first_maximum:
  assumes "weak_order (f_lt F)" and "logits \<noteq> []"
  shows "logits ! fst (greedy F logits) = snd (greedy F logits)
    \<and> (\<forall>j < length logits. \<not> f_lt F (logits ! fst (greedy F logits)) (logits ! j))
    \<and> (\<forall>j < fst (greedy F logits). f_lt F (logits ! j) (logits ! fst (greedy F logits)))"
  using max_scan_max [OF assms(1), of "[hd logits]" 1 "(0, hd logits)" "tl logits"] assms(2)
    weak_orderD(3) [OF assms(1)]
  by (simp add: greedy_def max_element_def Let_def)

theorem greedy_first_maximum_witness:
  "let best = fst (greedy int_floats [3, 7, 5, 7]) in
    [3, 7, 5, 7] ! best = snd (greedy int_floats [3, 7, 5, 7])
    \<and> list_all (\<lambda>j. \<not> f_lt int_floats ([3, 7, 5, 7] ! best) ([3, 7, 5, 7] ! j)) [0..<4]
    \<and> list_all (\<lambda>j. f_lt int_floats ([3, 7, 5, 7] ! j) ([3, 7, 5, 7] ! best)) [0..<best]"
proof -
  have "weak_order (f_lt int_floats)" by (auto simp: int_floats_def weak_order_def)
  from greedy_first_maximum [OF this, of "[3, 7, 5, 7]"] show ?thesis
    unfolding Let_def list_all_iff set_upt by (force simp del: nth_Cons')
qed



section \<open>A run\<close>

text \<open>
  C13: the events of a run. A run on a non-empty prompt that returns logs one prefill pair (unless
  no token may be generated), then one \<open>TOKEN_GENERATED\<close> per generated token with consecutive
  sequence numbers, then exactly one \<open>GENERATION_COMPLETED\<close>; the output is the generated tokens,
  of which there are at most \<open>max_tokens\<close>. The completion reports the count when a stop token ended
  the run, and zero tokens when the limit did.
\<close>

theorem generation_protocol:
  assumes "generate R z max_tokens tokens ie evs = Inr r" and "tokens \<noteq> []"
  shows "\<exists>toks status. gr_output r = concat toks \<and> gr_count r = length toks
    \<and> length toks \<le> unat max_tokens
    \<and> (status = MAX_CTX_REACHED \<longleftrightarrow> length toks = unat max_tokens) \<and> status \<noteq> CONTINUE
    \<and> ulog (gr_events r) = ulog evs
        @ (if max_tokens \<noteq> 0 then prefill_events tokens else [])
        @ token_events 0 toks
        @ [(GENERATION_COMPLETED, GenerationCompleted 0 status
            (if status = EOS then of_nat (length toks) else 0))]"
  by (rule generate_log [OF assms])

definition demo_env :: "(unit, int, int) run_env" where
  "demo_env = \<lparr>re_backend = \<lparr>be_ctx_size = (\<lambda>n. n), be_reserve = (\<lambda>n. True),
       be_compute = (\<lambda>s toks past. Some (map (\<lambda>t. [past, 1, 2]) toks, ()))\<rparr>,
     re_floats = int_floats, re_sampler = \<lparr>temp = 0, top_k = 0\<rparr>, re_random = (\<lambda>n. 0),
     re_clock = int, re_n_blocks = 2\<rparr>"

definition demo_tokenizer :: tokenizer where
  "demo_tokenizer = \<lparr>tz_model = [], tz_pre = ''qwen2'', tz_tokens = [''</s>'', ''a'', ''b''],
     tz_types = [3, 1, 1], tz_re = [], tz_maps = \<lparr>bm_b2u = [], bm_u2b = []\<rparr>, tz_merges = [],
     token_to_id = [(''</s>'', 0), (''a'', 1), (''b'', 2)],
     id_to_token = [(0, ''</s>''), (1, ''a''), (2, ''b'')], tz_stop = stop_tokens,
     tz_trie = trie_empty,
     tz_info = \<lparr>tk_model = [], tk_pre = [], eos_token_id = 0, padding_token_id = 0,
       bos_token_id = 0, add_bos_token = False, tk_tokens = [], tk_merges = [],
       tk_token_type = [], template_str = []\<rparr>\<rparr>"

lemma demo_generates: "\<exists>r. generate demo_env demo_tokenizer 5 [1, 1] (inference_new ()) evs = Inr r"
proof -
  have "backend_ok (re_backend demo_env)" by (simp add: backend_ok_def demo_env_def)
  then have "\<exists>br. gen_loop demo_env demo_tokenizer (unat (5 :: u32)) 0 [1, 1] 0 []
      (inference_new ()) evs = Inr br"
    by (rule gen_loop_returns) simp_all
  then show ?thesis by (auto simp: generate_def)
qed

theorem generation_protocol_witness:
  "\<exists>r toks status. generate demo_env demo_tokenizer 5 [1, 1] (inference_new ()) [] = Inr r
    \<and> gr_output r = concat toks \<and> gr_count r = length toks \<and> length toks \<le> unat (5 :: u32)
    \<and> (status = MAX_CTX_REACHED \<longleftrightarrow> length toks = unat (5 :: u32)) \<and> status \<noteq> CONTINUE
    \<and> ulog (gr_events r) = ulog [] @ (if (5 :: u32) \<noteq> 0 then prefill_events [1, 1] else [])
        @ token_events 0 toks
        @ [(GENERATION_COMPLETED, GenerationCompleted 0 status
            (if status = EOS then of_nat (length toks) else 0))]"
proof -
  from demo_generates obtain r where
    r: "generate demo_env demo_tokenizer 5 [1, 1] (inference_new ()) [] = Inr r" ..
  from generation_protocol [OF r] r show ?thesis by blast
qed

text \<open>
  Generation returns. With an engine that computes a row of logits per input token, a
  non-empty prompt and a limit below \<open>2 ^ 31\<close>, the loop ends in a result and in no fault.
\<close>

theorem generation_returns:
  assumes "backend_ok (re_backend R)" and "tokens \<noteq> []" and "length tokens < 2 ^ 31"
    and "unat max_tokens < 2 ^ 31"
  shows "\<exists>r. generate R z max_tokens tokens ie evs = Inr r"
proof -
  have "\<exists>br. gen_loop R z (unat max_tokens) 0 tokens 0 [] ie evs = Inr br"
    by (rule gen_loop_returns [OF assms(1-3)]) (simp add: assms(4) [simplified])
  then show ?thesis by (auto simp: generate_def)
qed

theorem generation_returns_witness:
  "\<exists>r. generate demo_env demo_tokenizer 100 [1] (inference_new ()) [] = Inr r"
  by (rule generation_returns) (simp_all add: backend_ok_def demo_env_def)

text \<open>
  A run builds at most two graphs, however many tokens it generates: one for the prompt and
  one for single tokens. What \<open>build_graph\<close> does, such as placing the key/value copies, therefore
  happens at most twice per run.
\<close>

theorem at_most_two_graphs:
  assumes "generate R z max_tokens tokens ie evs = Inr r" and "\<forall>n. be_reserve (re_backend R) n"
  shows "inf_builds (gr_inference r) \<le> inf_builds ie + 2"
proof -
  from assms(1) obtain stopped r' where
    l: "gen_loop R z (unat max_tokens) 0 tokens 0 [] ie evs = Inr (stopped, r')"
    and r: "r = finish_run R (stopped, r')" by (rule generateE)
  from gen_loop_builds [OF l assms(2)] r show ?thesis by (simp add: finish_run_def)
qed

theorem at_most_two_graphs_witness:
  "\<exists>r. generate demo_env demo_tokenizer 5 [1, 1] (inference_new ()) [] = Inr r
    \<and> inf_builds (gr_inference r) \<le> inf_builds (inference_new ()) + 2"
proof -
  from demo_generates obtain r where
    r: "generate demo_env demo_tokenizer 5 [1, 1] (inference_new ()) [] = Inr r" ..
  have "\<forall>n. be_reserve (re_backend demo_env) n" by (simp add: demo_env_def)
  from at_most_two_graphs [OF r this] r show ?thesis by blast
qed

end
