(* ===== verification/Server_Session.thy ===== *)
theory Server_Session
  imports Prelude "HOL-Library.Sublist"
begin

text \<open>
  Streaming of a chat completion to an HTTP client (class \<open>Session\<close> in
  \<open>tools/serve/server.hpp\<close>, \<open>server.cpp\<close>): other threads push encoded messages and post a flush
  to the session's strand; the strand writes the header and then the chunks one after the other.
  Asio is outside the repository: the strand is a queue of posted tasks run one at a time, an
  asynchronous write is outstanding until one of its two completions, success or error, runs.
\<close>

section \<open>Chunks\<close>

fun hex_digit :: "nat \<Rightarrow> char" where
  "hex_digit d = (if d < 10 then char_of (48 + d) else char_of (87 + d))"

fun nat_hex :: "nat \<Rightarrow> string" where
  "nat_hex n = (if n < 16 then [hex_digit n] else nat_hex (n div 16) @ [hex_digit (n mod 16)])"

declare nat_hex.simps [simp del]

definition cr :: char where "cr = CHR 0x0D"
definition lf :: char where "lf = CHR 0x0A"

definition make_chunk :: "string \<Rightarrow> string" where
  "make_chunk raw = nat_hex (length raw) @ [cr, lf] @ raw @ [cr, lf]"

definition last_chunk :: string where
  "last_chunk = ''0'' @ [cr, lf, cr, lf]"

text \<open>The bytes of a message: \<open>payload\<close> is the serialized JSON value.\<close>

definition message_bytes :: "string \<Rightarrow> bool \<Rightarrow> string" where
  "message_bytes payload is_end =
     (let raw = ''data: '' @ payload @ [lf, lf] @ (if is_end then ''data: [DONE]'' @ [lf, lf] else [])
      in make_chunk raw @ (if is_end then last_chunk else []))"

text \<open>\<open>current_chunk.find("0\r\n\r\n") != npos\<close>\<close>

definition ends_stream :: "string \<Rightarrow> bool" where
  "ends_stream chunk \<longleftrightarrow> sublist last_chunk chunk"

section \<open>The session\<close>

datatype stream_write = HeaderWrite | ChunkWrite string

datatype strand_task = FlushTask | InitTask

datatype wire_item = Header | Chunk string

text \<open>
  \<open>s_write\<close> is the outstanding write, \<open>s_overlap\<close> records that one was started while another was
  outstanding, \<open>s_wire\<close> what has been written, \<open>s_pushed\<close> what has been pushed; the code has none of
  these. \<open>s_reading\<close>: the next request is being read. \<open>s_calls\<close>: calls of \<open>stream_json_message\<close> that
  have pushed and not yet posted.
\<close>

record session =
  is_writing :: bool
  header_sent :: bool
  streaming_queue :: "string list"
  s_posted :: "strand_task list"
  s_write :: "stream_write option"
  s_overlap :: bool
  s_wire :: "wire_item list"
  s_pushed :: "string list"
  s_closed :: bool
  s_reading :: bool
  s_keep_alive :: bool
  s_calls :: nat

definition start_write :: "stream_write \<Rightarrow> session \<Rightarrow> session" where
  "start_write wr s = s\<lparr>s_overlap := s_overlap s \<or> s_write s \<noteq> None, s_write := Some wr\<rparr>"

definition flush_streaming_queue :: "session \<Rightarrow> session" where
  "flush_streaming_queue s =
     (if is_writing s then s
      else if \<not> header_sent s then start_write HeaderWrite (s\<lparr>is_writing := True\<rparr>)
      else case streaming_queue s of
        [] \<Rightarrow> s
      | current_chunk # rest \<Rightarrow>
          start_write (ChunkWrite current_chunk) (s\<lparr>streaming_queue := rest, is_writing := True\<rparr>))"

text \<open>
  A message is pushed under the mutex of the queue, and a flush is posted after that: the strand may run
  in between.
\<close>

definition push_message :: "string \<Rightarrow> bool \<Rightarrow> session \<Rightarrow> session" where
  "push_message payload is_end s =
     (let bytes = message_bytes payload is_end in
      s\<lparr>streaming_queue := streaming_queue s @ [bytes], s_pushed := s_pushed s @ [bytes],
        s_calls := s_calls s + 1\<rparr>)"

definition post_flush :: "session \<Rightarrow> session" where
  "post_flush s = s\<lparr>s_posted := s_posted s @ [FlushTask], s_calls := s_calls s - 1\<rparr>"

definition stream_json_message :: "string \<Rightarrow> bool \<Rightarrow> session \<Rightarrow> session" where
  "stream_json_message payload is_end s = post_flush (push_message payload is_end s)"

definition initiate_streaming :: "session \<Rightarrow> session" where
  "initiate_streaming s = s\<lparr>s_posted := s_posted s @ [InitTask]\<rparr>"

fun run_task :: "strand_task \<Rightarrow> session \<Rightarrow> session" where
  "run_task FlushTask s = flush_streaming_queue s"
| "run_task InitTask s = flush_streaming_queue (s\<lparr>header_sent := False\<rparr>)"

definition do_close :: "session \<Rightarrow> session" where
  "do_close s = s\<lparr>s_closed := True\<rparr>"

definition do_read :: "session \<Rightarrow> session" where
  "do_read s = s\<lparr>s_reading := True\<rparr>"

text \<open>The completion handlers; \<open>ok\<close> is the absence of an error code.\<close>

definition header_written :: "bool \<Rightarrow> session \<Rightarrow> session" where
  "header_written ok s =
     (if \<not> ok then do_close s
      else flush_streaming_queue (s\<lparr>header_sent := True, is_writing := False\<rparr>))"

definition chunk_written :: "bool \<Rightarrow> string \<Rightarrow> session \<Rightarrow> session" where
  "chunk_written ok current_chunk s =
     (if \<not> ok then do_close (s\<lparr>is_writing := False\<rparr>)
      else let s = s\<lparr>is_writing := False\<rparr> in
        if ends_stream current_chunk then (if s_keep_alive s then do_read s else do_close s)
        else flush_streaming_queue s)"

text \<open>
  The end of an outstanding write. Bytes reach the wire on success only, and are those the buffer had when the
  write was started: the code's buffer is a local string, so that this holds of what Asio takes at once; a socket shut down for
  sending does not take any.
\<close>

definition complete_write :: "bool \<Rightarrow> stream_write \<Rightarrow> session \<Rightarrow> session" where
  "complete_write ok wr s = (case wr of
      HeaderWrite \<Rightarrow>
        header_written ok (s\<lparr>s_write := None, s_wire := s_wire s @ (if ok then [Header] else [])\<rparr>)
    | ChunkWrite c \<Rightarrow>
        chunk_written ok c (s\<lparr>s_write := None, s_wire := s_wire s @ (if ok then [Chunk c] else [])\<rparr>))"

section \<open>Interleavings while one reply is streamed\<close>

inductive stream_step :: "session \<Rightarrow> session \<Rightarrow> bool" where
  push: "stream_step s (push_message payload is_end s)"
| post: "0 < s_calls s \<Longrightarrow> stream_step s (post_flush s)"
| task: "s_posted s = t # ts \<Longrightarrow> stream_step s (run_task t (s\<lparr>s_posted := ts\<rparr>))"
| written: "s_write s = Some wr \<Longrightarrow> (ok \<Longrightarrow> \<not> s_closed s) \<Longrightarrow> stream_step s (complete_write ok wr s)"

text \<open>The state in which \<open>chat_completion\<close> has called \<open>initiate_streaming\<close> on an idle session.\<close>

definition session_idle :: "bool \<Rightarrow> bool \<Rightarrow> session" where
  "session_idle hs keep = \<lparr>is_writing = False, header_sent = hs, streaming_queue = [], s_posted = [],
     s_write = None, s_overlap = False, s_wire = [], s_pushed = [], s_closed = False,
     s_reading = False, s_keep_alive = keep, s_calls = 0\<rparr>"

definition stream_reachable :: "session \<Rightarrow> bool" where
  "stream_reachable s \<longleftrightarrow> (\<exists>hs keep. stream_step\<^sup>*\<^sup>* (initiate_streaming (session_idle hs keep)) s)"

section \<open>The invariant\<close>

text \<open>
  The session is in one of five phases: the initiating task is still posted, the header is being
  written, writing it failed, a chunk is being written, nothing is being written. \<open>sent\<close> are the
  chunks on the wire.
\<close>

definition phase_initial :: "session \<Rightarrow> bool" where
  "phase_initial s \<longleftrightarrow> (\<exists>ts. s_posted s = InitTask # ts \<and> InitTask \<notin> set ts) \<and> s_wire s = [] \<and>
     s_write s = None \<and> \<not> is_writing s \<and> \<not> s_closed s \<and> streaming_queue s = s_pushed s"

definition phase_header :: "session \<Rightarrow> bool" where
  "phase_header s \<longleftrightarrow> InitTask \<notin> set (s_posted s) \<and> s_wire s = [] \<and> \<not> header_sent s \<and>
     s_write s = Some HeaderWrite \<and> is_writing s \<and> \<not> s_closed s \<and> streaming_queue s = s_pushed s"

definition phase_failed :: "session \<Rightarrow> bool" where
  "phase_failed s \<longleftrightarrow> InitTask \<notin> set (s_posted s) \<and> s_wire s = [] \<and> \<not> header_sent s \<and>
     s_write s = None \<and> is_writing s \<and> s_closed s"

definition phase_writing :: "string list \<Rightarrow> string \<Rightarrow> session \<Rightarrow> bool" where
  "phase_writing sent c s \<longleftrightarrow> InitTask \<notin> set (s_posted s) \<and> s_wire s = Header # map Chunk sent \<and>
     header_sent s \<and> s_write s = Some (ChunkWrite c) \<and> is_writing s \<and>
     (if s_closed s then prefix sent (s_pushed s)
      else sent @ [c] @ streaming_queue s = s_pushed s)"

definition phase_idle :: "string list \<Rightarrow> session \<Rightarrow> bool" where
  "phase_idle sent s \<longleftrightarrow> InitTask \<notin> set (s_posted s) \<and> s_wire s = Header # map Chunk sent \<and>
     header_sent s \<and> s_write s = None \<and> \<not> is_writing s \<and>
     (if s_closed s then prefix sent (s_pushed s)
      else sent @ streaming_queue s = s_pushed s)"

text \<open>Idle with messages left, a flush is posted or about to be, unless the stream was ended.\<close>

definition awake :: "string list \<Rightarrow> session \<Rightarrow> bool" where
  "awake sent s \<longleftrightarrow> s_closed s \<or> streaming_queue s = [] \<or> s_posted s \<noteq> [] \<or> 0 < s_calls s \<or>
     (\<exists>c \<in> set sent. ends_stream c)"

definition stream_inv :: "session \<Rightarrow> bool" where
  "stream_inv s \<longleftrightarrow> \<not> s_overlap s \<and>
     (phase_initial s \<or> phase_header s \<or> phase_failed s \<or> (\<exists>sent c. phase_writing sent c s)
      \<or> (\<exists>sent. phase_idle sent s \<and> awake sent s))"

lemmas phase_defs = phase_initial_def phase_header_def phase_failed_def phase_writing_def
  phase_idle_def awake_def

lemma stream_invE:
  assumes "stream_inv s"
  obtains "phase_initial s" "\<not> s_overlap s" | "phase_header s" "\<not> s_overlap s"
  | "phase_failed s" "\<not> s_overlap s"
  | sent c where "phase_writing sent c s" "\<not> s_overlap s"
  | sent where "phase_idle sent s" "awake sent s" "\<not> s_overlap s"
  using assms unfolding stream_inv_def by blast

lemma stream_invI:
  assumes "\<not> s_overlap s"
  shows "phase_initial s \<Longrightarrow> stream_inv s" and "phase_header s \<Longrightarrow> stream_inv s"
    and "phase_failed s \<Longrightarrow> stream_inv s" and "phase_writing sent c s \<Longrightarrow> stream_inv s"
    and "phase_idle sent s \<Longrightarrow> awake sent s \<Longrightarrow> stream_inv s"
  using assms unfolding stream_inv_def by blast+

lemma inv_push:
  assumes "stream_inv s"
  shows "stream_inv (push_message payload is_end s)"
  using assms
proof (cases rule: stream_invE)
  case 1
  then show ?thesis
    by (intro stream_invI(1)) (auto simp: phase_initial_def push_message_def Let_def)
next
  case 2
  then show ?thesis by (intro stream_invI(2)) (auto simp: phase_header_def push_message_def Let_def)
next
  case 3
  then show ?thesis by (intro stream_invI(3)) (auto simp: phase_failed_def push_message_def Let_def)
next
  case (4 sent c)
  then show ?thesis
    by (intro stream_invI(4) [of _ sent c])
      (auto simp: phase_writing_def push_message_def Let_def split: if_splits)
next
  case (5 sent)
  then show ?thesis
    by (intro stream_invI(5) [of _ sent])
      (auto simp: phase_idle_def awake_def push_message_def Let_def split: if_splits)
qed

lemma inv_post:
  assumes "stream_inv s"
  shows "stream_inv (post_flush s)"
  using assms
proof (cases rule: stream_invE)
  case 1
  then show ?thesis
    by (intro stream_invI(1)) (auto simp: phase_initial_def post_flush_def Let_def)
next
  case 2
  then show ?thesis by (intro stream_invI(2)) (auto simp: phase_header_def post_flush_def Let_def)
next
  case 3
  then show ?thesis by (intro stream_invI(3)) (auto simp: phase_failed_def post_flush_def Let_def)
next
  case (4 sent c)
  then show ?thesis
    by (intro stream_invI(4) [of _ sent c])
      (auto simp: phase_writing_def post_flush_def Let_def split: if_splits)
next
  case (5 sent)
  then show ?thesis
    by (intro stream_invI(5) [of _ sent])
      (auto simp: phase_idle_def awake_def post_flush_def Let_def split: if_splits)
qed

text \<open>A flush from an idle state, whatever is posted.\<close>

lemma inv_flush_idle:
  assumes "phase_idle sent s" and "\<not> s_overlap s"
  shows "stream_inv (flush_streaming_queue s)"
proof (cases "streaming_queue s")
  case Nil
  with assms show ?thesis
    by (intro stream_invI(5) [of _ sent]) (auto simp: phase_idle_def awake_def flush_streaming_queue_def)
next
  case (Cons c rest)
  with assms show ?thesis
    by (intro stream_invI(4) [of _ sent c])
      (auto simp: phase_idle_def phase_writing_def flush_streaming_queue_def start_write_def split: if_splits)
qed

lemma inv_task:
  assumes inv: "stream_inv s" and t: "s_posted s = t # ts"
  shows "stream_inv (run_task t (s\<lparr>s_posted := ts\<rparr>))"
  using inv
proof (cases rule: stream_invE)
  case 1
  with t show ?thesis
    by (intro stream_invI(2))
      (auto simp: phase_initial_def phase_header_def flush_streaming_queue_def start_write_def)
next
  case 2
  with t have "t = FlushTask" by (cases t) (auto simp: phase_header_def)
  with 2 t show ?thesis
    by (intro stream_invI(2)) (auto simp: phase_header_def flush_streaming_queue_def)
next
  case 3
  with t have "t = FlushTask" by (cases t) (auto simp: phase_failed_def)
  with 3 t show ?thesis
    by (intro stream_invI(3)) (auto simp: phase_failed_def flush_streaming_queue_def)
next
  case (4 sent c)
  with t have "t = FlushTask" by (cases t) (auto simp: phase_writing_def)
  with 4 t show ?thesis
    by (intro stream_invI(4) [of _ sent c]) (auto simp: phase_writing_def flush_streaming_queue_def)
next
  case (5 sent)
  with t have "t = FlushTask" by (cases t) (auto simp: phase_idle_def)
  moreover from 5 t have "phase_idle sent (s\<lparr>s_posted := ts\<rparr>)" by (auto simp: phase_idle_def)
  ultimately show ?thesis using inv_flush_idle 5(3) by simp
qed

lemma inv_written:
  assumes inv: "stream_inv s" and wr: "s_write s = Some wr" and ok: "ok \<Longrightarrow> \<not> s_closed s"
  shows "stream_inv (complete_write ok wr s)"
  using inv
proof (cases rule: stream_invE)
  case 2
  then have w: "wr = HeaderWrite" using wr by (simp add: phase_header_def)
  show ?thesis
  proof (cases ok)
    case True
    let ?s = "s\<lparr>s_write := None, s_wire := s_wire s @ [Header], header_sent := True, is_writing := False\<rparr>"
    have "phase_idle [] ?s" "\<not> s_overlap ?s" using 2 by (auto simp: phase_header_def phase_idle_def)
    from inv_flush_idle [OF this] show ?thesis
      using True w by (simp add: complete_write_def header_written_def)
  next
    case False
    with 2 w show ?thesis
      by (intro stream_invI(3))
        (auto simp: phase_header_def phase_failed_def complete_write_def header_written_def do_close_def)
  qed
next
  case (4 sent c)
  then have w: "wr = ChunkWrite c" using wr by (simp add: phase_writing_def)
  show ?thesis
  proof (cases ok)
    case True
    let ?s = "s\<lparr>s_write := None, s_wire := s_wire s @ [Chunk c], is_writing := False\<rparr>"
    have idle: "phase_idle (sent @ [c]) ?s" "\<not> s_overlap ?s"
      using 4 ok True by (auto simp: phase_writing_def phase_idle_def split: if_splits)
    show ?thesis
    proof (cases "ends_stream c")
      case False
      with inv_flush_idle [OF idle] True w show ?thesis
        by (simp add: complete_write_def chunk_written_def Let_def)
    next
      case fin: True
      let ?s' = "if s_keep_alive ?s then do_read ?s else do_close ?s"
      have "s_pushed s = (sent @ [c]) @ streaming_queue s"
        using 4 ok True by (simp add: phase_writing_def)
      then have "prefix (sent @ [c]) (s_pushed s)" by (rule prefixI)
      then have "phase_idle (sent @ [c]) ?s'"
        using idle(1) ok True by (auto simp: phase_idle_def do_read_def do_close_def split: if_splits)
      moreover have "awake (sent @ [c]) ?s'" using fin by (auto simp: awake_def)
      moreover have "\<not> s_overlap ?s'" using idle(2) by (simp add: do_read_def do_close_def)
      ultimately have "stream_inv ?s'" by (intro stream_invI(5)) auto
      with True w fin show ?thesis
        by (simp add: complete_write_def chunk_written_def Let_def)
    qed
  next
    case False
    have "prefix sent (s_pushed s)"
    proof (cases "s_closed s")
      case closed: False
      with 4 have "s_pushed s = sent @ [c] @ streaming_queue s" by (simp add: phase_writing_def)
      then show ?thesis by (rule prefixI)
    qed (use 4 in \<open>simp add: phase_writing_def\<close>)
    with 4 w False show ?thesis
      by (intro stream_invI(5) [of _ sent])
        (auto simp: phase_writing_def phase_idle_def awake_def complete_write_def chunk_written_def
          do_close_def)
  qed
qed (use wr in \<open>auto simp: phase_defs\<close>)

lemma inv_stream_step: "stream_step s s' \<Longrightarrow> stream_inv s \<Longrightarrow> stream_inv s'"
  by (induction rule: stream_step.induct) (auto intro: inv_push inv_post inv_task inv_written)

lemma stream_invariant:
  assumes "stream_reachable s"
  shows "stream_inv s"
proof -
  from assms obtain hs keep where "stream_step\<^sup>*\<^sup>* (initiate_streaming (session_idle hs keep)) s"
    by (auto simp: stream_reachable_def)
  then show ?thesis
  proof (induction rule: rtranclp_induct)
    case base
    show ?case
      by (intro stream_invI(1)) (auto simp: phase_initial_def initiate_streaming_def session_idle_def)
  qed (rule inv_stream_step)
qed

end
