(* ===== verification/Server_Facts.thy ===== *)
theory Server_Facts
  imports Server_Session
begin

text \<open>
  The bytes of a streamed reply: which chunk ends the stream, and what a client that follows the
  chunked transfer coding of HTTP/1.1 reads.
\<close>

section \<open>Hexadecimal lengths\<close>

text \<open>The reader of a chunk size, as the transfer coding defines it.\<close>

definition hex_value :: "char \<Rightarrow> nat option" where
  "hex_value c = (let n = (of_char c :: nat) in
     if 48 \<le> n \<and> n \<le> 57 then Some (n - 48) else if 97 \<le> n \<and> n \<le> 102 then Some (n - 87) else None)"

fun read_hex :: "nat \<Rightarrow> string \<Rightarrow> (nat \<times> string)" where
  "read_hex acc [] = (acc, [])"
| "read_hex acc (c # cs) = (case hex_value c of
     Some d \<Rightarrow> read_hex (16 * acc + d) cs | None \<Rightarrow> (acc, c # cs))"

lemma hex_value_digit: "d < 16 \<Longrightarrow> hex_value (hex_digit d) = Some d"
  by (auto simp: hex_value_def Let_def)

lemma read_hex_nat:
  "\<exists>k. read_hex acc (nat_hex n @ rest) = read_hex (acc * 16 ^ k + n) rest \<and> 0 < k"
proof (induction n arbitrary: rest rule: nat_hex.induct)
  case (1 n)
  show ?case
  proof (cases "n < 16")
    case True
    then show ?thesis
      by (intro exI [of _ 1]) (simp add: nat_hex.simps [of n] hex_value_digit mult.commute del: hex_digit.simps)
  next
    case False
    with 1 [of "hex_digit (n mod 16) # rest"] obtain k where
      "read_hex acc (nat_hex (n div 16) @ hex_digit (n mod 16) # rest)
        = read_hex (acc * 16 ^ k + n div 16) (hex_digit (n mod 16) # rest)" by auto
    then have "read_hex acc (nat_hex n @ rest) = read_hex (16 * (acc * 16 ^ k + n div 16) + n mod 16) rest"
      using False by (simp add: nat_hex.simps [of n] hex_value_digit del: hex_digit.simps)
    moreover have "16 * (acc * 16 ^ k + n div 16) + n mod 16 = acc * 16 ^ Suc k + n"
      by simp
    ultimately show ?thesis by (intro exI [of _ "Suc k"]) (simp only: zero_less_Suc simp_thms)
  qed
qed

lemma nat_hex_not_cr: "cr \<notin> set (nat_hex n)"
proof -
  have "c \<in> set (nat_hex n) \<Longrightarrow> hex_value c \<noteq> None" for c
  proof (induction n rule: nat_hex.induct)
    case (1 n)
    then show ?case
      by (auto simp: nat_hex.simps [of n] hex_value_digit simp del: hex_digit.simps split: if_splits)
  qed
  moreover have "hex_value cr = None" by (simp add: hex_value_def cr_def)
  ultimately show ?thesis by metis
qed

lemma read_size: "read_hex 0 (nat_hex n @ cr # rest) = (n, cr # rest)"
proof -
  obtain k where "read_hex 0 (nat_hex n @ cr # rest) = read_hex (0 * 16 ^ k + n) (cr # rest)"
    using read_hex_nat by blast
  moreover have "hex_value cr = None" by (simp add: hex_value_def cr_def)
  ultimately show ?thesis by simp
qed

section \<open>The client\<close>

text \<open>
  A chunked body is read chunk by chunk until the one of size zero; \<open>None\<close> is malformed input.
  The result is the data and the bytes left over.
\<close>

fun read_chunks :: "nat \<Rightarrow> string \<Rightarrow> (string \<times> string) option" where
  "read_chunks 0 s = None"
| "read_chunks (Suc fuel) s =
     (let (n, rest) = read_hex 0 s in
      if take 2 rest \<noteq> [cr, lf] then None
      else let body = drop 2 rest in
        if length body < n + 2 \<or> take 2 (drop n body) \<noteq> [cr, lf] then None
        else if n = 0 then Some ([], drop 2 body)
        else map_option (\<lambda>(data, left). (take n body @ data, left)) (read_chunks fuel (drop (n + 2) body)))"

lemma read_chunk:
  assumes "raw \<noteq> []"
  shows "read_chunks (Suc fuel) (make_chunk raw @ rest)
    = map_option (\<lambda>(data, left). (raw @ data, left)) (read_chunks fuel rest)"
proof -
  have "read_hex 0 (make_chunk raw @ rest) = (length raw, cr # lf # raw @ [cr, lf] @ rest)"
    using read_size [of "length raw" "lf # raw @ [cr, lf] @ rest"] by (simp add: make_chunk_def)
  with assms show ?thesis by (simp add: Let_def)
qed

lemma read_last: "read_chunks (Suc fuel) (last_chunk @ rest) = Some ([], rest)"
proof -
  have "nat_hex 0 = ''0''" by code_simp
  with read_size [of 0 "lf # cr # lf # rest"] show ?thesis by (simp add: last_chunk_def Let_def)
qed

definition event_text :: "string \<Rightarrow> string" where
  "event_text payload = ''data: '' @ payload @ [lf, lf]"

definition done_text :: string where
  "done_text = ''data: [DONE]'' @ [lf, lf]"

lemma message_bytes_eq:
  "message_bytes p False = make_chunk (event_text p)"
  "message_bytes p True = make_chunk (event_text p @ done_text) @ last_chunk"
  by (simp_all add: message_bytes_def Let_def event_text_def done_text_def)

lemma read_stream:
  "length ps + 2 \<le> fuel \<Longrightarrow>
    read_chunks fuel (concat (map (\<lambda>p. message_bytes p False) ps) @ message_bytes q True @ left)
      = Some (concat (map event_text ps) @ event_text q @ done_text, left)"
proof (induction ps arbitrary: fuel)
  case Nil
  then obtain k where "fuel = Suc (Suc k)" by (metis add_2_eq_Suc' less_eqE list.size(3) add_0 add_Suc)
  then show ?case by (simp add: message_bytes_eq read_chunk event_text_def read_last del: read_chunks.simps)
next
  case (Cons p ps)
  then obtain k where k: "fuel = Suc k" "length ps + 2 \<le> k" by (cases fuel) auto
  with Cons.IH [of k] show ?case
    by (simp add: message_bytes_eq read_chunk event_text_def del: read_chunks.simps)
qed

section \<open>The terminator\<close>

definition count_cr :: "string \<Rightarrow> nat" where
  "count_cr s = length (filter (\<lambda>c. c = cr) s)"

lemma count_cr_append [simp]: "count_cr (xs @ ys) = count_cr xs + count_cr ys"
  by (simp add: count_cr_def)

lemma count_cr_0: "count_cr s = 0 \<longleftrightarrow> cr \<notin> set s"
  by (auto simp: count_cr_def filter_empty_conv)

lemma split_at_first:
  "x \<notin> set xs \<Longrightarrow> x \<notin> set ys \<Longrightarrow> xs @ x # us = ys @ x # vs \<Longrightarrow> us = vs"
proof (induction xs arbitrary: ys)
  case Nil
  then show ?case by (cases ys) auto
next
  case (Cons a xs)
  then show ?case by (cases ys) auto
qed

lemma chunk_no_terminator:
  assumes "cr \<notin> set raw" and "raw \<noteq> []"
  shows "\<not> ends_stream (make_chunk raw)"
proof
  assume "ends_stream (make_chunk raw)"
  then obtain ps ss where eq: "nat_hex (length raw) @ cr # lf # raw @ [cr, lf]
      = ps @ CHR ''0'' # cr # lf # cr # lf # ss"
    by (auto simp: ends_stream_def sublist_def make_chunk_def last_chunk_def)
  have "count_cr (nat_hex (length raw)) = 0" "count_cr raw = 0"
    using assms(1) nat_hex_not_cr by (simp_all add: count_cr_0)
  with arg_cong [OF eq, of count_cr] have "count_cr ps = 0"
    by (simp add: count_cr_def lf_def cr_def)
  then have no_cr: "cr \<notin> set (ps @ ''0'')" by (simp add: count_cr_0 cr_def)
  have eq': "nat_hex (length raw) @ cr # (lf # raw @ [cr, lf])
      = (ps @ ''0'') @ cr # (lf # cr # lf # ss)" using eq by simp
  have "lf # raw @ [cr, lf] = lf # cr # lf # ss"
    by (rule split_at_first [OF nat_hex_not_cr no_cr eq'])
  with assms show False by (cases raw) auto
qed

lemma message_ends_stream:
  assumes "cr \<notin> set payload"
  shows "ends_stream (message_bytes payload is_end) \<longleftrightarrow> is_end"
proof (cases is_end)
  case True
  then show ?thesis by (auto simp: message_bytes_eq ends_stream_def)
next
  case False
  have "cr \<notin> set (event_text payload)" using assms by (simp add: event_text_def cr_def lf_def)
  with False chunk_no_terminator [of "event_text payload"] show ?thesis
    by (simp add: message_bytes_eq event_text_def)
qed

section \<open>After a failed header\<close>

lemma failed_step:
  assumes "stream_step s s'" and "phase_failed s"
  shows "phase_failed s' \<and> (\<exists>new. streaming_queue s' = streaming_queue s @ new)"
  using assms(1)
proof (cases rule: stream_step.cases)
  case (push payload is_end)
  with assms(2) show ?thesis by (auto simp: phase_failed_def push_message_def Let_def)
next
  case post
  with assms(2) show ?thesis by (auto simp: phase_failed_def post_flush_def)
next
  case (task t ts)
  with assms(2) have "t = FlushTask" by (cases t) (auto simp: phase_failed_def)
  with task assms(2) show ?thesis by (auto simp: phase_failed_def flush_streaming_queue_def)
next
  case (written wr ok)
  with assms(2) show ?thesis by (simp add: phase_failed_def)
qed

lemma failed_steps:
  "stream_step\<^sup>*\<^sup>* s s' \<Longrightarrow> phase_failed s \<Longrightarrow>
    phase_failed s' \<and> (\<exists>new. streaming_queue s' = streaming_queue s @ new)"
proof (induction rule: rtranclp_induct)
  case (step s' s'')
  then show ?case using failed_step [of s' s''] by fastforce
qed simp

end
