(* ===== verification/Stream_Progress.thy ===== *)
theory Stream_Progress
  imports Server_Facts
begin

text \<open>
  The end of a stream: once no more messages are pushed and no write fails, the strand of a session
  (\<open>Session::flush_streaming_queue_\<close> and its completion handlers in \<open>tools/serve/server.cpp\<close>) comes to
  rest, and what a client then reads.
\<close>

section \<open>Steps of the strand alone\<close>

inductive strand_step :: "session \<Rightarrow> session \<Rightarrow> bool" where
  posted: "s_posted s = t # ts \<Longrightarrow> strand_step s (run_task t (s\<lparr>s_posted := ts\<rparr>))"
| succeeds: "s_write s = Some wr \<Longrightarrow> \<not> s_closed s \<Longrightarrow> strand_step s (complete_write True wr s)"

inductive_cases strand_stepE: "strand_step s s'"

lemma strand_is_stream: "strand_step s s' \<Longrightarrow> stream_step s s'"
  by (auto elim!: strand_stepE intro: task written)

text \<open>A chunk that ends the stream has gone out.\<close>

definition terminated :: "session \<Rightarrow> bool" where
  "terminated s \<longleftrightarrow> (\<exists>c. Chunk c \<in> set (s_wire s) \<and> ends_stream c)"

text \<open>
  The turns the strand has left at most: one per posted task and outstanding write, two per chunk and
  for the header.
\<close>

definition strand_turns :: "session \<Rightarrow> nat" where
  "strand_turns s = length (s_posted s) + 2 * length (streaming_queue s)
     + (if s_write s = None then 0 else 1) + (if InitTask \<in> set (s_posted s) then 2 else 0)"

lemmas session_ops = flush_streaming_queue_def start_write_def complete_write_def header_written_def
  chunk_written_def do_read_def do_close_def Let_def

text \<open>A step changes nothing that was pushed, and the socket is shut down after the terminator only.\<close>

lemma strand_keeps:
  assumes "strand_step s s'" and "s_closed s \<longrightarrow> terminated s"
  shows "s_pushed s' = s_pushed s \<and> s_calls s' = s_calls s \<and> (s_closed s' \<longrightarrow> terminated s')"
  using assms(1)
proof (cases rule: strand_step.cases)
  case (posted t ts)
  with assms(2) show ?thesis
    by (cases t) (auto simp: session_ops terminated_def split: list.splits)
next
  case (succeeds wr)
  with assms(2) show ?thesis
    by (cases wr) (auto simp: session_ops terminated_def split: list.splits)
qed

lemma strand_turns_step:
  assumes "strand_step s s'" and "stream_inv s"
  shows "strand_turns s' < strand_turns s"
  using assms(1)
proof (cases rule: strand_step.cases)
  case (posted t ts)
  from assms(2) show ?thesis
  proof (cases rule: stream_invE)
    case 1
    with posted show ?thesis by (auto simp: phase_initial_def strand_turns_def session_ops)
  qed (cases t; use posted in \<open>auto simp: phase_defs strand_turns_def session_ops split: list.splits\<close>)+
next
  case (succeeds wr)
  then have "header_sent s \<or> wr = HeaderWrite"
    using assms(2) by (auto simp: stream_inv_def phase_defs)
  with succeeds show ?thesis
    by (cases wr) (auto simp: strand_turns_def session_ops split: list.splits)
qed

lemma strand_stuck:
  assumes "\<And>t. \<not> strand_step s t"
  shows "s_posted s = [] \<and> (s_write s = None \<or> s_closed s)"
proof -
  have "s_posted s = []" using assms posted by (cases "s_posted s") blast+
  moreover have "s_write s = None \<or> s_closed s" using assms succeeds by (cases "s_write s") blast+
  ultimately show ?thesis ..
qed

text \<open>Every run of the strand comes to rest.\<close>

lemma strand_rests:
  assumes "stream_inv s"
  shows "\<exists>s'. strand_step\<^sup>*\<^sup>* s s' \<and> (\<forall>t. \<not> strand_step s' t)"
  using assms
proof (induction "strand_turns s" arbitrary: s rule: less_induct)
  case less
  show ?case
  proof (cases "\<exists>t. strand_step s t")
    case True
    then obtain t where t: "strand_step s t" ..
    have "stream_inv t" using inv_stream_step [OF strand_is_stream [OF t] less.prems] .
    with less.hyps [OF strand_turns_step [OF t less.prems]] t show ?thesis
      by (meson converse_rtranclp_into_rtranclp)
  qed blast
qed

lemma strand_run:
  assumes "strand_step\<^sup>*\<^sup>* s s'" and "stream_inv s" and "s_closed s \<longrightarrow> terminated s"
  shows "stream_inv s' \<and> s_pushed s' = s_pushed s \<and> s_calls s' = s_calls s \<and> (s_closed s' \<longrightarrow> terminated s')"
  using assms(1)
proof (induction rule: rtranclp_induct)
  case (step t u)
  then show ?case using inv_stream_step [OF strand_is_stream] strand_keeps by metis
qed (use assms in simp)

section \<open>A strand at rest\<close>

text \<open>The wire of a session that is done: everything that was pushed, or up to a terminator.\<close>

lemma rest_wire:
  assumes "stream_inv s" and "s_posted s = []" and "s_write s = None \<or> s_closed s"
    and "s_closed s \<longrightarrow> terminated s" and "s_calls s = 0"
  obtains sent where "s_wire s = Header # map Chunk sent" "prefix sent (s_pushed s)"
    "sent = s_pushed s \<or> (\<exists>c \<in> set sent. ends_stream c)"
  using assms(1)
proof (cases rule: stream_invE)
  case (4 sent c)
  with assms that [of sent] show thesis by (auto simp: phase_writing_def terminated_def)
next
  case (5 sent)
  then have "prefix sent (s_pushed s)" by (auto simp: phase_idle_def intro: prefixI [OF sym] split: if_splits)
  with 5 assms that [of sent] show thesis
    by (cases "s_closed s") (auto simp: phase_idle_def awake_def terminated_def)
qed (use assms in \<open>auto simp: phase_defs terminated_def\<close>)

text \<open>The body a client receives on the connection.\<close>

fun wire_bytes :: "wire_item \<Rightarrow> string" where
  "wire_bytes Header = []"
| "wire_bytes (Chunk c) = c"

definition body_bytes :: "session \<Rightarrow> string" where
  "body_bytes s = concat (map wire_bytes (s_wire s))"

lemma prefix_ends:
  assumes "prefix sent (ms @ [m])" and "c \<in> set sent" and "P c" and "\<And>c. c \<in> set ms \<Longrightarrow> \<not> P c"
  shows "sent = ms @ [m]"
proof -
  from assms(1) have "sent = ms @ [m] \<or> prefix sent ms" by (simp add: prefix_snoc)
  with assms(2-4) set_mono_prefix show ?thesis by blast
qed

text \<open>
  A reply with one last message: when the strand has come to rest, the client decodes all of it.
\<close>

lemma rest_reply:
  assumes "stream_inv s" and "s_closed s \<longrightarrow> terminated s" and "strand_step\<^sup>*\<^sup>* s s'" "\<And>t. \<not> strand_step s' t"
    and "s_calls s = 0"
    and "s_pushed s = map (\<lambda>p. message_bytes p False) ps @ [message_bytes q True]"
    and "\<And>p. p \<in> set ps \<Longrightarrow> cr \<notin> set p"
  shows "s_wire s' = Header # map Chunk (s_pushed s) \<and>
    read_chunks (length ps + 2) (body_bytes s' @ left)
      = Some (concat (map event_text ps) @ event_text q @ done_text, left)"
proof -
  from strand_run [OF assms(3,1,2)] have
    r: "stream_inv s'" "s_pushed s' = s_pushed s" "s_closed s' \<longrightarrow> terminated s'" "s_calls s' = 0"
    using assms(5) by simp_all
  from strand_stuck [OF assms(4)] rest_wire [OF r(1) _ _ r(3,4)] obtain sent where
    w: "s_wire s' = Header # map Chunk sent" "prefix sent (s_pushed s)"
    "sent = s_pushed s \<or> (\<exists>c \<in> set sent. ends_stream c)" using r(2) by metis
  have "\<And>c. c \<in> set (map (\<lambda>p. message_bytes p False) ps) \<Longrightarrow> \<not> ends_stream c"
    using assms(7) message_ends_stream by auto
  note all = prefix_ends [OF w(2) [unfolded assms(6)], where P = ends_stream, OF _ _ this]
  have "sent = s_pushed s"
  proof (cases "sent = s_pushed s")
    case False
    with w(3) obtain c where "c \<in> set sent" "ends_stream c" by blast
    with all [of c] assms(6) show ?thesis by simp
  qed
  with w(1) assms(6) have "s_wire s' = Header # map Chunk (s_pushed s)"
    "body_bytes s' = concat (map (\<lambda>p. message_bytes p False) ps) @ message_bytes q True"
    by (simp_all add: body_bytes_def comp_def)
  with read_stream [of ps "length ps + 2" q left] show ?thesis by simp
qed

section \<open>Messages that can be pushed\<close>

lemma reachable_step: "stream_reachable s \<Longrightarrow> stream_step s s' \<Longrightarrow> stream_reachable s'"
  unfolding stream_reachable_def by (meson rtranclp.rtrancl_into_rtrancl)

lemma reachable_message:
  assumes "stream_reachable s"
  shows "stream_reachable (stream_json_message p e s)"
proof -
  have "stream_step s (push_message p e s)" by (rule push)
  moreover have "0 < s_calls (push_message p e s)" by (simp add: push_message_def Let_def)
  then have "stream_step (push_message p e s) (stream_json_message p e s)"
    unfolding stream_json_message_def by (rule post)
  ultimately show ?thesis using assms reachable_step by blast
qed

lemma reachable_pushed:
  "\<exists>s. stream_reachable s \<and> \<not> s_closed s \<and> s_calls s = 0 \<and> s_pushed s = map (\<lambda>(p, e). message_bytes p e) ms"
proof (induction ms rule: rev_induct)
  case Nil
  have "stream_reachable (initiate_streaming (session_idle False True))"
    by (auto simp: stream_reachable_def)
  then show ?case
    by (intro exI [of _ "initiate_streaming (session_idle False True)"])
      (simp add: initiate_streaming_def session_idle_def)
next
  case (snoc m ms)
  then obtain s where s: "stream_reachable s" "\<not> s_closed s" "s_calls s = 0" "s_pushed s = map (\<lambda>(p, e). message_bytes p e) ms"
    by blast
  obtain p e where m: "m = (p, e)" by fastforce
  let ?s = "stream_json_message p e s"
  have "stream_reachable ?s" by (rule reachable_message [OF s(1)])
  then show ?case using s m by (intro exI [of _ ?s]) (simp add: stream_json_message_def push_message_def post_flush_def Let_def)
qed

end
