(* ===== verification/Chat.thy ===== *)
theory Chat
  imports Tokenizer Sampler Task_Worker Inference_Loop
begin

text \<open>
  Chats (\<open>include/zinferlm/chat.h\<close>, \<open>src/chat/\<close>): the messages are rendered with the model's
  template and the run is handed to the inference worker. The template engine (minja) is outside
  the repository: compiling a template and applying it are parameters that may fail with a message.
\<close>

section \<open>Messages and the template\<close>

record chat_message =
  cm_role :: string
  cm_message :: string

definition system_message :: "string \<Rightarrow> chat_message" where
  "system_message msg = \<lparr>cm_role = ''system'', cm_message = msg\<rparr>"

definition user_message :: "string \<Rightarrow> chat_message" where
  "user_message msg = \<lparr>cm_role = ''user'', cm_message = msg\<rparr>"

definition assistant_message :: "string \<Rightarrow> chat_message" where
  "assistant_message msg = \<lparr>cm_role = ''assistant'', cm_message = msg\<rparr>"

record 't minja =
  mj_compile :: "string \<Rightarrow> string \<Rightarrow> string \<Rightarrow> string + 't"
  mj_apply :: "'t \<Rightarrow> (string \<times> string) list \<Rightarrow> bool \<Rightarrow> string + string"

text \<open>The constructor of the template throws for a template it cannot parse.\<close>

definition template_from_str :: "'t minja \<Rightarrow> string \<Rightarrow> string \<Rightarrow> string \<Rightarrow> 't res" where
  "template_from_str M tmpl bos eos = (case mj_compile M tmpl bos eos of
     Inl e \<Rightarrow> Inl (RuntimeError e) | Inr t \<Rightarrow> Inr t)"

text \<open>\<open>render\<close> catches what the engine throws, prints it and gives the empty string.\<close>

definition render :: "'t minja \<Rightarrow> 't \<Rightarrow> chat_message list \<Rightarrow> bool \<Rightarrow> string" where
  "render M t messages add_generation_prompt =
     (case mj_apply M t (map (\<lambda>m. (cm_role m, cm_message m)) messages) add_generation_prompt of
        Inl e \<Rightarrow> [] | Inr s \<Rightarrow> s)"

section \<open>Submitting a run\<close>

record 'f chat_params =
  cp_max_tokens :: u32
  cp_temperature :: 'f
  cp_top_k :: u32
  cp_top_p :: 'f

record 'f inference_task =
  it_run_id :: string
  it_debug :: bool
  it_sampler :: "'f sampler"
  it_input :: string
  it_max_tokens :: u64

definition chat_sampler :: "'f chat_params \<Rightarrow> 'f sampler" where
  "chat_sampler p = sampler_of
     \<lparr>temperature = cp_temperature p, sp_top_k = cp_top_k p, sp_top_p = cp_top_p p\<rparr>"

text \<open>
  \<open>Chat::invoke\<close> on a model whose tokenizer information is \<open>info\<close>; \<open>promise\<close> is the promise whose
  future it returns. \<open>add_task\<close> throws when the worker was stopped.
\<close>

definition chat_invoke :: "pcre \<Rightarrow> 't minja \<Rightarrow> tokenizer_info_t res \<Rightarrow> string \<Rightarrow> bool \<Rightarrow> chat_message list
    \<Rightarrow> 'f chat_params \<Rightarrow> nat \<Rightarrow> ('f inference_task, 'r) worker \<Rightarrow> ('f inference_task, 'r) worker res" where
  "chat_invoke P M info chat_id debug messages params promise w =
     rbind info (\<lambda>i.
     rbind (for_model P i) (\<lambda>z.
     rbind (template_from_str M (template_str i) (get_bos z) (get_eos z)) (\<lambda>t.
     let task = \<lparr>it_run_id = chat_id, it_debug = debug, it_sampler = chat_sampler params,
       it_input = render M t messages True, it_max_tokens = ucast (cp_max_tokens params)\<rparr>
     in add_task task promise w)))"

text \<open>
  What the worker runs for a task: an inference of its own, so that no cache or graph is shared
  between runs, with the limit narrowed to 32 bits.
\<close>

definition run_inference_task :: "('s, 'f, 'd) run_env \<Rightarrow> pcre \<Rightarrow> tokenizer_info_t \<Rightarrow> 's
    \<Rightarrow> 'f inference_task \<Rightarrow> 's gen_result run" where
  "run_inference_task R P info s t =
     invoke (R\<lparr>re_sampler := it_sampler t\<rparr>) P info (it_input t) (ucast (it_max_tokens t))
       (inference_new s)"

section \<open>Facts\<close>

text \<open>A submitted chat is one step of the worker, which the worker's invariant covers.\<close>

lemma widen_narrow: "ucast (ucast w :: u64) = w" for w :: u32
  by (rule bit_word_eqI) (auto simp: bit_simps)

lemma chat_invoke_adds:
  assumes "chat_invoke P M info chat_id debug messages params promise w = Inr w'"
  shows "\<exists>t. w_accepted w' = w_accepted w @ [(t, promise)] \<and> w_tasks w' = w_tasks w @ [(t, promise)] \<and>
    it_run_id t = chat_id \<and> it_sampler t = chat_sampler params \<and>
    ucast (it_max_tokens t) = cp_max_tokens params"
  using assms by (auto simp: chat_invoke_def rbind_eq_Inr Let_def add_task_def widen_narrow
      split: if_splits)

lemma chat_invoke_step:
  assumes "chat_invoke P M info chat_id debug messages params promise w = Inr w'"
    and "promise \<notin> snd ` set (w_accepted w)"
  shows "worker_step run w w'"
proof -
  from assms(1) obtain t where "add_task t promise w = Inr w'"
    by (auto simp: chat_invoke_def rbind_eq_Inr Let_def)
  then show ?thesis by (rule submit [OF assms(2)])
qed

text \<open>A sampler without top-k is greedy; scaling by a temperature keeps the order of the logits.\<close>

lemma max_scan_map:
  assumes "\<And>a b. lt (g a) (g b) \<longleftrightarrow> lt a b"
  shows "max_scan lt (i, g x) n (map g xs) = map_prod id g (max_scan lt (i, x) n xs)"
  using assms by (induction xs arbitrary: i x n) (auto simp: map_prod_def)

lemma greedy_map:
  assumes "\<And>a b. f_lt F (g a) (g b) \<longleftrightarrow> f_lt F a b" and "ls \<noteq> []"
  shows "fst (greedy F (map g ls)) = fst (greedy F ls)"
  using max_scan_map [of "f_lt F" g, OF assms(1)] assms(2)
  by (cases ls) (simp_all add: greedy_def max_element_def)

end
