(* ===== verification/Server_Handlers.thy ===== *)
theory Server_Handlers
  imports Server_Session Event_Bus Chat
begin

text \<open>
  Requests and their handlers: \<open>Session::handle_request_\<close> and the response builders in
  \<open>tools/serve/server.cpp\<close>, the health check and the chat completion in
  \<open>tools/serve/handlers.cpp\<close>. Boost.JSON is outside the repository: its values are a datatype,
  parsing and serialization parameters. A handler gives the actions it takes on the session, or
  the exception it lets escape.
\<close>

datatype json =
    JNull | JBool bool | JNumber int | JString string | JArray "json list"
  | JObject "(string \<times> json) list"

datatype verb = GET | POST | OtherVerb string

record request =
  rq_method :: verb
  rq_target :: string
  rq_content_type :: string
  rq_body :: string
  rq_keep_alive :: bool

record response =
  rs_status :: nat
  rs_content_type :: string
  rs_body :: string
  rs_keep_alive :: bool

text \<open>
  What a handler does to the outside: post a response, start the stream, register the chat's
  callback with the event dispatcher, submit the chat to the worker.
\<close>

datatype 'f action =
    Respond response
  | InitiateStreaming
  | ListenChat string "event_kind list"
  | InvokeChat string "chat_message list" "'f chat_params"

text \<open>
  What the handlers take from outside: the JSON parser and serializer, the contents of the files that
  can be opened, the draws of the random device for an id (at most 61), and the rounding of a
  decimal literal to a float.
\<close>

record 'f serve_env =
  se_parse :: "string \<Rightarrow> string + json"
  se_serialize :: "json \<Rightarrow> string"
  se_files :: "string \<Rightarrow> string option"
  se_draw :: "nat \<Rightarrow> nat"
  se_lit :: "nat \<Rightarrow> nat \<Rightarrow> 'f"

definition read_file :: "'f serve_env \<Rightarrow> string \<Rightarrow> string" where
  "read_file E path = (case se_files E path of None \<Rightarrow> [] | Some contents \<Rightarrow> contents)"

text \<open>\<open>res->keep_alive(req_.keep_alive())\<close> copies the request's flag.\<close>

definition send_json_response :: "'f serve_env \<Rightarrow> request \<Rightarrow> nat \<Rightarrow> json \<Rightarrow> 'f action" where
  "send_json_response E rq status payload =
     Respond \<lparr>rs_status = 200, rs_content_type = ''application/json'',
       rs_body = se_serialize E payload, rs_keep_alive = rq_keep_alive rq\<rparr>"

definition send_html_response :: "request \<Rightarrow> nat \<Rightarrow> string \<Rightarrow> 'f action" where
  "send_html_response rq status body =
     Respond \<lparr>rs_status = status, rs_content_type = ''text/html'', rs_body = body,
       rs_keep_alive = rq_keep_alive rq\<rparr>"

section \<open>Chat completion\<close>

definition required :: "string \<Rightarrow> json" where
  "required field = JObject [(''error'',
     JString ([CHR 0x22] @ ''Field: '' @ [CHR 0x22] @ field @ [CHR 0x22] @ '' is required''))]"

text \<open>\<open>as_string\<close> and \<open>value_to<std::string>\<close> throw for a value that is no string.\<close>

definition as_string :: "json \<Rightarrow> string res" where
  "as_string v = (case v of JString s \<Rightarrow> Inr s | _ \<Rightarrow> Inl (RuntimeError ''not a string''))"

text \<open>
  The loop over the messages: \<open>Inl\<close> of the inner sum is an error payload to send. Elements that
  are no objects and roles that are not known are passed over.
\<close>

fun collect_messages :: "json list \<Rightarrow> chat_message list \<Rightarrow> (json + chat_message list) res" where
  "collect_messages [] acc = Inr (Inr acc)"
| "collect_messages (JObject obj # msgs) acc =
     (case map_of obj ''role'' of
        None \<Rightarrow> Inr (Inl (required ''role''))
      | Some role \<Rightarrow>
          (case map_of obj ''content'' of
             None \<Rightarrow> Inr (Inl (required ''content''))
           | Some content \<Rightarrow>
               rbind (as_string role) (\<lambda>r.
               if r = ''user'' then
                 rbind (as_string content) (\<lambda>c. collect_messages msgs (acc @ [user_message c]))
               else if r = ''assistant'' then
                 rbind (as_string content) (\<lambda>c. collect_messages msgs (acc @ [assistant_message c]))
               else if r = ''system'' then
                 rbind (as_string content) (\<lambda>c. collect_messages msgs (acc @ [system_message c]))
               else collect_messages msgs acc)))"
| "collect_messages (_ # msgs) acc = collect_messages msgs acc"

definition charset :: string where
  "charset = ''0123456789'' @ ''ABCDEFGHIJKLMNOPQRSTUVWXYZ'' @ ''abcdefghijklmnopqrstuvwxyz''"

definition generate_chatcmpl_id :: "(nat \<Rightarrow> nat) \<Rightarrow> nat \<Rightarrow> string" where
  "generate_chatcmpl_id draw len = ''chatcmpl-'' @ map (\<lambda>i. charset ! draw i) [0..<len]"

definition chat_events :: "event_kind list" where
  "chat_events = [GENERATION_COMPLETED, TOKEN_GENERATED]"

text \<open>\<open>top_k\<close> is left out of the initialiser, which makes it zero.\<close>

definition server_params :: "'f serve_env \<Rightarrow> 'f chat_params" where
  "server_params E = \<lparr>cp_max_tokens = 8192, cp_temperature = se_lit E 9 10, cp_top_k = 0,
     cp_top_p = se_lit E 7 10\<rparr>"

text \<open>\<open>streaming\<close> is constantly true.\<close>

definition chat_completion :: "'f serve_env \<Rightarrow> request \<Rightarrow> (string \<times> json) list \<Rightarrow> 'f action list res" where
  "chat_completion E rq payload =
     (case map_of payload ''messages'' of
        Some (JArray msgs) \<Rightarrow>
          rbind (collect_messages msgs []) (\<lambda>r. Inr (case r of
            Inl err \<Rightarrow> [send_json_response E rq 400 err]
          | Inr chat_messages \<Rightarrow>
              let chat_id = generate_chatcmpl_id (se_draw E) 29 in
              [InitiateStreaming, ListenChat chat_id chat_events,
               InvokeChat chat_id chat_messages (server_params E)]))
      | _ \<Rightarrow> Inr [send_json_response E rq 400 (required ''messages'')])"

section \<open>The callback of a chat\<close>

definition token_payload :: "string \<Rightarrow> json" where
  "token_payload tok = JObject [(''role'', JString ''assistant''), (''content'', JString tok)]"

definition finish_payload :: "stream_status \<Rightarrow> json" where
  "finish_payload status = (case status of
      MAX_CTX_REACHED \<Rightarrow> JObject [(''finish_reason'', JString ''Maximum Tokens reached'')]
    | EOS \<Rightarrow> JObject [(''finish_reason'', JString ''Stop'')]
    | CONTINUE \<Rightarrow> JNull)"

text \<open>What the callback streams for an event, and whether it is the last message.\<close>

fun chat_callback :: "inference_event \<Rightarrow> (json \<times> bool) option" where
  "chat_callback (TokenGenerated t i tok) = Some (token_payload tok, False)"
| "chat_callback (GenerationCompleted t status n) = Some (finish_payload status, True)"
| "chat_callback _ = None"

text \<open>The messages streamed for the events of a run, of the kinds the chat listens to.\<close>

definition chat_stream :: "(event_kind \<times> inference_event) list \<Rightarrow> (json \<times> bool) list" where
  "chat_stream log = List.map_filter
     (\<lambda>(k, e). if k \<in> set chat_events then chat_callback e else None) log"

section \<open>Requests\<close>

definition health_check :: "'f serve_env \<Rightarrow> request \<Rightarrow> 'f action" where
  "health_check E rq = send_json_response E rq 200 (JObject [(''status'', JString ''healthy'')])"

text \<open>
  The two error values built from a flat initialiser list of strings are arrays.
\<close>

definition handle_request :: "'f serve_env \<Rightarrow> request \<Rightarrow> 'f action list res" where
  "handle_request E rq =
     (if rq_method rq = GET \<and> (rq_target rq = ''/'' \<or> rq_target rq = ''/index.html'') then
        (let html = read_file E ''tools/serve/web/index.html'' in
         Inr [if html = []
           then send_html_response rq 404 ''<html><body><h1>404 Not Found</h1></body></html>''
           else send_html_response rq 200 html])
      else if rq_method rq = GET \<and> rq_target rq = ''/health'' then Inr [health_check E rq]
      else if rq_method rq = POST then
        (if \<not> sublist ''application/json'' (rq_content_type rq) then
           Inr [send_json_response E rq 415
             (JArray [JString ''error'', JString ''Expected content type: application/json''])]
         else case se_parse E (rq_body rq) of
           Inl msg \<Rightarrow> Inr [send_json_response E rq 400
             (JArray [JString ''error'', JString (''Parse error: '' @ msg)])]
         | Inr body \<Rightarrow>
             if rq_target rq = ''/v1/chat/completions'' then
               (case body of
                  JObject payload \<Rightarrow> chat_completion E rq payload
                | _ \<Rightarrow> Inl (RuntimeError ''not an object''))
             else Inr [])
      else Inr [])"

section \<open>A connection between requests\<close>

text \<open>
  What the session waits for: a request, the end of a response, the stream, nothing (no operation is
  outstanding, so that the handler that returns holds the last reference: the session is destroyed and
  its socket closed), or it has shut down its side, which ends it in the same way.
\<close>

datatype pending = Reading | WritingResponse response | Streaming | Nothing | Closed

datatype read_result = ReadOk request | EndOfStream | ReadError

fun pending_of :: "'f action list \<Rightarrow> pending" where
  "pending_of [] = Nothing"
| "pending_of (Respond rs # _) = WritingResponse rs"
| "pending_of (_ # _) = Streaming"

text \<open>\<open>Session::run\<close> posts the first read to the strand.\<close>

definition session_run :: pending where
  "session_run = Reading"

text \<open>The completion handlers of \<open>do_read_\<close> and \<open>send_response_\<close>.\<close>

definition read_completed :: "'f serve_env \<Rightarrow> read_result \<Rightarrow> (pending \<times> 'f action list) res" where
  "read_completed E r = (case r of
      EndOfStream \<Rightarrow> Inr (Closed, [])
    | ReadError \<Rightarrow> Inr (Nothing, [])
    | ReadOk rq \<Rightarrow> rbind (handle_request E rq) (\<lambda>acts. Inr (pending_of acts, acts)))"

definition response_written :: "bool \<Rightarrow> response \<Rightarrow> pending" where
  "response_written ok rs =
     (if \<not> ok then Nothing else if rs_keep_alive rs then Reading else Closed)"

section \<open>Facts\<close>

lemma chat_stream_Nil [simp]: "chat_stream [] = []"
  by (simp add: chat_stream_def)

lemma chat_stream_Cons:
  "chat_stream ((k, e) # log)
     = (if k \<in> set chat_events then (case chat_callback e of None \<Rightarrow> [] | Some m \<Rightarrow> [m]) else [])
       @ chat_stream log"
  by (simp add: chat_stream_def List.map_filter_def split: option.split)

lemma chat_stream_append [simp]: "chat_stream (xs @ ys) = chat_stream xs @ chat_stream ys"
  by (induction xs) (auto simp: chat_stream_Cons)

lemma chat_completion_acts:
  assumes "chat_completion E rq payload = Inr acts"
  shows "acts \<noteq> [] \<and> (\<forall>rs. Respond rs \<in> set acts \<longrightarrow> rs_status rs = 200)"
proof (cases "\<exists>msgs. map_of payload ''messages'' = Some (JArray msgs)")
  case True
  then obtain msgs where m: "map_of payload ''messages'' = Some (JArray msgs)" ..
  show ?thesis
  proof (cases "collect_messages msgs []")
    case (Inr x)
    with assms m show ?thesis
      by (cases x) (auto simp: chat_completion_def send_json_response_def Let_def)
  qed (use assms m in \<open>simp add: chat_completion_def\<close>)
next
  case False
  with assms show ?thesis
    by (auto simp: chat_completion_def send_json_response_def split: option.splits json.splits)
qed

lemma submitted_params:
  assumes "handle_request E rq = Inr acts" and "InvokeChat chat_id msgs p \<in> set acts"
  shows "p = server_params E"
proof -
  from assms obtain payload where "chat_completion E rq payload = Inr acts"
    by (auto simp: handle_request_def Let_def send_json_response_def send_html_response_def health_check_def
        split: if_splits sum.splits json.splits)
  then obtain r where "acts = (case r of Inl err \<Rightarrow> [send_json_response E rq 400 err]
      | Inr chat_messages \<Rightarrow> let chat_id = generate_chatcmpl_id (se_draw E) 29 in
          [InitiateStreaming, ListenChat chat_id chat_events,
           InvokeChat chat_id chat_messages (server_params E)])
      \<or> acts = [send_json_response E rq 400 (required ''messages'')]"
    by (auto simp: chat_completion_def rbind_eq_Inr split: option.splits json.splits)
  with assms(2) show ?thesis
    by (cases r) (auto simp: send_json_response_def Let_def)
qed

text \<open>Requests for which no branch of the routing does anything.\<close>

definition unmatched :: "'f serve_env \<Rightarrow> request \<Rightarrow> bool" where
  "unmatched E rq \<longleftrightarrow>
     (case rq_method rq of
        GET \<Rightarrow> rq_target rq \<notin> {''/'', ''/index.html'', ''/health''}
      | POST \<Rightarrow> sublist ''application/json'' (rq_content_type rq) \<and>
          (\<exists>body. se_parse E (rq_body rq) = Inr body) \<and> rq_target rq \<noteq> ''/v1/chat/completions''
      | OtherVerb v \<Rightarrow> True)"

lemma pending_of_Nothing [simp]: "pending_of acts = Nothing \<longleftrightarrow> acts = []"
  by (cases acts rule: pending_of.cases) auto

lemma handle_request_Nil: "handle_request E rq = Inr [] \<longleftrightarrow> unmatched E rq"
  by (cases "rq_method rq")
    (auto simp: handle_request_def Let_def unmatched_def split: sum.splits json.splits
      dest: chat_completion_acts)

end
