(* ===== verification/Chat_Delivery.thy ===== *)
theory Chat_Delivery
  imports Server_Handlers Inference_Facts
begin

text \<open>
  The way of an event from the run to the session: the run dispatches it to the group of its id
  (\<open>src/inference/inference.cpp\<close>), the dispatcher calls the chat's callback
  (\<open>tools/serve/handlers.cpp\<close>), which streams a message and, on completion, removes the chat from
  the dispatcher. A callback is represented by the id of the chat that registered it; the code
  captures that id by reference, here it has the value it had on registration, and \<open>Chat_Lifetime\<close>
  follows the reference.
\<close>

section \<open>The code\<close>

definition chat_listen :: "string \<Rightarrow> string dispatcher \<Rightarrow> string dispatcher" where
  "chat_listen chat_id d = listen chat_id chat_id chat_events d"

text \<open>The callback: the message it streams, if any, and what it does to the dispatcher.\<close>

definition run_callback :: "string \<Rightarrow> inference_event \<Rightarrow> string dispatcher
    \<Rightarrow> (string \<times> json \<times> bool) list \<times> string dispatcher" where
  "run_callback chat_id e d =
     ((case chat_callback e of None \<Rightarrow> [] | Some m \<Rightarrow> [(chat_id, m)]),
      (case e of GenerationCompleted t status n \<Rightarrow> unlisten chat_id d | _ \<Rightarrow> d))"

text \<open>The loop of \<open>dispatch\<close> over its snapshot of callbacks.\<close>

fun call_all :: "string list \<Rightarrow> inference_event \<Rightarrow> string dispatcher
    \<Rightarrow> (string \<times> json \<times> bool) list \<times> string dispatcher" where
  "call_all [] e d = ([], d)"
| "call_all (cb # cbs) e d =
     (let (ms, d) = run_callback cb e d; (rest, d) = call_all cbs e d in (ms @ rest, d))"

definition dispatch_event :: "string \<Rightarrow> event_kind \<Rightarrow> inference_event \<Rightarrow> string dispatcher
    \<Rightarrow> (string \<times> json \<times> bool) list \<times> string dispatcher" where
  "dispatch_event gid k e d = (let (cbs, d) = dispatch gid k d in call_all cbs e d)"

fun deliver :: "string \<Rightarrow> event_log \<Rightarrow> string dispatcher
    \<Rightarrow> (string \<times> json \<times> bool) list \<times> string dispatcher" where
  "deliver gid [] d = ([], d)"
| "deliver gid ((k, e) # evs) d =
     (let (ms, d) = dispatch_event gid k e d; (rest, d) = deliver gid evs d in (ms @ rest, d))"

section \<open>Facts\<close>

lemma chat_callback_untimed [simp]: "chat_callback (untimed e) = chat_callback e"
  by (cases e) auto

lemma chat_stream_ulog: "chat_stream (ulog evs) = chat_stream evs"
  by (induction evs) (auto simp: ulog_def chat_stream_Cons)

lemma deliver_append:
  "deliver gid (xs @ ys) d =
    (let (ms, d') = deliver gid xs d; (rest, d'') = deliver gid ys d' in (ms @ rest, d''))"
  by (induction xs arbitrary: d) (auto simp: split_def Let_def)

lemma count_dispatch: "callbacks_count (snd (dispatch gid k d)) = callbacks_count d"
  by (simp add: dispatch_def split_def Let_def)

lemma count_unlisten: "callbacks_count (unlisten gid d) = callbacks_count d - int (length (listeners_of d gid))"
  by (simp add: unlisten_def listeners_of_def um_index_value split_def Let_def split: option.splits)

lemma count_listen: "callbacks_count (listen gid cb evs d) = callbacks_count d + 1"
  by (simp add: listen_def Let_def)

text \<open>One event of a group that has exactly the chat as its listener.\<close>

definition only_chat :: "string \<Rightarrow> string dispatcher \<Rightarrow> bool" where
  "only_chat chat_id d \<longleftrightarrow> listeners_of d chat_id = [(chat_id, chat_events)]"

lemma dispatch_chat:
  assumes "only_chat chat_id d"
  shows "\<exists>d'. dispatch_event chat_id k e d
      = (if k \<in> set chat_events then run_callback chat_id e d' else ([], d')) \<and>
    listeners_of d' = listeners_of d \<and> callbacks_count d' = callbacks_count d"
  using assms bus.emit_callbacks [of chat_id k d] bus.emit_keeps [of chat_id k d] count_dispatch [of chat_id k d]
  by (cases "dispatch chat_id k d") (auto simp: only_chat_def dispatch_event_def split_def Let_def)

text \<open>Events before the completion leave the listeners alone.\<close>

lemma deliver_open:
  assumes "only_chat chat_id d" and "list_all (\<lambda>(k, e). \<not> is_GenerationCompleted e) evs"
  shows "\<exists>d'. deliver chat_id evs d = (map (Pair chat_id) (chat_stream evs), d') \<and>
    listeners_of d' = listeners_of d \<and> callbacks_count d' = callbacks_count d"
  using assms
proof (induction evs arbitrary: d)
  case (Cons ev evs)
  obtain k e where ev: "ev = (k, e)" by fastforce
  from dispatch_chat [OF Cons.prems(1), of k e] obtain d1 where
    d1: "dispatch_event chat_id k e d
      = (if k \<in> set chat_events then run_callback chat_id e d1 else ([], d1))"
    "listeners_of d1 = listeners_of d" "callbacks_count d1 = callbacks_count d" by blast
  moreover have "snd (run_callback chat_id e d1) = d1"
    using Cons.prems(2) ev by (cases e) (simp_all add: run_callback_def)
  moreover have "only_chat chat_id d1" using Cons.prems(1) d1(2) by (simp add: only_chat_def)
  from Cons.IH [OF this] Cons.prems(2) obtain d2 where
    "deliver chat_id evs d1 = (map (Pair chat_id) (chat_stream evs), d2)"
    "listeners_of d2 = listeners_of d1" "callbacks_count d2 = callbacks_count d1" by auto
  ultimately show ?case
    by (auto simp: ev chat_stream_Cons run_callback_def Let_def split_def split: option.splits)
qed simp

lemma deliver_run:
  assumes "listeners_of d chat_id = []" and "list_all (\<lambda>(k, e). \<not> is_GenerationCompleted e) evs"
  shows "\<exists>d'. deliver chat_id (evs @ [(GENERATION_COMPLETED, GenerationCompleted t status n)]) (chat_listen chat_id d)
      = (map (Pair chat_id) (chat_stream evs @ [(finish_payload status, True)]), d') \<and>
    listeners_of d' = listeners_of d \<and> callbacks_count d' = callbacks_count d"
proof -
  let ?d = "chat_listen chat_id d"
  have l: "listeners_of ?d = (listeners_of d)(chat_id := [(chat_id, chat_events)])"
    "callbacks_count ?d = callbacks_count d + 1"
    using assms(1) by (simp_all add: chat_listen_def bus.registered_register count_listen)
  then have "only_chat chat_id ?d" by (simp add: only_chat_def)
  from deliver_open [OF this assms(2)] obtain d1 where
    d1: "deliver chat_id evs ?d = (map (Pair chat_id) (chat_stream evs), d1)"
    "listeners_of d1 = listeners_of ?d" "callbacks_count d1 = callbacks_count ?d" by blast
  then have "only_chat chat_id d1" using l by (simp add: only_chat_def)
  from dispatch_chat [OF this, of GENERATION_COMPLETED "GenerationCompleted t status n"] obtain d2 where
    "dispatch_event chat_id GENERATION_COMPLETED (GenerationCompleted t status n) d1
      = run_callback chat_id (GenerationCompleted t status n) d2"
    "listeners_of d2 = listeners_of d1" "callbacks_count d2 = callbacks_count d1"
    by (auto simp: chat_events_def)
  moreover from this d1 l have "listeners_of (unlisten chat_id d2) = listeners_of d"
    "callbacks_count (unlisten chat_id d2) = callbacks_count d"
    using assms(1) by (auto simp: bus.registered_unregister count_unlisten fun_eq_iff)
  ultimately show ?thesis using d1 by (simp add: deliver_append run_callback_def Let_def)
qed

section \<open>The events of a run\<close>

lemma chat_stream_tokens:
  "chat_stream (token_events i toks) = map (\<lambda>t. (token_payload t, False)) toks"
  by (induction toks arbitrary: i) (auto simp: token_events_Cons chat_stream_Cons chat_events_def)

lemma chat_stream_prefill: "chat_stream (prefill_events tokens) = []"
  by (simp add: prefill_events_def chat_stream_Cons chat_events_def)

lemma open_tokens: "list_all (\<lambda>(k, e). \<not> is_GenerationCompleted e) (token_events i toks)"
  by (induction toks arbitrary: i) (simp_all add: token_events_Cons)

text \<open>Events before the generation that a chat does not listen to.\<close>

definition silent :: "event_log \<Rightarrow> bool" where
  "silent evs \<longleftrightarrow> chat_stream evs = [] \<and> list_all (\<lambda>(k, e). \<not> is_GenerationCompleted e) evs"

lemma silent_tokenizer [simp]:
  "silent []" "silent [(TOKENIZER_STARTED, TokenizerStarted t0 k), (TOKENIZER_COMPLETED, TokenizerCompleted t1 l)]"
  by (simp_all add: silent_def chat_stream_Cons chat_events_def)

lemma is_completed_untimed [simp]: "is_GenerationCompleted (untimed e) = is_GenerationCompleted e"
  by (cases e) simp_all

lemma open_ulog:
  "list_all (\<lambda>(k, e). \<not> is_GenerationCompleted e) (ulog evs) = list_all (\<lambda>(k, e). \<not> is_GenerationCompleted e) evs"
  by (auto simp: ulog_def list_all_iff)

lemma ulog_completed:
  assumes "ulog evs = before @ [(k, GenerationCompleted 0 status n)]"
  obtains before' t where "evs = before' @ [(k, GenerationCompleted t status n)]" "ulog before' = before"
proof -
  from assms obtain before' e where e: "evs = before' @ [(k, e)]" "ulog before' = before"
    "untimed e = GenerationCompleted 0 status n"
    by (auto simp: ulog_def map_eq_append_conv)
  from e(3) obtain t where "e = GenerationCompleted t status n" by (cases e) auto
  with e(1,2) that show thesis by blast
qed

lemma run_messages:
  assumes "generate R z max_tokens tokens ie evs = Inr r" and "tokens \<noteq> []" and "silent evs"
  obtains toks status before t n where "concat toks = gr_output r" "status \<noteq> CONTINUE"
    "length toks \<le> unat max_tokens" "status = MAX_CTX_REACHED \<longleftrightarrow> length toks = unat max_tokens"
    "gr_events r = before @ [(GENERATION_COMPLETED, GenerationCompleted t status n)]"
    "list_all (\<lambda>(k, e). \<not> is_GenerationCompleted e) before"
    "chat_stream before = map (\<lambda>t. (token_payload t, False)) toks"
proof -
  from generate_log [OF assms(1,2)] obtain toks status where
    t: "gr_output r = concat toks" "length toks \<le> unat max_tokens"
    "status = MAX_CTX_REACHED \<longleftrightarrow> length toks = unat max_tokens" "status \<noteq> CONTINUE"
    "ulog (gr_events r) = ulog evs @ (if max_tokens \<noteq> 0 then prefill_events tokens else [])
      @ token_events 0 toks @ [(GENERATION_COMPLETED, GenerationCompleted 0 status
          (if status = EOS then of_nat (length toks) else 0))]" by blast
  let ?before = "ulog evs @ (if max_tokens \<noteq> 0 then prefill_events tokens else []) @ token_events 0 toks"
  let ?n = "if status = EOS then of_nat (length toks) else 0 :: u32"
  have "ulog (gr_events r) = ?before @ [(GENERATION_COMPLETED, GenerationCompleted 0 status ?n)]"
    using t(5) by simp
  then obtain before c where
    b: "gr_events r = before @ [(GENERATION_COMPLETED, GenerationCompleted c status ?n)]" "ulog before = ?before"
    by (rule ulog_completed)
  have "list_all (\<lambda>(k, e). \<not> is_GenerationCompleted e) (ulog before)"
    using assms(3) unfolding b(2) by (simp add: silent_def open_ulog open_tokens) (simp add: prefill_events_def)
  moreover have "chat_stream (ulog before) = map (\<lambda>t. (token_payload t, False)) toks"
    using assms(3) unfolding b(2) by (simp add: silent_def chat_stream_ulog chat_stream_tokens chat_stream_prefill)
  ultimately show thesis using that [OF t(1) [symmetric]] t(2-4) b(1) by (simp add: chat_stream_ulog open_ulog)
qed

text \<open>
  The whole way of a chat. For an id nobody listens under, registering the chat and dispatching
  the events of its run, tokenization included, streams one message per token, together the run's
  output, and one last message to that session alone, and leaves the dispatcher with exactly the
  listeners it had before.
\<close>

definition reply_messages :: "string list \<Rightarrow> stream_status \<Rightarrow> (json \<times> bool) list" where
  "reply_messages toks status = map (\<lambda>t. (token_payload t, False)) toks @ [(finish_payload status, True)]"

lemma chat_delivered:
  assumes "generate R z max_tokens tokens ie evs = Inr r" and "tokens \<noteq> []" and "silent evs"
    and "listeners_of d chat_id = []"
  shows "\<exists>toks status d'. concat toks = gr_output r \<and> status \<noteq> CONTINUE \<and> length toks \<le> unat max_tokens \<and>
    (status = MAX_CTX_REACHED \<longleftrightarrow> length toks = unat max_tokens) \<and>
    deliver chat_id (gr_events r) (chat_listen chat_id d) = (map (Pair chat_id) (reply_messages toks status), d') \<and>
    listeners_of d' = listeners_of d \<and> callbacks_count d' = callbacks_count d"
proof -
  from run_messages [OF assms(1-3)] obtain toks status before t n where
    m: "concat toks = gr_output r" "status \<noteq> CONTINUE" "length toks \<le> unat max_tokens"
    "status = MAX_CTX_REACHED \<longleftrightarrow> length toks = unat max_tokens"
    "gr_events r = before @ [(GENERATION_COMPLETED, GenerationCompleted t status n)]"
    "list_all (\<lambda>(k, e). \<not> is_GenerationCompleted e) before"
    "chat_stream before = map (\<lambda>t. (token_payload t, False)) toks" by blast
  from deliver_run [OF assms(4) m(6), of t status n] m show ?thesis
    by (auto simp: reply_messages_def)
qed

end
