(* ===== verification/Chat_Sessions.thy ===== *)
theory Chat_Sessions
  imports Chat_Delivery
begin

text \<open>
  Several chats at once: handlers register chats on the threads of the server while the worker
  dispatches the events of runs. The dispatcher takes one call at a time under its mutex, so that any
  sequence of registrations and dispatched events can happen; what one chat's session is sent
  depends on its own registrations and events alone.
\<close>

section \<open>Sequences of what happens to the dispatcher\<close>

datatype chat_act = Submitted string | Happened string event_kind inference_event

fun act_on :: "chat_act \<Rightarrow> string dispatcher \<Rightarrow> (string \<times> json \<times> bool) list \<times> string dispatcher" where
  "act_on (Submitted chat_id) d = ([], chat_listen chat_id d)"
| "act_on (Happened gid k e) d = dispatch_event gid k e d"

fun acts_on :: "chat_act list \<Rightarrow> string dispatcher \<Rightarrow> (string \<times> json \<times> bool) list \<times> string dispatcher" where
  "acts_on [] d = ([], d)"
| "acts_on (a # hs) d = (let (ms, d) = act_on a d; (rest, d) = acts_on hs d in (ms @ rest, d))"

fun chat_of :: "chat_act \<Rightarrow> string" where
  "chat_of (Submitted chat_id) = chat_id"
| "chat_of (Happened gid k e) = gid"

text \<open>Every listener of a group was registered by the chat of that group.\<close>

definition own_listeners :: "string dispatcher \<Rightarrow> bool" where
  "own_listeners d \<longleftrightarrow> (\<forall>g. list_all (\<lambda>(cb, evs). cb = g) (listeners_of d g))"

lemma own_listeners_init: "own_listeners dispatcher_init"
  by (simp add: own_listeners_def listeners_of_def dispatcher_init_def)

section \<open>One act\<close>

lemma run_callback_facts:
  "list_all (\<lambda>m. fst m = g) (fst (run_callback g e d))"
  "fst (run_callback g e d) = fst (run_callback g e d2)"
  "listeners_of (snd (run_callback g e d))
    = (if is_GenerationCompleted e then (listeners_of d)(g := []) else listeners_of d)"
  by (auto simp: run_callback_def bus.registered_unregister split: option.split inference_event.split)

lemma call_all_own:
  assumes "list_all (\<lambda>cb. cb = g) cbs"
  shows "list_all (\<lambda>m. fst m = g) (fst (call_all cbs e d))"
    and "fst (call_all cbs e d) = fst (call_all cbs e d2)"
    and "listeners_of (snd (call_all cbs e d))
      = (if cbs \<noteq> [] \<and> is_GenerationCompleted e then (listeners_of d)(g := []) else listeners_of d)"
  using assms
proof (induction cbs arbitrary: d d2)
  case (Cons cb cbs)
  {
    case 1
    with Cons.IH(1) [of "snd (run_callback g e d)"] run_callback_facts(1) [of g e d] show ?case
      by (simp add: split_def Let_def)
  next
    case 2
    with Cons.IH(2) [of "snd (run_callback g e d)" "snd (run_callback g e d2)"]
      run_callback_facts(2) [of g e d d2] show ?case by (simp add: split_def Let_def)
  next
    case 3
    with Cons.IH(3) [of "snd (run_callback g e d)"] run_callback_facts(3) [of g e d] show ?case
      by (auto simp: split_def Let_def)
  }
qed simp_all

lemma dispatch_event_own:
  assumes "own_listeners d" and "ls = filter (\<lambda>(cb, evs). k \<in> set evs) (listeners_of d g)"
  shows "list_all (\<lambda>m. fst m = g) (fst (dispatch_event g k e d))"
    and "listeners_of d2 g = listeners_of d g \<Longrightarrow> fst (dispatch_event g k e d) = fst (dispatch_event g k e d2)"
    and "listeners_of (snd (dispatch_event g k e d))
      = (if ls \<noteq> [] \<and> is_GenerationCompleted e then (listeners_of d)(g := []) else listeners_of d)"
proof -
  have own: "list_all (\<lambda>cb. cb = g) (map fst ls)"
    using assms by (auto simp: own_listeners_def list_all_iff)
  note c = call_all_own [OF own, of e]
  show "list_all (\<lambda>m. fst m = g) (fst (dispatch_event g k e d))"
    using c(1) assms(2) by (simp add: dispatch_event_def split_def bus.emit_callbacks)
  show "fst (dispatch_event g k e d) = fst (dispatch_event g k e d2)" if "listeners_of d2 g = listeners_of d g"
    using c(2) that assms(2) by (simp add: dispatch_event_def split_def bus.emit_callbacks)
  show "listeners_of (snd (dispatch_event g k e d))
      = (if ls \<noteq> [] \<and> is_GenerationCompleted e then (listeners_of d)(g := []) else listeners_of d)"
    using c(3) [of "snd (dispatch g k d)"] assms(2)
    by (simp add: dispatch_event_def split_def bus.emit_callbacks bus.emit_keeps)
qed

lemma own_update: "own_listeners d \<Longrightarrow> listeners_of d' = (listeners_of d)(g := ls) \<Longrightarrow>
    list_all (\<lambda>(cb, evs). cb = g) ls \<Longrightarrow> own_listeners d'"
  by (simp add: own_listeners_def)

lemma listeners_act:
  assumes "own_listeners d"
  shows "\<exists>ls. listeners_of (snd (act_on a d)) = (listeners_of d)(chat_of a := ls) \<and>
    list_all (\<lambda>(cb, evs). cb = chat_of a) ls"
proof (cases a)
  case (Submitted g)
  with assms show ?thesis
    by (auto simp: chat_listen_def bus.registered_register own_listeners_def
        intro!: exI [of _ "listeners_of d g @ [(g, chat_events)]"])
next
  case (Happened g k e)
  have own: "list_all (\<lambda>(cb, evs). cb = g) (listeners_of d g)" using assms by (simp add: own_listeners_def)
  note l = dispatch_event_own(3) [OF assms refl, of g k e]
  show ?thesis
  proof (cases "filter (\<lambda>(cb, evs). k \<in> set evs) (listeners_of d g) \<noteq> [] \<and> is_GenerationCompleted e")
    case True
    with l Happened show ?thesis by (intro exI [of _ "[]"]) simp
  next
    case False
    with l Happened own show ?thesis by (intro exI [of _ "listeners_of d g"]) simp
  qed
qed

lemma act_own:
  assumes "own_listeners d"
  shows "own_listeners (snd (act_on a d))" and "list_all (\<lambda>m. fst m = chat_of a) (fst (act_on a d))"
    and "chat_of a \<noteq> g \<Longrightarrow> listeners_of (snd (act_on a d)) g = listeners_of d g"
proof -
  from listeners_act [OF assms, of a] obtain ls where
    l: "listeners_of (snd (act_on a d)) = (listeners_of d)(chat_of a := ls)"
    "list_all (\<lambda>(cb, evs). cb = chat_of a) ls" by blast
  from own_update [OF assms l] show "own_listeners (snd (act_on a d))" .
  from l(1) show "chat_of a \<noteq> g \<Longrightarrow> listeners_of (snd (act_on a d)) g = listeners_of d g" by simp
  show "list_all (\<lambda>m. fst m = chat_of a) (fst (act_on a d))"
    using dispatch_event_own(1) [OF assms refl] by (cases a) simp_all
qed

text \<open>The effect of an act on its own chat depends on the listeners of that chat alone.\<close>

lemma act_same:
  assumes "own_listeners d" and "own_listeners d2" and "listeners_of d2 (chat_of a) = listeners_of d (chat_of a)"
  shows "fst (act_on a d2) = fst (act_on a d)"
    and "listeners_of (snd (act_on a d2)) (chat_of a) = listeners_of (snd (act_on a d)) (chat_of a)"
proof -
  show "fst (act_on a d2) = fst (act_on a d)"
  proof (cases a)
    case (Happened g k e)
    with dispatch_event_own(2) [OF assms(1) refl, of d2 g k e] assms(3) show ?thesis by simp
  qed simp
  show "listeners_of (snd (act_on a d2)) (chat_of a) = listeners_of (snd (act_on a d)) (chat_of a)"
  proof (cases a)
    case (Submitted g)
    with assms(3) show ?thesis by (simp add: chat_listen_def bus.registered_register)
  next
    case (Happened g k e)
    with dispatch_event_own(3) [OF assms(1) refl, of g k e] dispatch_event_own(3) [OF assms(2) refl, of g k e]
      assms(3) show ?thesis by simp
  qed
qed

section \<open>Projection to one chat\<close>

lemma filter_all: "list_all P xs \<Longrightarrow> filter P xs = xs"
  by (induction xs) auto

lemma filter_none: "list_all (\<lambda>x. \<not> P x) xs \<Longrightarrow> filter P xs = []"
  by (induction xs) auto

lemma acts_project:
  assumes "own_listeners d" and "own_listeners d2" and "listeners_of d2 g = listeners_of d g"
  shows "filter (\<lambda>m. fst m = g) (fst (acts_on hs d)) = fst (acts_on (filter (\<lambda>a. chat_of a = g) hs) d2) \<and>
    listeners_of (snd (acts_on hs d)) g = listeners_of (snd (acts_on (filter (\<lambda>a. chat_of a = g) hs) d2)) g"
  using assms
proof (induction hs arbitrary: d d2)
  case (Cons a hs)
  note o = act_own [OF Cons.prems(1), of a] act_own(1) [OF Cons.prems(2), of a]
  show ?case
  proof (cases "chat_of a = g")
    case True
    with act_same [OF Cons.prems(1,2), of a] Cons.prems(3) have
      s: "fst (act_on a d2) = fst (act_on a d)"
      "listeners_of (snd (act_on a d2)) g = listeners_of (snd (act_on a d)) g" by simp_all
    from Cons.IH [OF o(1,4) s(2)] s(1) o(2) True show ?thesis
      by (simp add: split_def Let_def filter_all)
  next
    case False
    with o(2) have "list_all (\<lambda>m. fst m \<noteq> g) (fst (act_on a d))" by (auto simp: list_all_iff)
    moreover from False o(3) Cons.prems(3) have "listeners_of d2 g = listeners_of (snd (act_on a d)) g" by simp
    ultimately show ?thesis using Cons.IH [OF o(1) Cons.prems(2)] False
      by (simp add: split_def Let_def filter_none)
  qed
qed simp

lemma acts_events:
  "acts_on (map (\<lambda>(k, e). Happened g k e) evs) d = deliver g evs d"
  by (induction evs arbitrary: d) (auto simp: split_def Let_def)

section \<open>A chat among others\<close>

text \<open>The registration of a chat, then the events of its run, are all that concerns it.\<close>

definition chat_acts :: "string \<Rightarrow> event_log \<Rightarrow> chat_act list" where
  "chat_acts chat_id evs = Submitted chat_id # map (\<lambda>(k, e). Happened chat_id k e) evs"

lemma own_chat_acts: "filter (\<lambda>a. chat_of a = chat_id) (chat_acts chat_id evs) = chat_acts chat_id evs"
  by (rule filter_all) (auto simp: chat_acts_def list_all_iff)

lemma chat_alone:
  assumes "generate R z max_tokens tokens ie evs = Inr r" and "tokens \<noteq> []" and "silent evs"
    and "filter (\<lambda>a. chat_of a = chat_id) hs = chat_acts chat_id (gr_events r)"
    and "own_listeners d" and "listeners_of d chat_id = []"
  shows "\<exists>toks status. concat toks = gr_output r \<and> status \<noteq> CONTINUE \<and> length toks \<le> unat max_tokens \<and>
    (status = MAX_CTX_REACHED \<longleftrightarrow> length toks = unat max_tokens) \<and>
    filter (\<lambda>m. fst m = chat_id) (fst (acts_on hs d)) = map (Pair chat_id) (reply_messages toks status) \<and>
    listeners_of (snd (acts_on hs d)) chat_id = []"
proof -
  from chat_delivered [OF assms(1-3,6)] obtain toks status d' where
    c: "concat toks = gr_output r" "status \<noteq> CONTINUE" "length toks \<le> unat max_tokens"
    "status = MAX_CTX_REACHED \<longleftrightarrow> length toks = unat max_tokens"
    "deliver chat_id (gr_events r) (chat_listen chat_id d) = (map (Pair chat_id) (reply_messages toks status), d')"
    "listeners_of d' = listeners_of d" by blast
  then have "acts_on (filter (\<lambda>a. chat_of a = chat_id) hs) d = (map (Pair chat_id) (reply_messages toks status), d')"
    by (simp add: assms(4) chat_acts_def acts_events)
  with acts_project [OF assms(5,5) refl, of chat_id hs] c assms(6) show ?thesis by auto
qed

end
