(* ===== verification/Chat_Lifetime.thy ===== *)
theory Chat_Lifetime
  imports Chat_Sessions
begin

text \<open>
  The lifetime of a chat's id. In \<open>tools/serve/handlers.cpp\<close> the id is a local of the handler and the
  callback captures it by reference: the completion of the run, on the worker's thread, reads it
  through that reference. Here a callback is the address of the local, and a store says which locals
  are alive; \<open>Chat_Delivery\<close>, where a callback is the id itself, is its abstraction.
\<close>

section \<open>The code\<close>

text \<open>
  \<open>cs_locals\<close>: the strings \<open>chat_id\<close> of the calls of \<open>chat_completion\<close>, by address; none after the call
  has returned. The session is captured by value, as a shared pointer; it has the address as its name.
\<close>

record chat_state =
  cs_locals :: "nat \<Rightarrow> string option"
  cs_bus :: "nat dispatcher"

definition read_local :: "nat \<Rightarrow> chat_state \<Rightarrow> string res" where
  "read_local a st = (case cs_locals st a of None \<Rightarrow> Inl Dangling | Some s \<Rightarrow> Inr s)"

text \<open>The messages streamed, and the state or the fault the callback ends in.\<close>

definition call_ref :: "nat \<Rightarrow> inference_event \<Rightarrow> chat_state \<Rightarrow> (nat \<times> json \<times> bool) list \<times> chat_state res" where
  "call_ref a e st =
     ((case chat_callback e of None \<Rightarrow> [] | Some m \<Rightarrow> [(a, m)]),
      (case e of
         GenerationCompleted t status n \<Rightarrow>
           rbind (read_local a st) (\<lambda>chat_id. Inr (st\<lparr>cs_bus := unlisten chat_id (cs_bus st)\<rparr>))
       | _ \<Rightarrow> Inr st))"

fun call_refs :: "nat list \<Rightarrow> inference_event \<Rightarrow> chat_state \<Rightarrow> (nat \<times> json \<times> bool) list \<times> chat_state res" where
  "call_refs [] e st = ([], Inr st)"
| "call_refs (a # as) e st =
     (case call_ref a e st of
        (ms, Inl f) \<Rightarrow> (ms, Inl f)
      | (ms, Inr st) \<Rightarrow> let (rest, r) = call_refs as e st in (ms @ rest, r))"

text \<open>A handler declares its id and registers its callback; it returns; the worker dispatches an event.\<close>

datatype frame_act = Entered nat string | Returned nat | Dispatched string event_kind inference_event

fun frame_step :: "frame_act \<Rightarrow> chat_state \<Rightarrow> (nat \<times> json \<times> bool) list \<times> chat_state res" where
  "frame_step (Entered a chat_id) st =
     ([], Inr (st\<lparr>cs_locals := (cs_locals st)(a := Some chat_id), cs_bus := listen chat_id a chat_events (cs_bus st)\<rparr>))"
| "frame_step (Returned a) st = ([], Inr (st\<lparr>cs_locals := (cs_locals st)(a := None)\<rparr>))"
| "frame_step (Dispatched gid k e) st =
     (let (as, d) = dispatch gid k (cs_bus st) in call_refs as e (st\<lparr>cs_bus := d\<rparr>))"

fun frame_steps :: "frame_act list \<Rightarrow> chat_state \<Rightarrow> (nat \<times> json \<times> bool) list \<times> chat_state res" where
  "frame_steps [] st = ([], Inr st)"
| "frame_steps (h # hs) st =
     (case frame_step h st of
        (ms, Inl f) \<Rightarrow> (ms, Inl f)
      | (ms, Inr st) \<Rightarrow> let (rest, r) = frame_steps hs st in (ms @ rest, r))"

section \<open>Refinement\<close>

text \<open>The chat at an address has the id \<open>names\<close> gives; the dispatcher has the ids in place of addresses.\<close>

fun abs_act :: "frame_act \<Rightarrow> chat_act list" where
  "abs_act (Entered a chat_id) = [Submitted chat_id]"
| "abs_act (Returned a) = []"
| "abs_act (Dispatched gid k e) = [Happened gid k e]"

definition named :: "(nat \<Rightarrow> string) \<Rightarrow> frame_act \<Rightarrow> bool" where
  "named names h \<longleftrightarrow> (case h of Entered a chat_id \<Rightarrow> chat_id = names a | _ \<Rightarrow> True)"

definition rename :: "(nat \<Rightarrow> string) \<Rightarrow> (nat \<times> 'b) list \<Rightarrow> (string \<times> 'b) list" where
  "rename names xs = map (\<lambda>(a, y). (names a, y)) xs"

definition bus_rel :: "(nat \<Rightarrow> string) \<Rightarrow> chat_state \<Rightarrow> string dispatcher \<Rightarrow> bool" where
  "bus_rel names st d \<longleftrightarrow> (\<forall>a s. cs_locals st a = Some s \<longrightarrow> s = names a) \<and>
     (\<forall>g. listeners_of d g = rename names (listeners_of (cs_bus st) g))"

lemma rename_simps [simp]:
  "rename names [] = []" "rename names (xs @ ys) = rename names xs @ rename names ys"
  "rename names ((a, y) # xs) = (names a, y) # rename names xs"
  by (simp_all add: rename_def)

lemma call_ref_refines:
  assumes "bus_rel names st d" and "call_ref a e st = (ms, Inr st')"
  shows "fst (run_callback (names a) e d) = rename names ms \<and> bus_rel names st' (snd (run_callback (names a) e d))"
  using assms
  by (auto simp: call_ref_def run_callback_def bus_rel_def read_local_def rbind_eq_Inr
      bus.registered_unregister split: option.splits inference_event.splits)

lemma call_refs_refines:
  assumes "bus_rel names st d" and "call_refs as e st = (ms, Inr st')"
  shows "fst (call_all (map names as) e d) = rename names ms \<and> bus_rel names st' (snd (call_all (map names as) e d))"
  using assms
proof (induction as arbitrary: st d ms)
  case (Cons a as)
  obtain ms1 r1 where c: "call_ref a e st = (ms1, r1)" by fastforce
  with Cons.prems(2) obtain st1 where r1: "r1 = Inr st1" by (cases r1) auto
  obtain ms2 r2 where c2: "call_refs as e st1 = (ms2, r2)" by fastforce
  with Cons.prems(2) c r1 have m: "ms = ms1 @ ms2" "r2 = Inr st'" by auto
  from call_ref_refines [OF Cons.prems(1) c [unfolded r1]] have
    one: "fst (run_callback (names a) e d) = rename names ms1" "bus_rel names st1 (snd (run_callback (names a) e d))"
    by simp_all
  from Cons.IH [OF one(2) c2 [unfolded m(2)]] one(1) m(1) show ?case by (simp add: split_def Let_def)
qed simp

lemma frame_step_refines:
  assumes "bus_rel names st d" and "named names h" and "frame_step h st = (ms, Inr st')"
  shows "fst (acts_on (abs_act h) d) = rename names ms \<and> bus_rel names st' (snd (acts_on (abs_act h) d))"
proof (cases h)
  case (Dispatched g k e)
  let ?d' = "snd (dispatch g k d)" and ?st = "st\<lparr>cs_bus := snd (dispatch g k (cs_bus st))\<rparr>"
  let ?as = "fst (dispatch g k (cs_bus st))"
  have "bus_rel names ?st ?d'" using assms(1) by (simp add: bus_rel_def bus.emit_keeps)
  moreover have "fst (dispatch g k d) = map names ?as"
    using assms(1) by (auto simp: bus_rel_def bus.emit_callbacks rename_def filter_map comp_def split_def)
  moreover have "call_refs ?as e ?st = (ms, Inr st')"
    using assms(3) Dispatched by (simp add: split_def Let_def)
  ultimately show ?thesis using call_refs_refines [of names ?st ?d' ?as e ms st'] Dispatched
    by (simp add: dispatch_event_def split_def Let_def)
qed (use assms in \<open>auto simp: bus_rel_def named_def chat_listen_def bus.registered_register split: if_splits\<close>)

lemma acts_append:
  "acts_on (xs @ ys) d = (fst (acts_on xs d) @ fst (acts_on ys (snd (acts_on xs d))), snd (acts_on ys (snd (acts_on xs d))))"
  by (induction xs arbitrary: d) (simp_all add: split_def Let_def)

lemma frame_steps_refine:
  assumes "bus_rel names st d" and "list_all (named names) hs" and "frame_steps hs st = (ms, Inr st')"
  shows "fst (acts_on (concat (map abs_act hs)) d) = rename names ms \<and>
    bus_rel names st' (snd (acts_on (concat (map abs_act hs)) d))"
  using assms
proof (induction hs arbitrary: st d ms)
  case (Cons h hs)
  obtain ms1 r1 where c: "frame_step h st = (ms1, r1)" by fastforce
  with Cons.prems(3) obtain st1 where r1: "r1 = Inr st1" by (cases r1) auto
  obtain ms2 r2 where c2: "frame_steps hs st1 = (ms2, r2)" by fastforce
  with Cons.prems(3) c r1 have m: "ms = ms1 @ ms2" "r2 = Inr st'" by auto
  from Cons.prems(2) have n: "named names h" "list_all (named names) hs" by simp_all
  from frame_step_refines [OF Cons.prems(1) n(1) c [unfolded r1]] have
    one: "fst (acts_on (abs_act h) d) = rename names ms1" "bus_rel names st1 (snd (acts_on (abs_act h) d))"
    by simp_all
  from Cons.IH [OF one(2) n(2) c2 [unfolded m(2)]] one(1) m(1) show ?case by (simp add: acts_append)
qed simp

section \<open>One chat\<close>

lemma frame_steps_append:
  "frame_steps (xs @ ys) st = (case frame_steps xs st of
     (ms, Inl f) \<Rightarrow> (ms, Inl f)
   | (ms, Inr st) \<Rightarrow> let (rest, r) = frame_steps ys st in (ms @ rest, r))"
  by (induction xs arbitrary: st) (auto simp: split_def Let_def split: sum.splits)

definition dispatched :: "string \<Rightarrow> event_log \<Rightarrow> frame_act list" where
  "dispatched gid evs = map (\<lambda>(k, e). Dispatched gid k e) evs"

lemma dispatch_frame:
  assumes "listeners_of (cs_bus st) g = [(a, chat_events)]"
  obtains d where "frame_step (Dispatched g k e) st
      = (if k \<in> set chat_events then call_refs [a] e (st\<lparr>cs_bus := d\<rparr>) else ([], Inr (st\<lparr>cs_bus := d\<rparr>)))"
    "listeners_of d = listeners_of (cs_bus st)"
proof -
  let ?d = "snd (dispatch g k (cs_bus st))"
  have "fst (dispatch g k (cs_bus st)) = (if k \<in> set chat_events then [a] else [])"
    using assms by (simp add: bus.emit_callbacks)
  then show thesis using that [of ?d] by (simp add: split_def Let_def bus.emit_keeps)
qed

text \<open>Before the completion no id is read.\<close>

lemma frames_open:
  assumes "listeners_of (cs_bus st) g = [(a, chat_events)]"
    and "list_all (\<lambda>(k, e). \<not> is_GenerationCompleted e) evs"
  shows "\<exists>st'. frame_steps (dispatched g evs) st = (map (Pair a) (chat_stream evs), Inr st') \<and>
    cs_locals st' = cs_locals st \<and> listeners_of (cs_bus st') = listeners_of (cs_bus st)"
  using assms
proof (induction evs arbitrary: st)
  case (Cons ev evs)
  obtain k e where ev: "ev = (k, e)" by fastforce
  from dispatch_frame [OF Cons.prems(1), of k e] obtain d where
    d: "frame_step (Dispatched g k e) st
      = (if k \<in> set chat_events then call_refs [a] e (st\<lparr>cs_bus := d\<rparr>) else ([], Inr (st\<lparr>cs_bus := d\<rparr>)))"
    "listeners_of d = listeners_of (cs_bus st)" by blast
  have "snd (call_ref a e (st\<lparr>cs_bus := d\<rparr>)) = Inr (st\<lparr>cs_bus := d\<rparr>)"
    using Cons.prems(2) ev by (cases e) (simp_all add: call_ref_def)
  moreover from Cons.IH [of "st\<lparr>cs_bus := d\<rparr>"] Cons.prems d(2) obtain st' where
    "frame_steps (dispatched g evs) (st\<lparr>cs_bus := d\<rparr>) = (map (Pair a) (chat_stream evs), Inr st')"
    "cs_locals st' = cs_locals st" "listeners_of (cs_bus st') = listeners_of (cs_bus st)" by auto
  ultimately show ?case using d(1)
    by (auto simp: ev dispatched_def chat_stream_Cons call_ref_def split_def Let_def simp del: frame_step.simps
        split: option.splits)
qed (simp add: dispatched_def)

text \<open>The completion streams its message and then reads the id.\<close>

lemma frame_completes:
  assumes "listeners_of (cs_bus st) g = [(a, chat_events)]"
  shows "\<exists>d. frame_step (Dispatched g GENERATION_COMPLETED (GenerationCompleted t status n)) st
      = ([(a, finish_payload status, True)],
         case cs_locals st a of None \<Rightarrow> Inl Dangling | Some s \<Rightarrow> Inr (st\<lparr>cs_bus := unlisten s d\<rparr>)) \<and>
    listeners_of d = listeners_of (cs_bus st)"
  by (rule dispatch_frame [OF assms, of GENERATION_COMPLETED "GenerationCompleted t status n"])
    (auto simp: chat_events_def call_ref_def read_local_def split_def Let_def simp del: frame_step.simps
      split: option.splits sum.splits)

text \<open>A whole run, with the return of the handler anywhere in it.\<close>

lemma one_frame:
  assumes "listeners_of (cs_bus st) g = []"
    and "evs1 @ evs2 = before @ [(GENERATION_COMPLETED, GenerationCompleted t status n)]"
    and "list_all (\<lambda>(k, e). \<not> is_GenerationCompleted e) before"
  shows "\<exists>res. frame_steps (Entered a g # dispatched g evs1 @ Returned a # dispatched g evs2) st
      = (map (Pair a) (chat_stream before @ [(finish_payload status, True)]), res) \<and>
    (if evs2 = [] then \<exists>st'. res = Inr st' \<and> cs_locals st' a = None \<and> listeners_of (cs_bus st') = listeners_of (cs_bus st)
     else res = Inl Dangling)"
proof -
  let ?last = "(GENERATION_COMPLETED, GenerationCompleted t status n)"
  let ?st0 = "st\<lparr>cs_locals := (cs_locals st)(a := Some g), cs_bus := listen g a chat_events (cs_bus st)\<rparr>"
  have l: "listeners_of (cs_bus ?st0) = (listeners_of (cs_bus st))(g := [(a, chat_events)])"
    using assms(1) by (simp add: bus.registered_register)
  then have one: "listeners_of (cs_bus ?st0) g = [(a, chat_events)]" by simp
  show ?thesis
  proof (cases "evs2 = []")
    case True
    with assms(2) have "evs1 = before @ [?last]" by simp
    moreover from frames_open [OF one assms(3)] obtain st1 where
      st1: "frame_steps (dispatched g before) ?st0 = (map (Pair a) (chat_stream before), Inr st1)"
      "cs_locals st1 = cs_locals ?st0" "listeners_of (cs_bus st1) = listeners_of (cs_bus ?st0)" by blast
    moreover from frame_completes [of st1 g a t status n] one st1(3) obtain d where
      "frame_step (Dispatched g GENERATION_COMPLETED (GenerationCompleted t status n)) st1
        = ([(a, finish_payload status, True)], Inr (st1\<lparr>cs_bus := unlisten g d\<rparr>))"
      "listeners_of d = listeners_of (cs_bus st1)" using st1(2) by auto
    ultimately show ?thesis using True l assms(1)
      by (simp add: dispatched_def frame_steps_append bus.registered_unregister fun_eq_iff
          del: frame_step.simps(3))
  next
    case False
    then obtain evs3 where evs2: "evs2 = evs3 @ [?last]" "before = evs1 @ evs3"
      using assms(2) by (cases evs2 rule: rev_cases) auto
    with assms(3) have o: "list_all (\<lambda>(k, e). \<not> is_GenerationCompleted e) evs1"
      "list_all (\<lambda>(k, e). \<not> is_GenerationCompleted e) evs3" by simp_all
    from frames_open [OF one o(1)] obtain st1 where
      st1: "frame_steps (dispatched g evs1) ?st0 = (map (Pair a) (chat_stream evs1), Inr st1)"
      "listeners_of (cs_bus st1) = listeners_of (cs_bus ?st0)" by blast
    let ?st1 = "st1\<lparr>cs_locals := (cs_locals st1)(a := None)\<rparr>"
    from frames_open [of ?st1 g a, OF _ o(2)] one st1(2) obtain st2 where
      st2: "frame_steps (dispatched g evs3) ?st1 = (map (Pair a) (chat_stream evs3), Inr st2)"
      "cs_locals st2 a = None" "listeners_of (cs_bus st2) = listeners_of (cs_bus st1)" by auto
    with frame_completes [of st2 g a t status n] one st1(2) have
      "frame_step (Dispatched g GENERATION_COMPLETED (GenerationCompleted t status n)) st2
        = ([(a, finish_payload status, True)], Inl Dangling)" by auto
    with st1(1) st2(1) False show ?thesis
      by (simp add: evs2 dispatched_def frame_steps_append del: frame_step.simps(3))
  qed
qed

end
