(* ===== verification/Server_Properties.thy ===== *)
theory Server_Properties
  imports Stream_Progress Chat_Lifetime Runtime_Properties
begin

text \<open>The properties of the server: the streamed reply and the answers to requests.\<close>

section \<open>Streaming\<close>







text \<open>
  C30: a client that decodes the chunked body reads exactly the events: for messages \<open>ps\<close> and a last
  message \<open>q\<close>, their texts and the \<open>[DONE]\<close> marker, and it stops where the reply stops.
\<close>

theorem client_reads_reply:
  assumes "length ps + 2 \<le> fuel"
  shows "read_chunks fuel (concat (map (\<lambda>p. message_bytes p False) ps) @ message_bytes q True @ left)
    = Some (concat (map event_text ps) @ event_text q @ done_text, left)"
  by (rule read_stream [OF assms])

theorem client_reads_reply_witness:
  "read_chunks 4 (concat (map (\<lambda>p. message_bytes p False) [''hi'', ''there'']) @ message_bytes ''end'' True @ ''GET'')
    = Some (concat (map event_text [''hi'', ''there'']) @ event_text ''end'' @ done_text, ''GET'')"
  by (rule client_reads_reply) simp

text \<open>
  The search for the terminator finds the last message and no other, as long as the payload
  contains no carriage return, which serialized JSON does not.
\<close>

theorem terminator_marks_last:
  assumes "cr \<notin> set payload"
  shows "ends_stream (message_bytes payload is_end) \<longleftrightarrow> is_end"
  by (rule message_ends_stream [OF assms])

theorem terminator_marks_last_witness:
  "ends_stream (message_bytes ''0 0 0'' False) \<longleftrightarrow> False"
  by (rule terminator_marks_last) (simp add: cr_def)

section \<open>The reply to a run\<close>

text \<open>
  A run is streamed completely: the chat sends one message per generated token, whose
  contents concatenate to the run's output, and then exactly one last message with the reason.
\<close>

theorem run_streamed:
  assumes "generate R z max_tokens tokens ie [] = Inr r" and "tokens \<noteq> []"
  shows "\<exists>toks status. concat toks = gr_output r \<and> status \<noteq> CONTINUE \<and>
    chat_stream (gr_events r)
      = map (\<lambda>t. (token_payload t, False)) toks @ [(finish_payload status, True)]"
proof -
  from run_messages [OF assms silent_tokenizer(1)] obtain toks status before t n where
    m: "concat toks = gr_output r" "status \<noteq> CONTINUE"
    "gr_events r = before @ [(GENERATION_COMPLETED, GenerationCompleted t status n)]"
    "chat_stream before = map (\<lambda>t. (token_payload t, False)) toks" by metis
  then have "chat_stream (gr_events r)
      = map (\<lambda>t. (token_payload t, False)) toks @ [(finish_payload status, True)]"
    by (simp add: chat_stream_Cons chat_events_def)
  with m(1,2) show ?thesis by blast
qed

theorem run_streamed_witness:
  "\<exists>r toks status. generate demo_env demo_tokenizer 5 [1, 1] (inference_new ()) [] = Inr r
    \<and> concat toks = gr_output r \<and> status \<noteq> CONTINUE \<and>
    chat_stream (gr_events r)
      = map (\<lambda>t. (token_payload t, False)) toks @ [(finish_payload status, True)]"
proof -
  from demo_generates obtain r where
    r: "generate demo_env demo_tokenizer 5 [1, 1] (inference_new ()) [] = Inr r" ..
  from run_streamed [OF r] r show ?thesis by blast
qed



text \<open>
  C17: the id of a chat outlives its handler by reference. If the handler of a chat returns before the last
  event of its run is dispatched, then the session is sent the whole reply, and the callback of the
  completion then reads the id of the handler, a destroyed string, to remove the chat from the dispatcher. Only
  a chat whose handler is still running at that moment is removed; then the reply is the same.
\<close>

theorem chat_id_dangles:
  assumes "generate R z max_tokens tokens ie
      [(TOKENIZER_STARTED, TokenizerStarted t0 k), (TOKENIZER_COMPLETED, TokenizerCompleted t1 l)] = Inr r"
    and "tokens \<noteq> []" and "gr_events r = evs1 @ evs2" and "listeners_of (cs_bus st) chat_id = []"
  shows "\<exists>toks status res. concat toks = gr_output r \<and> status \<noteq> CONTINUE \<and>
    frame_steps (Entered a chat_id # dispatched chat_id evs1 @ Returned a # dispatched chat_id evs2) st
      = (map (Pair a) (reply_messages toks status), res) \<and>
    (if evs2 = [] then \<exists>st'. res = Inr st' \<and> cs_locals st' a = None \<and> listeners_of (cs_bus st') = listeners_of (cs_bus st)
     else res = Inl Dangling)"
proof -
  from run_messages [OF assms(1,2) silent_tokenizer(2)] obtain toks status before t n where
    m: "concat toks = gr_output r" "status \<noteq> CONTINUE"
    "evs1 @ evs2 = before @ [(GENERATION_COMPLETED, GenerationCompleted t status n)]"
    "list_all (\<lambda>(k, e). \<not> is_GenerationCompleted e) before"
    "chat_stream before = map (\<lambda>t. (token_payload t, False)) toks" using assms(3) by metis
  from one_frame [OF assms(4) m(3,4), of a] m(1,2,5) show ?thesis
    by (intro exI [of _ toks] exI [of _ status]) (simp add: reply_messages_def)
qed

theorem chat_id_dangles_witness:
  "\<exists>r ms. generate demo_env demo_tokenizer 5 [1, 1] (inference_new ())
      [(TOKENIZER_STARTED, TokenizerStarted 0 9), (TOKENIZER_COMPLETED, TokenizerCompleted 1 2)] = Inr r \<and>
    frame_steps (Entered 7 ''chat-1'' # Returned 7 # dispatched ''chat-1'' (gr_events r))
      \<lparr>cs_locals = \<lambda>a. None, cs_bus = dispatcher_init\<rparr> = (ms, Inl Dangling)"
proof -
  obtain r where r: "generate demo_env demo_tokenizer 5 [1, 1] (inference_new ())
      [(TOKENIZER_STARTED, TokenizerStarted 0 9), (TOKENIZER_COMPLETED, TokenizerCompleted 1 2)] = Inr r"
    using demo_generates by blast
  let ?st = "\<lparr>cs_locals = \<lambda>a. None, cs_bus = dispatcher_init\<rparr>"
  have "listeners_of (cs_bus ?st) ''chat-1'' = []" by (simp add: listeners_of_def dispatcher_init_def)
  from chat_id_dangles [OF r _ _ this, of "[]" "gr_events r" 7] obtain ms res where
    f: "frame_steps (Entered 7 ''chat-1'' # Returned 7 # dispatched ''chat-1'' (gr_events r)) ?st = (ms, res)"
    "gr_events r \<noteq> [] \<Longrightarrow> res = Inl Dangling"
    by (auto simp: dispatched_def split: if_splits)
  moreover have "gr_events r \<noteq> []" using run_messages [OF r _ silent_tokenizer(2)] by fastforce
  ultimately show ?thesis using r by blast
qed

section \<open>Answers\<close>

text \<open>
  The status of a JSON error is lost: whatever the request and whichever error it has, a JSON
  response has status 200.
\<close>

theorem json_status_always_ok:
  assumes "handle_request E rq = Inr acts" and "Respond rs \<in> set acts"
    and "rs_content_type rs = ''application/json''"
  shows "rs_status rs = 200"
  using assms
  by (auto simp: handle_request_def Let_def send_json_response_def send_html_response_def health_check_def
      split: if_splits sum.splits json.splits dest!: chat_completion_acts)

text \<open>An environment without a parser to speak of, over integers for floats.\<close>

definition demo_serve :: "json \<Rightarrow> int serve_env" where
  "demo_serve body = \<lparr>se_parse = \<lambda>b. Inr body, se_serialize = \<lambda>j. ''...'', se_files = \<lambda>f. None,
     se_draw = \<lambda>i. i, se_lit = \<lambda>n d. 1\<rparr>"

definition demo_request :: request where
  "demo_request = \<lparr>rq_method = POST, rq_target = ''/v1/chat/completions'',
     rq_content_type = ''text/plain'', rq_body = ''hello'', rq_keep_alive = True\<rparr>"

theorem json_status_always_ok_witness:
  "\<exists>rs. handle_request (demo_serve JNull) demo_request = Inr [Respond rs] \<and> rs_status rs = 200"
proof -
  obtain rs where h: "handle_request (demo_serve JNull) demo_request = Inr [Respond rs]"
      "rs_content_type rs = ''application/json''"
    by (simp add: handle_request_def Let_def demo_request_def send_json_response_def sublist_code)
  from json_status_always_ok [OF h(1) _ h(2)] h(1) show ?thesis by simp
qed

text \<open>
  A body that parses to something other than an object is not answered: the conversion throws
  and the exception leaves the handler of the session.
\<close>

theorem non_object_body_escapes:
  assumes "rq_method rq = POST" and "rq_target rq = ''/v1/chat/completions''"
    and "sublist ''application/json'' (rq_content_type rq)"
    and "se_parse E (rq_body rq) = Inr body" and "\<forall>fields. body \<noteq> JObject fields"
  shows "handle_request E rq = Inl (RuntimeError ''not an object'')"
  using assms by (cases body) (simp_all add: handle_request_def Let_def)

theorem non_object_body_escapes_witness:
  "handle_request (demo_serve (JArray []))
     (demo_request\<lparr>rq_content_type := ''application/json'', rq_body := ''[]''\<rparr>)
   = Inl (RuntimeError ''not an object'')"
  by (rule non_object_body_escapes [where body = "JArray []"]) (simp_all add: demo_request_def demo_serve_def)

text \<open>
  Exactly the requests that no branch of the routing takes get no answer: reading one ends with
  nothing done and no operation outstanding, so that the session is destroyed and its connection
  closed. They are
  the \<open>GET\<close> requests for other pages, every verb other than \<open>GET\<close> and \<open>POST\<close>, and well-formed JSON
  posts to other targets.
\<close>

theorem unmatched_request_dropped:
  "read_completed E (ReadOk rq) = Inr (Nothing, []) \<longleftrightarrow>
    (case rq_method rq of
       GET \<Rightarrow> rq_target rq \<notin> {''/'', ''/index.html'', ''/health''}
     | POST \<Rightarrow> sublist ''application/json'' (rq_content_type rq) \<and>
         (\<exists>body. se_parse E (rq_body rq) = Inr body) \<and> rq_target rq \<noteq> ''/v1/chat/completions''
     | OtherVerb v \<Rightarrow> True)"
  using handle_request_Nil [of E rq]
  by (auto simp: read_completed_def rbind_eq_Inr unmatched_def)




end
