(* ===== verification/Server_Listener.thy ===== *)
theory Server_Listener
  imports Prelude
begin

text \<open>
  The listener of the server (\<open>tools/serve/server.cpp\<close>, class \<open>Listener\<close>): opening the acceptor,
  the accept loop and shutdown by a signal. What Asio reports is an argument; a session is only
  counted here, it runs on its own.
\<close>

text \<open>\<open>l_signals\<close>: the set of signals exists; \<open>l_waiting\<close>: a wait for one of them is outstanding.\<close>

record tcp_listener =
  l_open :: bool
  l_signals :: bool
  l_waiting :: bool
  l_accepting :: bool
  l_sessions :: nat
  l_stopped :: bool

text \<open>The results of \<open>open\<close>, \<open>set_option\<close>, \<open>bind\<close> and \<open>listen\<close>; signals are set up after all four.\<close>

record open_results =
  or_open :: bool
  or_option :: bool
  or_bind :: bool
  or_listen :: bool

definition listener_new :: "open_results \<Rightarrow> tcp_listener" where
  "listener_new r =
     (let l = \<lparr>l_open = False, l_signals = False, l_waiting = False, l_accepting = False,
        l_sessions = 0, l_stopped = False\<rparr> in
      if \<not> or_open r then l
      else let l = l\<lparr>l_open := True\<rparr> in
        if \<not> or_option r \<or> \<not> or_bind r \<or> \<not> or_listen r then l
        else l\<lparr>l_signals := True, l_waiting := True\<rparr>)"

definition do_accept :: "tcp_listener \<Rightarrow> tcp_listener" where
  "do_accept l = l\<lparr>l_accepting := True\<rparr>"

definition listener_run :: "tcp_listener \<Rightarrow> tcp_listener" where
  "listener_run l = do_accept l"

text \<open>The completion of \<open>async_accept\<close>.\<close>

definition accepted :: "bool \<Rightarrow> tcp_listener \<Rightarrow> tcp_listener" where
  "accepted ok l =
     (let l = l\<lparr>l_accepting := False\<rparr> in
      if \<not> ok then l else do_accept (l\<lparr>l_sessions := l_sessions l + 1\<rparr>))"

definition listener_stop :: "tcp_listener \<Rightarrow> tcp_listener res" where
  "listener_stop l =
     (if \<not> l_signals l then Inl NullDeref
      else Inr (l\<lparr>l_open := False, l_waiting := False, l_stopped := True\<rparr>))"

text \<open>The completion of the wait for a signal; it is not started again.\<close>

definition signal_received :: "bool \<Rightarrow> tcp_listener \<Rightarrow> tcp_listener res" where
  "signal_received ok l =
     (let l = l\<lparr>l_waiting := False\<rparr> in if ok then listener_stop l else Inr l)"

text \<open>
  The two completions. An accept succeeds on a listening acceptor only, and the signals are set up
  once it listens.
\<close>

inductive listener_step :: "tcp_listener \<Rightarrow> tcp_listener \<Rightarrow> bool" where
  accept: "l_accepting l \<Longrightarrow> \<not> l_stopped l \<Longrightarrow> (ok \<Longrightarrow> l_open l \<and> l_signals l) \<Longrightarrow>
    listener_step l (accepted ok l)"
| signal: "l_waiting l \<Longrightarrow> \<not> l_stopped l \<Longrightarrow> signal_received ok l = Inr l' \<Longrightarrow> listener_step l l'"

inductive_cases listener_stepE: "listener_step l l'"

section \<open>Facts\<close>

text \<open>A step keeps the set of signals and starts no wait.\<close>

lemma listener_step_signals:
  assumes "listener_step l l'"
  shows "l_signals l' = l_signals l" and "l_waiting l' \<Longrightarrow> l_waiting l"
  using assms
  by (auto elim!: listener_stepE simp: signal_received_def listener_stop_def accepted_def do_accept_def
      Let_def split: if_splits)

lemma not_accepting_step:
  assumes "listener_step l l'" and "\<not> l_accepting l"
  shows "\<not> l_accepting l' \<and> l_sessions l' = l_sessions l"
  using assms
  by (cases rule: listener_step.cases)
    (auto simp: signal_received_def listener_stop_def Let_def split: if_splits)

lemma not_accepting_steps:
  assumes "listener_step\<^sup>*\<^sup>* l l'" and "\<not> l_accepting l"
  shows "\<not> l_accepting l' \<and> l_sessions l' = l_sessions l"
  using assms by (induction rule: rtranclp_induct) (auto dest: not_accepting_step)

end
