(* ===== verification/Graph_Terms.thy ===== *)
theory Graph_Terms
  imports Prelude
begin

text \<open>
  The compute graph as the program builds it. ggml is outside the repository: a tensor of the
  graph is the term of the ggml calls that made it, and what ggml does with it, the shape it
  gives a result and the operands it accepts, is a parameter (record \<open>ggml\<close>). The laws of that
  parameter that the shape theorem relies on are collected in \<open>ggml_shapes\<close>; they are the
  documented shape rules of the operations.
\<close>

section \<open>Terms\<close>

text \<open>
  One constructor per ggml call of \<open>src/layers/\<close> and \<open>src/models/qwen/model.cpp\<close>, with the
  arguments that are no tensors. \<open>OpNew\<close> is a fresh tensor of the given type and sizes, \<open>OpLoaded\<close>
  a tensor of the model file. Floating-point arguments are bit patterns; the scale of the
  attention, \<open>1 / sqrtf(d_head)\<close>, is represented by \<open>d_head\<close>.
\<close>

datatype elem_type = TYPE_I32 | TYPE_F16

datatype gop =
    OpNew elem_type "nat list" | OpLoaded string "nat list" | OpMulMat | OpAdd | OpMul
  | OpRmsNorm u32 | OpSilu | OpGetRows | OpReshape3d nat nat nat | OpReshape2d nat nat
  | OpRopeNeox nat u32 | OpPermute nat nat nat nat | OpCont | OpFlashAttn nat
  | OpView nat "nat list"

text \<open>A tensor: the call, its operands, and the name the program gave it last.\<close>

datatype gtensor = Tensor (t_op: gop) (t_src: "gtensor list") (t_name: string)

type_synonym gptr = "gtensor option"

definition set_name :: "string \<Rightarrow> gtensor \<Rightarrow> gtensor" where
  "set_name nm t = Tensor (t_op t) (t_src t) nm"

lemma set_name_sel [simp]:
  "t_op (set_name nm t) = t_op t" "t_src (set_name nm t) = t_src t" "t_name (set_name nm t) = nm"
  by (simp_all add: set_name_def)

section \<open>ggml\<close>

text \<open>\<open>g_ne t i\<close> is \<open>t->ne[i]\<close>; \<open>g_accepts\<close> tells whether a call passes ggml's assertions.\<close>

record ggml =
  g_ne :: "gtensor \<Rightarrow> nat \<Rightarrow> nat"
  g_accepts :: "gop \<Rightarrow> gtensor list \<Rightarrow> bool"

text \<open>A call of ggml: it dereferences its operands, checks them, and returns a new tensor.\<close>

definition call_ggml :: "ggml \<Rightarrow> gop \<Rightarrow> gptr list \<Rightarrow> gtensor res" where
  "call_ggml G f ps =
     (if None \<in> set ps then Inl NullDeref
      else if \<not> g_accepts G f (map the ps) then Inl AssertFailed
      else Inr (Tensor f (map the ps) []))"

definition shaped :: "ggml \<Rightarrow> gtensor \<Rightarrow> nat \<Rightarrow> nat \<Rightarrow> nat \<Rightarrow> bool" where
  "shaped G t a b c \<longleftrightarrow> g_ne G t 0 = a \<and> g_ne G t 1 = b \<and> g_ne G t 2 = c \<and> g_ne G t 3 = 1"

text \<open>
  \<open>makes G f ts a b c\<close>: ggml accepts the call and the result has the shape, under any name.
\<close>

definition makes :: "ggml \<Rightarrow> gop \<Rightarrow> gtensor list \<Rightarrow> nat \<Rightarrow> nat \<Rightarrow> nat \<Rightarrow> bool" where
  "makes G f ts a b c \<longleftrightarrow> g_accepts G f ts \<and> (\<forall>nm. shaped G (Tensor f ts nm) a b c)"

text \<open>Operations whose results are contiguous in memory, which \<open>ggml_reshape\<close> asks of its operand.\<close>

definition contiguous_op :: "gop \<Rightarrow> bool" where
  "contiguous_op f \<longleftrightarrow> f \<in> {OpMulMat, OpAdd, OpMul, OpSilu, OpGetRows, OpCont} \<or>
     (\<exists>d. f = OpFlashAttn d) \<or> (\<exists>e. f = OpRmsNorm e)"

text \<open>
  The shape rules: matrix product contracts the first axis; addition and multiplication accept an
  operand of the same shape or a row that is repeated; attention maps queries \<open>[d, n, h]\<close>, keys
  and values \<open>[d, l, h']\<close>, where \<open>h'\<close> divides \<open>h\<close>, and a mask \<open>[l, n]\<close> to \<open>[d, h, n]\<close>.
\<close>

definition ggml_shapes :: "ggml \<Rightarrow> bool" where
  "ggml_shapes G \<longleftrightarrow>
     (\<forall>w x k m n. shaped G w k m 1 \<longrightarrow> shaped G x k n 1 \<longrightarrow> makes G OpMulMat [w, x] m n 1) \<and>
     (\<forall>f x y a b c. f \<in> {OpAdd, OpMul} \<longrightarrow> shaped G x a b c \<longrightarrow>
        shaped G y a b c \<or> shaped G y a 1 1 \<longrightarrow> makes G f [x, y] a b c) \<and>
     (\<forall>f x a b c. f = OpSilu \<or> f = OpCont \<or> (\<exists>e. f = OpRmsNorm e) \<longrightarrow> shaped G x a b c \<longrightarrow>
        makes G f [x] a b c) \<and>
     (\<forall>w i d v n. shaped G w d v 1 \<longrightarrow> shaped G i n 1 1 \<longrightarrow> makes G OpGetRows [w, i] d n 1) \<and>
     (\<forall>x a b c i j k. contiguous_op (t_op x) \<longrightarrow> shaped G x a b c \<longrightarrow> a * b * c = i * j * k \<longrightarrow>
        makes G (OpReshape3d i j k) [x] i j k) \<and>
     (\<forall>x a b c i j. contiguous_op (t_op x) \<longrightarrow> shaped G x a b c \<longrightarrow> a * b * c = i * j \<longrightarrow>
        makes G (OpReshape2d i j) [x] i j 1) \<and>
     (\<forall>x p d r a b c. shaped G x a b c \<longrightarrow> shaped G p c 1 1 \<longrightarrow> d \<le> a \<longrightarrow>
        makes G (OpRopeNeox d r) [x, p] a b c) \<and>
     (\<forall>x a b c. shaped G x a b c \<longrightarrow> makes G (OpPermute 0 2 1 3) [x] a c b) \<and>
     (\<forall>q k v m s d n h l h'. shaped G q d n h \<longrightarrow> shaped G k d l h' \<longrightarrow> shaped G v d l h' \<longrightarrow>
        shaped G m l n 1 \<longrightarrow> h' dvd h \<longrightarrow> makes G (OpFlashAttn s) [q, k, v, m] d h n) \<and>
     (\<forall>ty a. makes G (OpNew ty [a]) [] a 1 1) \<and>
     (\<forall>ty a b. makes G (OpNew ty [a, b]) [] a b 1)"

text \<open>The rules one by one.\<close>

lemmas ggml_rule = ggml_shapes_def [THEN iffD1]

lemmas mul_mat_shape = ggml_rule [THEN conjunct1, rule_format]
lemmas binary_shape = ggml_rule [THEN conjunct2, THEN conjunct1, rule_format]
lemmas unary_shape = ggml_rule [THEN conjunct2, THEN conjunct2, THEN conjunct1, rule_format]
lemmas rows_shape =
  ggml_rule [THEN conjunct2, THEN conjunct2, THEN conjunct2, THEN conjunct1, rule_format]
lemmas reshape3_shape =
  ggml_rule [THEN conjunct2, THEN conjunct2, THEN conjunct2,
    THEN conjunct2, THEN conjunct1, rule_format]
lemmas reshape2_shape =
  ggml_rule [THEN conjunct2, THEN conjunct2, THEN conjunct2,
    THEN conjunct2, THEN conjunct2, THEN conjunct1, rule_format]
lemmas rope_shape =
  ggml_rule [THEN conjunct2, THEN conjunct2, THEN conjunct2, THEN conjunct2,
    THEN conjunct2, THEN conjunct2, THEN conjunct1, rule_format]
lemmas permute_shape =
  ggml_rule [THEN conjunct2, THEN conjunct2, THEN conjunct2, THEN conjunct2,
    THEN conjunct2, THEN conjunct2, THEN conjunct2, THEN conjunct1, rule_format]
lemmas flash_shape =
  ggml_rule [THEN conjunct2, THEN conjunct2, THEN conjunct2, THEN conjunct2, THEN conjunct2,
    THEN conjunct2, THEN conjunct2, THEN conjunct2, THEN conjunct1, rule_format]
lemmas new1_shape =
  ggml_rule [THEN conjunct2, THEN conjunct2, THEN conjunct2, THEN conjunct2, THEN conjunct2,
    THEN conjunct2, THEN conjunct2, THEN conjunct2, THEN conjunct2, THEN conjunct1, rule_format]
lemmas new2_shape =
  ggml_rule [THEN conjunct2, THEN conjunct2, THEN conjunct2, THEN conjunct2, THEN conjunct2,
    THEN conjunct2, THEN conjunct2, THEN conjunct2, THEN conjunct2, THEN conjunct2, rule_format]

text \<open>A tensor that keeps its shape when it is renamed.\<close>

definition has_shape :: "ggml \<Rightarrow> gtensor \<Rightarrow> nat \<Rightarrow> nat \<Rightarrow> nat \<Rightarrow> bool" where
  "has_shape G t a b c \<longleftrightarrow> (\<forall>nm. shaped G (set_name nm t) a b c)"

lemma has_shapeD: "has_shape G t a b c \<Longrightarrow> shaped G t a b c"
  by (cases t) (metis gtensor.sel has_shape_def set_name_def)

lemma has_shape_named [simp]: "has_shape G t a b c \<Longrightarrow> shaped G (set_name nm t) a b c"
  by (simp add: has_shape_def)

lemma has_shape_set_name [simp]: "has_shape G (set_name nm t) a b c \<longleftrightarrow> has_shape G t a b c"
  by (simp add: has_shape_def set_name_def)

text \<open>A call that ggml accepts with a shape gives a tensor of that shape.\<close>

lemma call_makes:
  assumes "makes G f ts a b c"
  shows "\<exists>t. call_ggml G f (map Some ts) = Inr t \<and> t_op t = f \<and> has_shape G t a b c"
  using assms
  by (intro exI [of _ "Tensor f ts []"])
    (auto simp: call_ggml_def makes_def comp_def has_shape_def set_name_def)

lemmas mul_mat_call = call_makes [OF mul_mat_shape, simplified list.map]
lemmas binary_call = call_makes [OF binary_shape, simplified list.map]
lemmas unary_call = call_makes [OF unary_shape, simplified list.map]
lemmas rows_call = call_makes [OF rows_shape, simplified list.map]
lemmas reshape3_call = call_makes [OF reshape3_shape, simplified list.map]
lemmas reshape2_call = call_makes [OF reshape2_shape, simplified list.map]
lemmas rope_call = call_makes [OF rope_shape, simplified list.map]
lemmas permute_call = call_makes [OF permute_shape, simplified list.map]
lemmas flash_call = call_makes [OF flash_shape, simplified list.map]
lemmas new1_call = call_makes [OF new1_shape, simplified list.map]
lemmas new2_call = call_makes [OF new2_shape, simplified list.map]

section \<open>A reference\<close>

text \<open>
  Sizes computed by the documented rules; an instance of the parameter that accepts every call.
\<close>

fun ref_ne :: "gtensor \<Rightarrow> nat \<Rightarrow> nat" where
  "ref_ne (Tensor OpMulMat [w, x] nm) i = (if i = 0 then ref_ne w 1 else ref_ne x i)"
| "ref_ne (Tensor OpGetRows [w, x] nm) i =
     (if i = 0 then ref_ne w 0 else if i = 1 then ref_ne x 0 else 1)"
| "ref_ne (Tensor (OpReshape3d a b c) src nm) i =
     (if i = 0 then a else if i = 1 then b else if i = 2 then c else 1)"
| "ref_ne (Tensor (OpReshape2d a b) src nm) i = (if i = 0 then a else if i = 1 then b else 1)"
| "ref_ne (Tensor (OpPermute p q r t) (x # src) nm) i =
     (if i = 1 then ref_ne x 2 else if i = 2 then ref_ne x 1 else ref_ne x i)"
| "ref_ne (Tensor (OpFlashAttn d) (x # src) nm) i =
     (if i = 1 then ref_ne x 2 else if i = 2 then ref_ne x 1 else ref_ne x i)"
| "ref_ne (Tensor (OpNew ty dims) src nm) i = (if i < length dims then dims ! i else 1)"
| "ref_ne (Tensor (OpLoaded s dims) src nm) i = (if i < length dims then dims ! i else 1)"
| "ref_ne (Tensor (OpView s dims) src nm) i = (if i < length dims then dims ! i else 1)"
| "ref_ne (Tensor f (x # src) nm) i = ref_ne x i"
| "ref_ne (Tensor f [] nm) i = 1"

definition ref_ggml :: ggml where
  "ref_ggml = \<lparr>g_ne = ref_ne, g_accepts = (\<lambda>f ts. True)\<rparr>"

lemma ref_ggml_shapes: "ggml_shapes ref_ggml"
  unfolding ggml_shapes_def makes_def shaped_def ref_ggml_def by (intro conjI) auto

end
