(* ===== verification/Layers.thy ===== *)
theory Layers
  imports Graph_Terms
begin

text \<open>
  The layers (\<open>src/layers/\<close>): each adds its ggml calls to the graph. A layer called with the
  tensor \<open>x\<close> gives the tensor it returns, or the fault it ends in. The grouped attention talks to
  the key/value cache by an interface the class \<open>KVCache\<close> of this commit does not have (a position
  argument, a slice with fields K and V), so the cache is a parameter here.
\<close>

section \<open>The cache as the attention sees it\<close>

record 'c cache_api =
  ca_write :: "int \<Rightarrow> gtensor \<Rightarrow> gtensor \<Rightarrow> gptr \<Rightarrow> 'c \<Rightarrow> 'c res"
  ca_slice :: "int \<Rightarrow> 'c \<Rightarrow> (gtensor \<times> gtensor) res"

section \<open>Parameters\<close>

record attn_params =
  ap_block_id :: int
  q_w :: gptr
  k_w :: gptr
  v_w :: gptr
  q_b :: gptr
  k_b :: gptr
  v_b :: gptr
  out_w :: gptr
  ap_rope_freq_base :: u32
  apply_rope :: bool
  n_heads :: u32
  ap_n_kv :: u32
  ap_residual :: bool
  ap_norm_gamma :: gptr
  ap_norm_eps :: u32
  ap_positions :: gptr
  ap_mask :: gptr

record swiglu_params =
  w_gate :: gptr
  w_down :: gptr
  w_up :: gptr
  sw_residual :: bool
  sw_norm_gamma :: gptr
  sw_norm_eps :: u32

record unembedding_params =
  unemb_w :: gptr
  un_norm_gamma :: gptr
  un_norm_eps :: u32

datatype layer =
    TokenEmbedding gptr
  | TokenUnembedding unembedding_params
  | GroupedAttentionHead attn_params
  | SwigLU swiglu_params
  | Block "layer list"

section \<open>The forward functions\<close>

text \<open>\<open>emb_w\<close> indexed by the token ids; \<open>unemb_w\<close> times the hidden state.\<close>

definition embedding_forward :: "ggml \<Rightarrow> gptr \<Rightarrow> gtensor \<Rightarrow> gtensor res" where
  "embedding_forward G emb_w x = call_ggml G OpGetRows [emb_w, Some x]"

definition unembedding_forward :: "ggml \<Rightarrow> unembedding_params \<Rightarrow> gtensor \<Rightarrow> gtensor res" where
  "unembedding_forward G p x = call_ggml G OpMulMat [unemb_w p, Some x]"

definition swiglu_forward :: "ggml \<Rightarrow> swiglu_params \<Rightarrow> gtensor \<Rightarrow> gtensor res" where
  "swiglu_forward G p x =
     rbind (call_ggml G OpMulMat [w_gate p, Some x]) (\<lambda>gate.
     rbind (call_ggml G OpMulMat [w_up p, Some x]) (\<lambda>up.
     rbind (call_ggml G OpSilu [Some (set_name ''gate'' gate)]) (\<lambda>gate.
     rbind (call_ggml G OpMul [Some (set_name ''silu'' gate), Some (set_name ''up'' up)]) (\<lambda>swiglu.
     call_ggml G OpMulMat [w_down p, Some (set_name ''swiglu'' swiglu)]))))"

text \<open>A linear projection with an optional bias.\<close>

definition project :: "ggml \<Rightarrow> gptr \<Rightarrow> gptr \<Rightarrow> string \<Rightarrow> gtensor \<Rightarrow> gtensor res" where
  "project G w b nm x =
     rbind (call_ggml G OpMulMat [w, Some x]) (\<lambda>t.
     case b of None \<Rightarrow> Inr (set_name nm t)
     | Some _ \<Rightarrow> rbind (call_ggml G OpAdd [Some (set_name nm t), b]) (\<lambda>t. Inr (set_name nm t)))"

definition rope :: "ggml \<Rightarrow> attn_params \<Rightarrow> nat \<Rightarrow> gtensor \<Rightarrow> gtensor res" where
  "rope G p d_head t =
     (if apply_rope p
      then call_ggml G (OpRopeNeox d_head (ap_rope_freq_base p)) [Some t, ap_positions p]
      else Inr t)"

text \<open>\<open>int d_head = x->ne[0] / n_heads_\<close>: the sizes of a model are far below \<open>2 ^ 31\<close>.\<close>

definition attention_forward ::
  "ggml \<Rightarrow> 'c cache_api \<Rightarrow> attn_params \<Rightarrow> gtensor \<Rightarrow> 'c \<Rightarrow> (gtensor \<times> 'c) res" where
  "attention_forward G A p x c =
     rbind (project G (q_w p) (q_b p) ''Qcur'' x) (\<lambda>Q.
     rbind (project G (k_w p) (k_b p) ''Kcur'' x) (\<lambda>K.
     rbind (project G (v_w p) (v_b p) ''Vcur'' x) (\<lambda>V.
     if n_heads p = 0 then Inl DivisionByZero
     else let d_head = g_ne G x 0 div unat (n_heads p); len = g_ne G x 1 in
       rbind (call_ggml G (OpReshape3d d_head (unat (n_heads p)) len) [Some Q]) (\<lambda>Q_cur.
       rbind (call_ggml G (OpReshape3d d_head (unat (ap_n_kv p)) len) [Some K]) (\<lambda>K_cur.
       rbind (call_ggml G (OpReshape3d d_head (unat (ap_n_kv p)) len) [Some V]) (\<lambda>V_cur.
       rbind (rope G p d_head Q_cur) (\<lambda>Q_cur.
       rbind (rope G p d_head K_cur) (\<lambda>K_cur.
       rbind (call_ggml G (OpPermute 0 2 1 3) [Some (set_name ''Qcur_rope'' Q_cur)]) (\<lambda>Q_cur.
       rbind (call_ggml G OpCont [Some Q_cur]) (\<lambda>Q_cur.
       rbind (ca_write A (ap_block_id p) (set_name ''Kcur_rope'' K_cur) V_cur (ap_positions p) c) (\<lambda>c.
       rbind (ca_slice A (ap_block_id p) c) (\<lambda>(K_cur, V_cur).
       rbind (call_ggml G (OpFlashAttn d_head) [Some Q_cur, Some K_cur, Some V_cur, ap_mask p]) (\<lambda>KQV.
       rbind (call_ggml G (OpReshape2d (g_ne G x 0) (g_ne G x 1)) [Some (set_name ''KQV'' KQV)]) (\<lambda>KQV.
       rbind (call_ggml G OpMulMat [out_w p, Some KQV]) (\<lambda>attn_out.
       Inr (set_name ''attn-out'' attn_out, c))))))))))))))))"

section \<open>\<open>Layer::operator()\<close>\<close>

text \<open>
  Normalisation before the layer when it has a weight for it, the layer, and the input added to
  its result when the layer is residual.
\<close>

definition layer_call :: "ggml \<Rightarrow> bool \<Rightarrow> gptr \<Rightarrow> u32 \<Rightarrow> string
    \<Rightarrow> (gtensor \<Rightarrow> 'c \<Rightarrow> (gtensor \<times> 'c) res) \<Rightarrow> gtensor \<Rightarrow> 'c \<Rightarrow> (gtensor \<times> 'c) res" where
  "layer_call G residual gamma eps nm forward x c =
     rbind (case gamma of None \<Rightarrow> Inr x
       | Some _ \<Rightarrow>
           rbind (call_ggml G (OpRmsNorm eps) [Some x]) (\<lambda>rms.
           rbind (call_ggml G OpMul [Some (set_name (nm @ ''-rms'') rms), gamma]) (\<lambda>t.
           Inr (set_name (nm @ ''-norm'') t)))) (\<lambda>t.
     rbind (forward t c) (\<lambda>(out, c).
     let out = set_name (nm @ ''-out'') out in
     if residual
     then rbind (call_ggml G OpAdd [Some out, Some x]) (\<lambda>out.
       Inr (set_name (nm @ ''-residual'') out, c))
     else Inr (out, c)))"

text \<open>A layer that leaves the cache alone.\<close>

definition pure_forward :: "(gtensor \<Rightarrow> gtensor res) \<Rightarrow> gtensor \<Rightarrow> 'c \<Rightarrow> (gtensor \<times> 'c) res" where
  "pure_forward f x c = rbind (f x) (\<lambda>t. Inr (t, c))"

fun run_layer :: "ggml \<Rightarrow> 'c cache_api \<Rightarrow> layer \<Rightarrow> gtensor \<Rightarrow> 'c \<Rightarrow> (gtensor \<times> 'c) res"
  and run_layers :: "ggml \<Rightarrow> 'c cache_api \<Rightarrow> layer list \<Rightarrow> gtensor \<Rightarrow> 'c \<Rightarrow> (gtensor \<times> 'c) res" where
  "run_layer G A (TokenEmbedding emb_w) x c =
     layer_call G False None 0 ''TokenEmbedding'' (pure_forward (embedding_forward G emb_w)) x c"
| "run_layer G A (TokenUnembedding p) x c =
     layer_call G False (un_norm_gamma p) (un_norm_eps p) ''TokenUnembedding''
       (pure_forward (unembedding_forward G p)) x c"
| "run_layer G A (GroupedAttentionHead p) x c =
     layer_call G (ap_residual p) (ap_norm_gamma p) (ap_norm_eps p) ''GroupedAttention''
       (attention_forward G A p) x c"
| "run_layer G A (SwigLU p) x c =
     layer_call G (sw_residual p) (sw_norm_gamma p) (sw_norm_eps p) ''ffn''
       (pure_forward (swiglu_forward G p)) x c"
| "run_layer G A (Block ls) x c =
     layer_call G False None 0 ''Block'' (\<lambda>x c. run_layers G A ls x c) x c"
| "run_layers G A [] x c = Inr (x, c)"
| "run_layers G A (l # ls) x c =
     rbind (run_layer G A l x c) (\<lambda>(out, c). run_layers G A ls out c)"

lemma run_layers_append:
  "run_layers G A (ls @ ls') x c
    = rbind (run_layers G A ls x c) (\<lambda>(out, c). run_layers G A ls' out c)"
  by (induction ls arbitrary: x c) (auto simp: rbind_assoc split_def)

section \<open>Shapes\<close>

text \<open>The projections, the forward functions, then a whole layer.\<close>

lemma project_shape:
  assumes G: "ggml_shapes G" and x: "shaped G x d n 1"
    and w: "w = Some w'" "shaped G w' d m 1" and b: "\<And>t. b = Some t \<Longrightarrow> shaped G t m 1 1"
  shows "\<exists>t. project G w b nm x = Inr t \<and> has_shape G t m n 1 \<and> contiguous_op (t_op t)"
proof -
  from mul_mat_call [OF G w(2) x] obtain t where t: "call_ggml G OpMulMat [Some w', Some x] = Inr t"
    "t_op t = OpMulMat" "has_shape G t m n 1" by blast
  show ?thesis
  proof (cases b)
    case None
    with t w show ?thesis by (simp add: project_def contiguous_op_def)
  next
    case (Some t')
    from binary_call [OF G _ has_shape_named [OF t(3)] disjI2 [OF b [OF Some]], of OpAdd nm]
    obtain u where "call_ggml G OpAdd [Some (set_name nm t), Some t'] = Inr u"
      "t_op u = OpAdd" "has_shape G u m n 1" by blast
    with t w Some show ?thesis by (simp add: project_def contiguous_op_def)
  qed
qed

lemma swiglu_shape:
  assumes G: "ggml_shapes G" and x: "shaped G x d n 1"
    and "w_gate p = Some wg" "shaped G wg d f 1" and "w_up p = Some wu" "shaped G wu d f 1"
    and "w_down p = Some wd" "shaped G wd f d 1"
  shows "\<exists>t. swiglu_forward G p x = Inr t \<and> has_shape G t d n 1"
proof -
  from mul_mat_call [OF G assms(4) x] obtain g where
    g: "call_ggml G OpMulMat [Some wg, Some x] = Inr g" "has_shape G g f n 1" by blast
  from mul_mat_call [OF G assms(6) x] obtain u where
    u: "call_ggml G OpMulMat [Some wu, Some x] = Inr u" "has_shape G u f n 1" by blast
  from unary_call [OF G _ has_shape_named [OF g(2)], of OpSilu] obtain a where
    a: "call_ggml G OpSilu [Some (set_name ''gate'' g)] = Inr a" "has_shape G a f n 1" by blast
  from binary_call [OF G _ has_shape_named [OF a(2)] disjI1 [OF has_shape_named [OF u(2)]], of OpMul]
  obtain s where
    s: "call_ggml G OpMul [Some (set_name ''silu'' a), Some (set_name ''up'' u)] = Inr s"
    "has_shape G s f n 1" by blast
  from mul_mat_call [OF G assms(8) has_shape_named [OF s(2)]] obtain t where
    "call_ggml G OpMulMat [Some wd, Some (set_name ''swiglu'' s)] = Inr t" "has_shape G t d n 1" by blast
  with g u a s assms(3,5,7) show ?thesis by (simp add: swiglu_forward_def)
qed

lemma layer_call_shape:
  assumes G: "ggml_shapes G" and x: "shaped G x d n 1"
    and gamma: "\<And>g. gamma = Some g \<Longrightarrow> shaped G g d 1 1"
    and fwd: "\<And>t. shaped G t d n 1 \<Longrightarrow>
      \<exists>out c'. forward t c = Inr (out, c') \<and> has_shape G out m n 1 \<and> P c'"
    and "residual \<Longrightarrow> m = d"
  shows "\<exists>out c'. layer_call G residual gamma eps nm forward x c = Inr (out, c')
    \<and> shaped G out m n 1 \<and> P c'"
proof -
  let ?pre = "case gamma of None \<Rightarrow> Inr x
       | Some _ \<Rightarrow>
           rbind (call_ggml G (OpRmsNorm eps) [Some x]) (\<lambda>rms.
           rbind (call_ggml G OpMul [Some (set_name (nm @ ''-rms'') rms), gamma]) (\<lambda>t.
           Inr (set_name (nm @ ''-norm'') t)))"
  have "\<exists>t. ?pre = Inr t \<and> shaped G t d n 1"
  proof (cases gamma)
    case (Some g)
    from unary_call [OF G _ x] obtain rms where
      rms: "call_ggml G (OpRmsNorm eps) [Some x] = Inr rms" "has_shape G rms d n 1" by blast
    from binary_call [OF G _ has_shape_named [OF rms(2)] disjI2 [OF gamma [OF Some]], of OpMul]
    obtain t where "call_ggml G OpMul [Some (set_name (nm @ ''-rms'') rms), Some g] = Inr t"
      "has_shape G t d n 1" by blast
    with rms Some show ?thesis by simp
  qed (use x in simp)
  then obtain t where t: "?pre = Inr t" "shaped G t d n 1" by blast
  from fwd [OF t(2)] obtain out c' where
    f: "forward t c = Inr (out, c')" "has_shape G out m n 1" "P c'" by blast
  show ?thesis
  proof (cases residual)
    case True
    with f(2) assms(5) have "has_shape G out d n 1" by simp
    from binary_call [OF G _ has_shape_named [OF this] disjI1 [OF x], of OpAdd] obtain r where
      "call_ggml G OpAdd [Some (set_name (nm @ ''-out'') out), Some x] = Inr r"
      "has_shape G r d n 1" by blast
    with True f t assms(5) show ?thesis by (simp add: layer_call_def Let_def)
  next
    case False
    with f t show ?thesis by (simp add: layer_call_def Let_def)
  qed
qed

end
