(* ===== verification/Qwen.thy ===== *)
theory Qwen
  imports Layers Metadata Model_Types
begin

text \<open>
  The Qwen model (\<open>src/models/qwen/model.h\<close>, \<open>model.cpp\<close>): its input tensors, the data written
  to them before a computation (token ids, positions, causal mask), and the graph built from the
  weights of the file. \<open>get\<close> is \<open>get_tensor_\<close>, which gives a null pointer for a name the file lacks.
\<close>

section \<open>Inputs\<close>

record qwen =
  input_tensors :: "gtensor list"
  q_max_context_len :: u32

definition qwen_new :: qwen where
  "qwen_new = \<lparr>input_tensors = [], q_max_context_len = 0\<rparr>"

definition create_input_tensors :: "ggml \<Rightarrow> u32 \<Rightarrow> u32 \<Rightarrow> qwen \<Rightarrow> qwen res" where
  "create_input_tensors G n_tokens max_len q =
     rbind (call_ggml G (OpNew TYPE_I32 [unat n_tokens]) []) (\<lambda>input.
     rbind (call_ggml G (OpNew TYPE_I32 [unat n_tokens]) []) (\<lambda>positions.
     rbind (call_ggml G (OpNew TYPE_F16 [unat max_len, unat n_tokens]) []) (\<lambda>mask.
     Inr \<lparr>input_tensors = [set_name ''input'' input, set_name ''positions'' positions,
       set_name ''mask'' mask], q_max_context_len = max_len\<rparr>)))"

definition get_input_tensors :: "qwen \<Rightarrow> gtensor list" where
  "get_input_tensors q = input_tensors q"

text \<open>\<open>pos[i] = past_tokens + (int32_t)i\<close>, whose overflow is undefined.\<close>

fun positions_from :: "int \<Rightarrow> nat \<Rightarrow> nat \<Rightarrow> int list res" where
  "positions_from past 0 i = Inr []"
| "positions_from past (Suc n) i =
     (let p = past + wrap32 (int i) in
      if 2 ^ 31 \<le> p \<or> p < - (2 ^ 31) then Inl IntOverflow
      else rbind (positions_from past n (i + 1)) (\<lambda>ps. Inr (p # ps)))"

text \<open>
  One row of the mask per token: \<open>visible\<close> and \<open>hidden\<close> are the half-precision zero and minus
  infinity that \<open>ggml_fp32_to_fp16\<close> gives.
\<close>

definition mask_row :: "'h \<Rightarrow> 'h \<Rightarrow> u32 \<Rightarrow> int \<Rightarrow> 'h list" where
  "mask_row visible hidden len pos_q =
     map (\<lambda>k. if wrap32 (int k) \<le> pos_q then visible else hidden) [0..<unat len]"

text \<open>
  \<open>ggml_backend_tensor_set\<close> asserts that the data fits into the tensor, which was made for as many
  tokens as the graph.
\<close>

definition set_inputs :: "ggml \<Rightarrow> 'h \<Rightarrow> 'h \<Rightarrow> qwen \<Rightarrow> int list \<Rightarrow> int
    \<Rightarrow> (int list \<times> int list \<times> 'h list) res" where
  "set_inputs G visible hidden q tokens past =
     rbind (vec_at (input_tensors q) 0) (\<lambda>input.
     rbind (vec_at (input_tensors q) 1) (\<lambda>positions.
     rbind (vec_at (input_tensors q) 2) (\<lambda>mask.
     if g_ne G input 0 < length tokens then Inl AssertFailed
     else rbind (positions_from past (length tokens) 0) (\<lambda>pos.
       if g_ne G positions 0 < length pos then Inl AssertFailed
       else let rows = concat (map (mask_row visible hidden (q_max_context_len q)) pos) in
         if g_ne G mask 0 * g_ne G mask 1 < length rows then Inl AssertFailed
         else Inr (tokens, pos, rows)))))"

section \<open>The graph\<close>

definition create_embedding_layer :: "(string \<Rightarrow> gptr) \<Rightarrow> string \<Rightarrow> layer" where
  "create_embedding_layer get nm = TokenEmbedding (get (nm @ ''.weight''))"

definition create_output_layer :: "(string \<Rightarrow> gptr) \<Rightarrow> model_config_t \<Rightarrow> string \<Rightarrow> layer" where
  "create_output_layer get cfg nm = TokenUnembedding
     \<lparr>unemb_w = get (nm @ ''.weight''), un_norm_gamma = get (nm @ ''_norm.weight''),
      un_norm_eps = rms_eps cfg\<rparr>"

definition create_attention_layer ::
  "(string \<Rightarrow> gptr) \<Rightarrow> model_config_t \<Rightarrow> gtensor \<Rightarrow> gtensor \<Rightarrow> string \<Rightarrow> nat \<Rightarrow> layer" where
  "create_attention_layer get cfg positions msk nm block_id = GroupedAttentionHead
     \<lparr>ap_block_id = int block_id,
      q_w = get (nm @ ''_q.weight''), k_w = get (nm @ ''_k.weight''), v_w = get (nm @ ''_v.weight''),
      q_b = get (nm @ ''_q.bias''), k_b = get (nm @ ''_k.bias''), v_b = get (nm @ ''_v.bias''),
      out_w = get (nm @ ''_output.weight''), ap_rope_freq_base = rope_freq_base cfg,
      apply_rope = True, n_heads = nheads cfg, ap_n_kv = nkv cfg, ap_residual = True,
      ap_norm_gamma = get (nm @ ''_norm.weight''), ap_norm_eps = rms_eps cfg,
      ap_positions = Some positions, ap_mask = Some msk\<rparr>"

definition create_ffn_layer :: "(string \<Rightarrow> gptr) \<Rightarrow> model_config_t \<Rightarrow> string \<Rightarrow> layer" where
  "create_ffn_layer get cfg nm = SwigLU
     \<lparr>w_gate = get (nm @ ''_gate.weight''), w_down = get (nm @ ''_down.weight''),
      w_up = get (nm @ ''_up.weight''), sw_residual = True,
      sw_norm_gamma = get (nm @ ''_norm.weight''), sw_norm_eps = rms_eps cfg\<rparr>"

definition blk_name :: "nat \<Rightarrow> string" where
  "blk_name i = ''blk.'' @ nat_dec i"

text \<open>The loop over the blocks, with \<open>n\<close> left and \<open>i\<close> done.\<close>

fun blocks_loop :: "ggml \<Rightarrow> 'c cache_api \<Rightarrow> (string \<Rightarrow> gptr) \<Rightarrow> model_config_t \<Rightarrow> gtensor \<Rightarrow> gtensor
    \<Rightarrow> nat \<Rightarrow> nat \<Rightarrow> gtensor \<Rightarrow> 'c \<Rightarrow> (gtensor \<times> 'c) res" where
  "blocks_loop G A get cfg positions msk 0 i cur c = Inr (cur, c)"
| "blocks_loop G A get cfg positions msk (Suc n) i cur c =
     rbind (run_layer G A (create_attention_layer get cfg positions msk (blk_name i @ ''.attn'') i)
       cur c) (\<lambda>(cur, c).
     rbind (run_layer G A (create_ffn_layer get cfg (blk_name i @ ''.ffn'')) cur c) (\<lambda>(cur, c).
     blocks_loop G A get cfg positions msk n (i + 1) cur c))"

definition build_graph :: "ggml \<Rightarrow> 'c cache_api \<Rightarrow> (string \<Rightarrow> gptr) \<Rightarrow> model_config_t \<Rightarrow> qwen \<Rightarrow> 'c
    \<Rightarrow> (gtensor \<times> 'c) res" where
  "build_graph G A get cfg q c =
     rbind (vec_at (input_tensors q) 0) (\<lambda>input.
     rbind (vec_at (input_tensors q) 1) (\<lambda>positions.
     rbind (vec_at (input_tensors q) 2) (\<lambda>mask.
     rbind (run_layer G A (create_embedding_layer get ''token_embd'') input c) (\<lambda>(cur, c).
     rbind (blocks_loop G A get cfg positions mask (unat (n_blocks cfg)) 0 cur c) (\<lambda>(cur, c).
     run_layer G A (create_output_layer get cfg ''output'') cur c)))))"

end
