(* ===== verification/Models.thy ===== *)
theory Models
  imports Loader_Facts Qwen
begin

text \<open>
  The loaded model: registration of its tensors (\<open>src/models/model_impl.cpp\<close>,
  \<open>src/engine/tensors.cpp\<close>) and the facade with its single instance
  (\<open>src/models/models.cpp\<close>), in the builds with and without CUDA. What the operating system answers
  is a record, the tensors ggml can create a predicate.
\<close>

section \<open>Backends\<close>

text \<open>
  The build: whether \<open>CUDA_ENABLED\<close> is defined, and whether ggml can allocate the buffer for all
  tensors on the device.
\<close>

record build =
  bd_cuda :: bool
  bd_alloc :: bool

datatype device = DEVICE_TYPE_CPU | DEVICE_TYPE_GPU

definition get_backend_type :: "build \<Rightarrow> device" where
  "get_backend_type B = (if bd_cuda B then DEVICE_TYPE_GPU else DEVICE_TYPE_CPU)"

section \<open>Tensors of the model\<close>

text \<open>
  The data of a tensor: a pointer into the mapped file, or the bytes copied from there to the device.
  That the bytes of a tensor lie inside the file is checked by neither build and is not modelled.
\<close>

datatype tensor_data = InFile u64 | Copied u64

record loaded_tensor =
  lt_tensor :: gtensor
  lt_type :: u32
  lt_data :: "tensor_data option"

definition create_tensor :: "(tensor_info_t \<Rightarrow> bool) \<Rightarrow> tensor_info_t \<Rightarrow> loaded_tensor res" where
  "create_tensor ok info =
     (if ok info
      then Inr \<lparr>lt_tensor = Tensor (OpLoaded (tn_name info) (map unat (dimensions info))) [] (tn_name info),
        lt_type = type_id info, lt_data = None\<rparr>
      else Inl AssertFailed)"

record model_impl =
  mdl_loader :: gguf_loader
  tensor_map :: "(string \<times> loaded_tensor) list"
  mdl_backends :: "device list"
  tensor_buffer :: bool

text \<open>
  The constructor asks the loader for the number of tensors; the backend of the device goes in front
  of that of the CPU.
\<close>

definition model_impl_new :: "build \<Rightarrow> gguf_loader option \<Rightarrow> model_impl res" where
  "model_impl_new B l = (case l of None \<Rightarrow> Inl NullDeref
     | Some g \<Rightarrow> Inr \<lparr>mdl_loader = g, tensor_map = [],
         mdl_backends = (if get_backend_type B = DEVICE_TYPE_GPU then [DEVICE_TYPE_GPU] else [])
           @ [DEVICE_TYPE_CPU], tensor_buffer = False\<rparr>)"

definition get_backend :: "model_impl \<Rightarrow> device res" where
  "get_backend mi = vec_at (mdl_backends mi) 0"

definition backends :: "model_impl \<Rightarrow> device list" where
  "backends mi = mdl_backends mi"

definition get_tensor :: "model_impl \<Rightarrow> string \<Rightarrow> loaded_tensor option" where
  "get_tensor mi nm = map_of (tensor_map mi) nm"

text \<open>The two loops of \<open>load_tensors\<close>: create every tensor, then set its data pointer.\<close>

fun create_tensors :: "(tensor_info_t \<Rightarrow> bool) \<Rightarrow> tensor_info_t list \<Rightarrow> model_impl \<Rightarrow> model_impl res" where
  "create_tensors ok [] mi = Inr mi"
| "create_tensors ok (i # is) mi =
     rbind (create_tensor ok i) (\<lambda>t.
     create_tensors ok is (mi\<lparr>tensor_map := um_assign (tn_name i) t (tensor_map mi)\<rparr>))"

definition set_data :: "build \<Rightarrow> gguf_loader \<Rightarrow> tensor_info_t \<Rightarrow> loaded_tensor \<Rightarrow> loaded_tensor" where
  "set_data B g i t =
     (let ptr = loader_tensor_ptr g (data_offset i) in
      t\<lparr>lt_data := Some (if get_backend_type B \<noteq> DEVICE_TYPE_CPU then Copied ptr else InFile ptr)\<rparr>)"

fun bind_tensors :: "build \<Rightarrow> tensor_info_t list \<Rightarrow> model_impl \<Rightarrow> model_impl res" where
  "bind_tensors B [] mi = Inr mi"
| "bind_tensors B (i # is) mi =
     (let t = get_tensor mi (tn_name i) in
      if get_backend_type B \<noteq> DEVICE_TYPE_CPU \<and> \<not> tensor_buffer mi then Inl AssertFailed
      else case t of
        None \<Rightarrow> Inl NullDeref
      | Some t \<Rightarrow> bind_tensors B is (mi\<lparr>tensor_map :=
          um_assign (tn_name i) (set_data B (mdl_loader mi) i t) (tensor_map mi)\<rparr>))"

definition load_tensors :: "build \<Rightarrow> (u32 \<Rightarrow> string) \<Rightarrow> (tensor_info_t \<Rightarrow> bool) \<Rightarrow> model_impl
    \<Rightarrow> model_impl res" where
  "load_tensors B type_nm ok mi =
     rbind (loader_tensor_info type_nm (mdl_loader mi)) (\<lambda>infos.
     rbind (create_tensors ok infos mi) (\<lambda>mi.
     rbind (loader_tensor_info type_nm (mdl_loader mi)) (\<lambda>infos.
     bind_tensors B infos (if get_backend_type B = DEVICE_TYPE_GPU
       then mi\<lparr>tensor_buffer := bd_alloc B\<rparr> else mi))))"

text \<open>What \<open>get_tensor_\<close> gives the graph.\<close>

definition graph_tensor :: "model_impl \<Rightarrow> string \<Rightarrow> gptr" where
  "graph_tensor mi nm = map_option lt_tensor (get_tensor mi nm)"

section \<open>The facade\<close>

text \<open>
  \<open>open\<close> and \<open>fstat\<close> succeed or not; the bytes of the file; where \<open>mmap\<close> put them, if it did;
  the stack behind the buffer of \<open>is_gguf_file\<close>.
\<close>

record file_env =
  fe_open :: bool
  fe_stat :: bool
  fe_bytes :: string
  fe_mapped :: "u64 option"
  fe_stack :: string

definition model_load :: "build \<Rightarrow> (u32 \<Rightarrow> string) \<Rightarrow> (tensor_info_t \<Rightarrow> bool) \<Rightarrow> file_env \<Rightarrow> model_impl option
    \<Rightarrow> (bool \<times> model_impl option) res" where
  "model_load B type_nm ok env inst =
     (if \<not> fe_open env \<or> \<not> fe_stat env then Inr (False, inst)
      else if is_gguf_file (fe_stack env) (fe_bytes env) then
        rbind (load_gguf_file (fe_mapped env) (fe_bytes env)) (\<lambda>f.
        rbind (model_impl_new B f) (\<lambda>mi.
        rbind (load_tensors B type_nm ok mi) (\<lambda>mi. Inr (True, Some mi))))
      else Inr (False, inst))"

text \<open>\<open>unload\<close>: the line it prints when there is a model, and the instance.\<close>

definition model_unload :: "model_impl option \<Rightarrow> string list \<times> model_impl option" where
  "model_unload inst = (case inst of None \<Rightarrow> ([], None) | Some mi \<Rightarrow> ([''Model unloaded''], None))"

definition model_instance :: "model_impl option \<Rightarrow> model_impl res" where
  "model_instance inst = (case inst of None \<Rightarrow> Inl AssertFailed | Some mi \<Rightarrow> Inr mi)"

definition model_info :: "float_format \<Rightarrow> model_impl \<Rightarrow> model_info_t res" where
  "model_info ff mi = loader_info ff (mdl_loader mi)"

definition model_tokenizer_info :: "float_format \<Rightarrow> model_impl \<Rightarrow> tokenizer_info_t res" where
  "model_tokenizer_info ff mi = loader_tokenizer_info ff (mdl_loader mi)"

definition model_tensor_info :: "(u32 \<Rightarrow> string) \<Rightarrow> model_impl \<Rightarrow> tensor_info_t list res" where
  "model_tensor_info type_nm mi = loader_tensor_info type_nm (mdl_loader mi)"

definition model_config :: "model_impl \<Rightarrow> model_config_t res" where
  "model_config mi = loader_model_config (mdl_loader mi)"

text \<open>
  \<open>log_filter\<close>, which \<open>load\<close> installs in ggml: messages from the level of information on are written
  to the error stream. Levels are those of ggml: none, debug, info, warn, error, cont.
\<close>

definition GGML_LOG_LEVEL_INFO :: nat where
  "GGML_LOG_LEVEL_INFO = 2"

definition log_filter :: "nat \<Rightarrow> string \<Rightarrow> string \<Rightarrow> string" where
  "log_filter level msg err = (if GGML_LOG_LEVEL_INFO \<le> level then err @ msg else err)"

section \<open>Facts\<close>

text \<open>The tensors of a loader are held under their own names, each once.\<close>

definition tensors_named :: "string \<Rightarrow> (string \<times> tensor_entry) list \<Rightarrow> bool" where
  "tensors_named m ts \<longleftrightarrow> distinct (map fst ts) \<and>
     (\<forall>(n, t) \<in> set ts. sv_to_string m (te_name t) = Inr n)"

lemma tensors_named_insert:
  "tensors_named m ts \<Longrightarrow> sv_to_string m (te_name t) = Inr n \<Longrightarrow> tensors_named m (um_insert n t ts)"
  by (auto simp: tensors_named_def um_insert_def map_of_eq_None_iff)

lemma gguf_tensors_named:
  "gguf_tensors_info m n i p acc = Inr (ts, q) \<Longrightarrow> tensors_named m acc \<Longrightarrow> tensors_named m ts"
  by (induction m n i p acc rule: gguf_tensors_info.induct)
    (auto simp: rbind_eq_Inr split: if_splits intro: tensors_named_insert)

lemma load_named:
  assumes "load_gguf_file mapped m = Inr (Some g)"
  shows "tensors_named (gl_map g) (gl_tensors g)"
proof -
  have "tensors_named m []" by (simp add: tensors_named_def)
  with assms show ?thesis
    by (auto simp: load_gguf_file_def rbind_eq_Inr split: option.splits dest: gguf_tensors_named)
qed

definition record_of :: "(u32 \<Rightarrow> string) \<Rightarrow> string \<times> tensor_entry \<Rightarrow> tensor_info_t" where
  "record_of type_nm = (\<lambda>(n, t). \<lparr>tn_name = n, type_name = type_nm (te_dtype t),
     type_id = te_dtype t, n_dim = te_n_dim t, data_offset = te_offset t, dimensions = te_dims t\<rparr>)"

lemma tensor_records_named:
  assumes "\<forall>(n, t) \<in> set ts. sv_to_string m (te_name t) = Inr n"
  shows "tensor_records type_nm m ts = Inr (map (record_of type_nm) ts)"
  using assms by (induction ts) (auto simp: tensor_record_def record_of_def)

lemma create_tensors_map:
  assumes "list_all ok infos" and "distinct (map tn_name infos)"
  shows "\<exists>mi'. create_tensors ok infos mi = Inr mi' \<and> mdl_loader mi' = mdl_loader mi \<and>
    tensor_buffer mi' = tensor_buffer mi \<and>
    (\<forall>n. get_tensor mi' n = (case map_of (map (\<lambda>i. (tn_name i, i)) infos) n of
       Some i \<Rightarrow> Some (projr (create_tensor ok i)) | None \<Rightarrow> get_tensor mi n))"
  using assms
proof (induction infos arbitrary: mi)
  case (Cons i infos)
  let ?mi = "mi\<lparr>tensor_map := um_assign (tn_name i) (projr (create_tensor ok i)) (tensor_map mi)\<rparr>"
  from Cons.IH [of ?mi] Cons.prems obtain mi' where
    mi': "create_tensors ok infos ?mi = Inr mi'" "mdl_loader mi' = mdl_loader mi"
    "tensor_buffer mi' = tensor_buffer mi"
    "\<And>n. get_tensor mi' n = (case map_of (map (\<lambda>i. (tn_name i, i)) infos) n of
       Some i \<Rightarrow> Some (projr (create_tensor ok i)) | None \<Rightarrow> get_tensor ?mi n)" by auto
  have "map_of (map (\<lambda>i. (tn_name i, i)) infos) (tn_name i) = None"
    using Cons.prems(2) by (auto simp: map_of_eq_None_iff image_iff)
  moreover from Cons.prems(1) have "create_tensor ok i = Inr (projr (create_tensor ok i))"
    by (simp add: create_tensor_def)
  ultimately show ?case using mi'
    by (intro exI [of _ mi'])
      (auto simp: get_tensor_def um_laws rbind_eq_Inr split: option.splits)
qed simp

lemma bind_tensors_map:
  assumes "\<forall>i \<in> set infos. get_tensor mi (tn_name i) \<noteq> None" and "distinct (map tn_name infos)"
    and "bd_cuda B \<longrightarrow> tensor_buffer mi"
  shows "\<exists>mi'. bind_tensors B infos mi = Inr mi' \<and> mdl_loader mi' = mdl_loader mi \<and>
    (\<forall>n. get_tensor mi' n = (case map_of (map (\<lambda>i. (tn_name i, i)) infos) n of
       Some i \<Rightarrow> map_option (set_data B (mdl_loader mi) i) (get_tensor mi n)
     | None \<Rightarrow> get_tensor mi n))"
  using assms
proof (induction infos arbitrary: mi)
  case (Cons i infos)
  from Cons.prems(1) obtain t where t: "get_tensor mi (tn_name i) = Some t" by auto
  let ?mi = "mi\<lparr>tensor_map := um_assign (tn_name i) (set_data B (mdl_loader mi) i t) (tensor_map mi)\<rparr>"
  have g: "get_tensor ?mi n = (if n = tn_name i then Some (set_data B (mdl_loader mi) i t)
      else get_tensor mi n)" for n
    by (simp add: get_tensor_def um_laws)
  from Cons.prems have "\<forall>i \<in> set infos. get_tensor ?mi (tn_name i) \<noteq> None" by (auto simp: g)
  from Cons.IH [OF this] Cons.prems(2,3) obtain mi' where
    mi': "bind_tensors B infos ?mi = Inr mi'" "mdl_loader mi' = mdl_loader mi"
    "\<And>n. get_tensor mi' n = (case map_of (map (\<lambda>i. (tn_name i, i)) infos) n of
       Some i \<Rightarrow> map_option (set_data B (mdl_loader ?mi) i) (get_tensor ?mi n)
     | None \<Rightarrow> get_tensor ?mi n)" by auto
  have "map_of (map (\<lambda>i. (tn_name i, i)) infos) (tn_name i) = None"
    using Cons.prems(2) by (auto simp: map_of_eq_None_iff image_iff)
  with mi' t Cons.prems(3) show ?case
    by (intro exI [of _ mi']) (auto simp: g get_backend_type_def split: option.splits)
qed simp

lemma records_lookup:
  "map_of (map (\<lambda>i. (tn_name i, i)) (map (record_of type_nm) ts)) n
    = map_option (\<lambda>t. record_of type_nm (n, t)) (map_of ts n)"
  by (induction ts) (auto simp: record_of_def)

text \<open>After \<open>load_tensors\<close> every tensor of the loader has its data pointer.\<close>

lemma load_tensors_map:
  assumes named: "tensors_named (gl_map g) (gl_tensors g)"
    and ok: "list_all ok (map (record_of type_nm) (gl_tensors g))" and alloc: "bd_cuda B \<longrightarrow> bd_alloc B"
    and new: "model_impl_new B (Some g) = Inr m0"
  shows "\<exists>mi. load_tensors B type_nm ok m0 = Inr mi \<and> mdl_loader mi = g \<and>
    (\<forall>n. get_tensor mi n = map_option (\<lambda>t.
       set_data B g (record_of type_nm (n, t)) (projr (create_tensor ok (record_of type_nm (n, t)))))
         (map_of (gl_tensors g) n))"
proof -
  let ?is = "map (record_of type_nm) (gl_tensors g)"
  have m0: "mdl_loader m0 = g" "tensor_map m0 = []" using new by (auto simp: model_impl_new_def)
  have infos: "loader_tensor_info type_nm g = Inr ?is"
    using named by (simp add: loader_tensor_info_def tensors_named_def tensor_records_named)
  have names: "map tn_name ?is = map fst (gl_tensors g)"
    by (simp add: record_of_def split_def)
  have dist: "distinct (map tn_name ?is)" using named unfolding names by (simp add: tensors_named_def)
  note look = records_lookup [of type_nm "gl_tensors g"]
  from create_tensors_map [OF ok dist, of m0] m0(1) obtain m1 where
    m1: "create_tensors ok ?is m0 = Inr m1" "mdl_loader m1 = g"
    "\<And>n. get_tensor m1 n = (case map_of (map (\<lambda>i. (tn_name i, i)) ?is) n of
       Some i \<Rightarrow> Some (projr (create_tensor ok i)) | None \<Rightarrow> get_tensor m0 n)" by auto
  let ?m1 = "if get_backend_type B = DEVICE_TYPE_GPU then m1\<lparr>tensor_buffer := bd_alloc B\<rparr> else m1"
  have get: "get_tensor ?m1 n = get_tensor m1 n" "mdl_loader ?m1 = g" for n
    using m1(2) by (simp_all add: get_tensor_def)
  have buf: "bd_cuda B \<longrightarrow> tensor_buffer ?m1" using alloc by (simp add: get_backend_type_def)
  have "\<forall>i \<in> set ?is. get_tensor ?m1 (tn_name i) \<noteq> None"
  proof
    fix i assume "i \<in> set ?is"
    with dist have "map_of (map (\<lambda>i. (tn_name i, i)) ?is) (tn_name i) = Some i"
      by (intro map_of_is_SomeI) (auto simp: comp_def)
    then show "get_tensor ?m1 (tn_name i) \<noteq> None" unfolding get(1) by (simp add: m1(3))
  qed
  from bind_tensors_map [OF this dist buf, unfolded get] obtain m2 where
    m2: "bind_tensors B ?is ?m1 = Inr m2" "mdl_loader m2 = g"
    "\<And>n. get_tensor m2 n = (case map_of (map (\<lambda>i. (tn_name i, i)) ?is) n of
       Some i \<Rightarrow> map_option (set_data B g i) (get_tensor m1 n)
     | None \<Rightarrow> get_tensor m1 n)" by blast
  have "get_tensor m0 n = None" for n by (simp add: get_tensor_def m0(2))
  then have "get_tensor m2 n = map_option (\<lambda>t.
       set_data B g (record_of type_nm (n, t)) (projr (create_tensor ok (record_of type_nm (n, t)))))
         (map_of (gl_tensors g) n)" for n
    by (cases "map_of (gl_tensors g) n") (simp_all add: m2(3) m1(3) look del: map_map)
  with m1(1,2) m2(1,2) infos m0(1) show ?thesis by (simp add: load_tensors_def)
qed

text \<open>
  Loading a well-formed file: the model holds the metadata of the file and, for each of its tensors, a
  tensor with the sizes and the type listed and its data pointer.
\<close>

definition file_tensor :: "build \<Rightarrow> u64 \<Rightarrow> string \<Rightarrow> tensor_spec \<Rightarrow> loaded_tensor" where
  "file_tensor B start n t = \<lparr>lt_tensor = Tensor (OpLoaded n (map unat (ts_dims t))) [] n,
     lt_type = ts_dtype t, lt_data = Some (if bd_cuda B then Copied (start + ts_offset t)
       else InFile (start + ts_offset t))\<rparr>"

lemma model_load_wf:
  assumes bytes: "fe_bytes env = enc_gguf f @ data" "length (fe_bytes env) < 2 ^ 31"
    and os: "fe_open env" "fe_stat env" "fe_mapped env = Some base" "length (fe_stack env) = 4"
    and ok: "\<forall>(k, a) \<in> set (gf_kvs f). ok_value a" "file_alignment (gf_kvs f) = Inr al"
    and ggml: "\<forall>i. new_ok i" "bd_cuda B \<longrightarrow> bd_alloc B"
  obtains mi where "model_load B type_nm new_ok env inst = Inr (True, Some mi)"
    "\<forall>k. loaded_value (mdl_loader mi) k = Inr (map_of (gf_kvs f) k)"
    "\<forall>n. get_tensor mi n = map_option
      (file_tensor B (align_up al (base + word_of_nat (length (enc_gguf f)))) n)
      (map_of (map (\<lambda>t. (ts_name t, t)) (gf_tensors f)) n)"
proof -
  from load_wf [OF bytes ok, of base] obtain g where
    g: "load_gguf_file (Some base) (fe_bytes env) = Inr (Some g)"
    "\<forall>k. loaded_value g k = Inr (map_of (gf_kvs f) k)"
    "\<And>n. loaded_tensor g n = Inr (map_of (map (\<lambda>t. (ts_name t, t)) (gf_tensors f)) n)"
    "gl_tensor_base g = align_up al (base + word_of_nat (length (enc_gguf f)))" by blast
  have "list_all new_ok (map (record_of type_nm) (gl_tensors g))" using ggml by (simp add: list_all_iff)
  moreover obtain m0 where m0: "model_impl_new B (Some g) = Inr m0" by (simp add: model_impl_new_def)
  ultimately obtain mi where
    mi: "load_tensors B type_nm new_ok m0 = Inr mi" "mdl_loader mi = g"
    "\<And>n. get_tensor mi n = map_option (\<lambda>t. set_data B g (record_of type_nm (n, t))
       (projr (create_tensor new_ok (record_of type_nm (n, t))))) (map_of (gl_tensors g) n)"
    using load_tensors_map [OF load_named [OF g(1)] _ ggml(2)] by blast
  have "is_gguf_file (fe_stack env) (fe_bytes env)"
    by (simp add: is_gguf_file_def bytes(1) os(4) enc_gguf_def enc_header_def)
  with g(1) mi(1) os m0 have load: "model_load B type_nm new_ok env inst = Inr (True, Some mi)"
    by (simp add: model_load_def)
  have "get_tensor mi n = map_option (file_tensor B (gl_tensor_base g) n)
      (map_of (map (\<lambda>t. (ts_name t, t)) (gf_tensors f)) n)" for n
    using g(3) [of n] ggml
    by (auto simp: mi(3) loaded_tensor_def abs_tensor_def loader_tensor_ptr_def rbind_eq_Inr set_data_def
        record_of_def create_tensor_def file_tensor_def get_backend_type_def Let_def split: option.splits if_splits dest!: sym [of "Some _"])
  with that [OF load] g(2,4) mi(2) show thesis by simp
qed

end
