(* ===== verification/Server_Run.thy ===== *)
theory Server_Run
  imports Server_Listener Server_Handlers Models
begin

text \<open>
  The server as a whole (\<open>Server::run\<close> in \<open>tools/serve/server.cpp\<close>): the threads that run the
  handlers of listener and sessions, how they end, and what becomes of an exception. Asio is outside
  the repository; what is used of it: \<open>run\<close> executes completion handlers until the context is stopped
  or has no work left, lets an exception of a handler pass, and any thread may execute any handler.
\<close>

section \<open>State\<close>

text \<open>
  Thread 0 is the one that called \<open>Server::run\<close>. A thread is in the loop of \<open>ioc.run\<close>, inside the handler
  of a completed read, or has returned from the loop.
\<close>

datatype loop_thread = Looping | is_Handling: Handling read_result | Left

text \<open>
  \<open>Graceful\<close>: the threads were joined; \<open>Fatal e\<close>: the exception was caught by \<open>Server::run\<close>, which
  prints its message; \<open>Terminated\<close>: \<open>std::terminate\<close> was called.
\<close>

datatype ending = Graceful | Fatal fault | Terminated

text \<open>\<open>sr_live\<close>: sessions that an outstanding operation or a registered callback keeps alive.\<close>

record server_run =
  sr_listener :: tcp_listener
  sr_threads :: "loop_thread list"
  sr_live :: nat
  sr_stopped :: bool
  sr_ending :: "ending option"

section \<open>Start and end\<close>

text \<open>
  \<open>make_address\<close> throws for a text that is no address; \<open>reserve(num_threads_ - 1)\<close> throws when the
  difference is negative, as it is then converted to a huge size. Both are caught.
\<close>

definition server_start :: "bool \<Rightarrow> open_results \<Rightarrow> int \<Rightarrow> server_run" where
  "server_start address_ok r num_threads =
     (let s = \<lparr>sr_listener = listener_run (listener_new r), sr_threads = [], sr_live = 0,
        sr_stopped = False, sr_ending = None\<rparr> in
      if \<not> address_ok then s\<lparr>sr_ending := Some (Fatal (RuntimeError ''make_address''))\<rparr>
      else if num_threads - 1 < 0 then s\<lparr>sr_ending := Some (Fatal (RuntimeError ''vector::reserve''))\<rparr>
      else s\<lparr>sr_threads := replicate (Suc (nat (num_threads - 1))) Looping\<rparr>)"

text \<open>
  \<open>tools/serve/main.cpp\<close>: the lines printed and the server started, on all addresses at port 8080 with
  four threads. The result of \<open>load\<close> is not looked at. When the server ends, the status is 0, however
  it ended, unless the process was terminated; \<open>Fatal\<close> goes to the error stream.
\<close>

definition serve_main :: "float_format \<Rightarrow> (string \<Rightarrow> (bool \<times> model_impl option) res)
    \<Rightarrow> (string \<Rightarrow> bool) \<Rightarrow> open_results \<Rightarrow> string list \<Rightarrow> (string list \<times> server_run) res" where
  "serve_main ff load address_ok r args =
     (let ip = ''0.0.0.0''; num_threads = 4;
          model_path = (if 1 < length args then args ! 1 else []) in
      rbind (load model_path) (\<lambda>(is_loaded, inst).
      rbind (model_instance inst) (\<lambda>model.
      rbind (model_info ff model) (\<lambda>info.
      let num_threads = (if num_threads < 1 then 1 else num_threads) in
      Inr ([''Loading model from file: '' @ model_path, ''Model Loaded: '' @ mi_name info],
        server_start (address_ok ip) r num_threads)))))"

definition serve_exit :: "model_impl option \<Rightarrow> ending \<Rightarrow> (nat \<times> string list) option" where
  "serve_exit inst e = (case e of
      Graceful \<Rightarrow> Some (0, [''Server Stopped with graceful shutdown...''] @ fst (model_unload inst))
    | Fatal x \<Rightarrow> Some (0, fst (model_unload inst))
    | Terminated \<Rightarrow> None)"

text \<open>
  An exception leaves a handler on thread \<open>i\<close>: on a spawned thread it calls \<open>std::terminate\<close>; on the
  main thread it destroys the vector of threads on its way to the \<open>catch\<close>, and destroying a thread
  that was not joined calls \<open>std::terminate\<close>, so that it is caught only when no thread was spawned.
\<close>

definition escape :: "nat \<Rightarrow> fault \<Rightarrow> server_run \<Rightarrow> server_run" where
  "escape i e s = s\<lparr>sr_ending := Some (if i = 0 \<and> length (sr_threads s) = 1 then Fatal e else Terminated)\<rparr>"

text \<open>The context has work as long as an accept, the wait for signals or a session is outstanding.\<close>

definition io_work :: "server_run \<Rightarrow> bool" where
  "io_work s \<longleftrightarrow> l_accepting (sr_listener s) \<or> l_waiting (sr_listener s) \<or> 0 < sr_live s"

text \<open>A session after a read: the last handler of one that waits for nothing destroys it.\<close>

definition live_after :: "pending \<Rightarrow> nat \<Rightarrow> nat" where
  "live_after p n = (if p = Nothing \<or> p = Closed then n - 1 else n)"

text \<open>A handler can run on thread \<open>i\<close>.\<close>

definition can_handle :: "server_run \<Rightarrow> nat \<Rightarrow> bool" where
  "can_handle s i \<longleftrightarrow> sr_ending s = None \<and> \<not> sr_stopped s \<and> i < length (sr_threads s) \<and>
     sr_threads s ! i = Looping"

section \<open>Handlers\<close>

text \<open>
  What \<open>Chat::invoke\<close> throws for a chat of the server, if anything; the worker of a running server
  is never stopped.
\<close>

definition chat_fault :: "pcre \<Rightarrow> 't minja \<Rightarrow> tokenizer_info_t res \<Rightarrow> string \<Rightarrow> chat_message list
    \<Rightarrow> 'f chat_params \<Rightarrow> fault option" where
  "chat_fault P M info chat_id messages params =
     (case chat_invoke P M info chat_id False messages params 0
         (worker_init :: ('f inference_task, string) worker) of
        Inl e \<Rightarrow> Some e | Inr w \<Rightarrow> None)"

fun actions_fault :: "(string \<Rightarrow> chat_message list \<Rightarrow> 'f chat_params \<Rightarrow> fault option) \<Rightarrow> 'f action list
    \<Rightarrow> fault option" where
  "actions_fault X [] = None"
| "actions_fault X (InvokeChat chat_id messages params # acts) =
     (case X chat_id messages params of Some e \<Rightarrow> Some e | None \<Rightarrow> actions_fault X acts)"
| "actions_fault X (_ # acts) = actions_fault X acts"

text \<open>
  The handler of a read with the chat it may submit: what the session then waits for, or the
  exception that leaves the handler.
\<close>

definition read_handled :: "'f serve_env \<Rightarrow> (string \<Rightarrow> chat_message list \<Rightarrow> 'f chat_params \<Rightarrow> fault option)
    \<Rightarrow> read_result \<Rightarrow> pending res" where
  "read_handled E X r = rbind (read_completed E r) (\<lambda>(p, acts).
     case actions_fault X acts of None \<Rightarrow> Inr p | Some e \<Rightarrow> Inl e)"

section \<open>Steps\<close>

text \<open>Threads inside the handler of a read; a session has at most one handler at a time.\<close>

definition handling :: "server_run \<Rightarrow> nat" where
  "handling s = sum_list (map (\<lambda>t. if is_Handling t then 1 else 0) (sr_threads s))"

definition put_thread :: "nat \<Rightarrow> loop_thread \<Rightarrow> server_run \<Rightarrow> server_run" where
  "put_thread i t s = s\<lparr>sr_threads := (sr_threads s)[i := t]\<rparr>"

definition thread_is :: "server_run \<Rightarrow> nat \<Rightarrow> loop_thread \<Rightarrow> bool" where
  "thread_is s i t \<longleftrightarrow> sr_ending s = None \<and> i < length (sr_threads s) \<and> sr_threads s ! i = t"

text \<open>
  The completions of the listener; the start of the handler of a read, and its end, with an exception
  or without one; the end of a session's last operation; the stop of a context without work; a thread
  whose \<open>run\<close> returns; the join of the main thread. A stopped context starts no handler, but those
  inside one go on.
\<close>

inductive server_step :: "'f serve_env \<Rightarrow> (string \<Rightarrow> chat_message list \<Rightarrow> 'f chat_params \<Rightarrow> fault option)
    \<Rightarrow> server_run \<Rightarrow> server_run \<Rightarrow> bool" for E X where
  listener: "can_handle s i \<Longrightarrow> listener_step (sr_listener s) l \<Longrightarrow>
    server_step E X s (s\<lparr>sr_listener := l, sr_live := sr_live s + (l_sessions l - l_sessions (sr_listener s)),
      sr_stopped := l_stopped l\<rparr>)"
| read: "can_handle s i \<Longrightarrow> handling s < sr_live s \<Longrightarrow> server_step E X s (put_thread i (Handling r) s)"
| handled: "thread_is s i (Handling r) \<Longrightarrow> read_handled E X r = Inr p \<Longrightarrow>
    server_step E X s (put_thread i Looping (s\<lparr>sr_live := live_after p (sr_live s)\<rparr>))"
| throws: "thread_is s i (Handling r) \<Longrightarrow> read_handled E X r = Inl e \<Longrightarrow> server_step E X s (escape i e s)"
| session_ends: "can_handle s i \<Longrightarrow> handling s < sr_live s \<Longrightarrow>
    server_step E X s (s\<lparr>sr_live := sr_live s - 1\<rparr>)"
| out_of_work: "sr_ending s = None \<Longrightarrow> \<not> sr_stopped s \<Longrightarrow> \<not> io_work s \<Longrightarrow>
    server_step E X s (s\<lparr>sr_stopped := True\<rparr>)"
| loop_left: "thread_is s i Looping \<Longrightarrow> sr_stopped s \<Longrightarrow> server_step E X s (put_thread i Left s)"
| joined: "sr_ending s = None \<Longrightarrow> sr_threads s \<noteq> [] \<Longrightarrow> list_all (\<lambda>t. t = Left) (sr_threads s) \<Longrightarrow>
    server_step E X s (s\<lparr>sr_ending := Some Graceful\<rparr>)"

inductive_cases server_stepE: "server_step E X s s'"

section \<open>Invariants\<close>

text \<open>
  No thread leaves its loop before the context is stopped, no more handlers run than there are
  sessions, and a graceful ending comes after all threads have left.
\<close>

definition run_inv :: "int \<Rightarrow> server_run \<Rightarrow> bool" where
  "run_inv n s \<longleftrightarrow> length (sr_threads s) = nat n \<and> 1 \<le> n \<and>
     (\<not> sr_stopped s \<longrightarrow> Left \<notin> set (sr_threads s)) \<and> handling s \<le> sr_live s \<and>
     (sr_ending s = Some Graceful \<longrightarrow> sr_stopped s \<and> list_all (\<lambda>t. t = Left) (sr_threads s)) \<and>
     (l_stopped (sr_listener s) \<longrightarrow> sr_stopped s) \<and> (l_waiting (sr_listener s) \<longrightarrow> l_signals (sr_listener s))"

lemma ended_no_step: "sr_ending s \<noteq> None \<Longrightarrow> \<not> server_step E X s s'"
  by (auto elim!: server_stepE simp: can_handle_def thread_is_def)

lemma put_thread_simps [simp]:
  "sr_listener (put_thread i t s) = sr_listener s" "sr_live (put_thread i t s) = sr_live s"
  "sr_stopped (put_thread i t s) = sr_stopped s" "sr_ending (put_thread i t s) = sr_ending s"
  "sr_threads (put_thread i t s) = (sr_threads s)[i := t]"
  by (simp_all add: put_thread_def)

text \<open>A sum over the threads when one of them changes.\<close>

lemma sum_thread:
  "i < length ts \<Longrightarrow> sum_list (map f (ts[i := t])) + f (ts ! i) = sum_list (map f ts) + (f t :: nat)"
  using elem_le_sum_list [of i "map f ts"] by (simp add: map_update sum_list_update)

lemma handling_set:
  "i < length (sr_threads s) \<Longrightarrow> handling (put_thread i t s) + (if is_Handling (sr_threads s ! i) then 1 else 0)
    = handling s + (if is_Handling t then 1 else 0)"
  using sum_thread [of i "sr_threads s" "\<lambda>t. if is_Handling t then 1 else 0" t] by (simp add: handling_def)

lemma handling_other [simp]:
  "handling (s\<lparr>sr_listener := l\<rparr>) = handling s" "handling (s\<lparr>sr_live := v\<rparr>) = handling s"
  "handling (s\<lparr>sr_stopped := b\<rparr>) = handling s" "handling (s\<lparr>sr_ending := e\<rparr>) = handling s"
  by (simp_all add: handling_def)

lemma start_inv:
  assumes "1 \<le> n"
  shows "run_inv n (server_start True r n)"
proof -
  have "Suc (nat (n - 1)) = nat n" using assms by simp
  with assms show ?thesis
    by (simp add: server_start_def run_inv_def Let_def listener_run_def do_accept_def listener_new_def
        handling_def sum_list_replicate)
qed

lemma live_after_le: "v - 1 \<le> live_after p v"
  by (simp add: live_after_def)

lemma step_inv:
  assumes "server_step E X s s'" and "run_inv n s"
  shows "run_inv n s'"
  using assms
proof (cases rule: server_step.cases)
  case (read i r)
  with assms(2) handling_set [of i s "Handling r"] show ?thesis
    by (auto simp: run_inv_def can_handle_def dest: set_update_subset_insert [THEN subsetD])
next
  case (handled i r p)
  let ?s = "s\<lparr>sr_live := live_after p (sr_live s)\<rparr>"
  from handled assms(2) handling_set [of i ?s Looping] live_after_le [of "sr_live s" p] show ?thesis
    by (auto simp: run_inv_def thread_is_def dest: set_update_subset_insert [THEN subsetD])
next
  case (loop_left i)
  with assms(2) handling_set [of i s Left] show ?thesis by (simp add: run_inv_def thread_is_def)
next
  case joined
  then have "sr_stopped s" using assms(2) by (cases "sr_threads s") (auto simp: run_inv_def)
  with joined assms(2) show ?thesis by (simp add: run_inv_def)
qed (auto simp: run_inv_def can_handle_def escape_def listener_step_signals(1)
    dest: listener_step_signals(2) split: if_splits)

lemma steps_inv: "(server_step E X)\<^sup>*\<^sup>* s s' \<Longrightarrow> run_inv n s \<Longrightarrow> run_inv n s'"
  by (induction rule: rtranclp_induct) (auto intro: step_inv)

section \<open>Shutdown\<close>

text \<open>
  The turns a stopped server has left: a thread ends its handler and leaves its loop, then the join.
\<close>

fun thread_turns :: "loop_thread \<Rightarrow> nat" where
  "thread_turns Looping = 1"
| "thread_turns (Handling r) = 2"
| "thread_turns Left = 0"

definition server_turns :: "server_run \<Rightarrow> nat" where
  "server_turns s = sum_list (map thread_turns (sr_threads s)) + (if sr_ending s = None then 1 else 0)"

text \<open>
  A server that was stopped while its threads were inside the handlers \<open>hs\<close>: only these still run, and
  only an exception of one of them gives another ending than the graceful one.
\<close>

definition stopping :: "'f serve_env \<Rightarrow> (string \<Rightarrow> chat_message list \<Rightarrow> 'f chat_params \<Rightarrow> fault option)
    \<Rightarrow> loop_thread set \<Rightarrow> server_run \<Rightarrow> bool" where
  "stopping E X hs s \<longleftrightarrow> sr_stopped s \<and> (\<forall>r. Handling r \<in> set (sr_threads s) \<longrightarrow> Handling r \<in> hs) \<and>
     (sr_ending s = None \<or> sr_ending s = Some Graceful \<or>
      (\<exists>r e. Handling r \<in> hs \<and> read_handled E X r = Inl e))"

lemma thread_is_set: "thread_is s i t \<Longrightarrow> t \<in> set (sr_threads s)"
  by (auto simp: thread_is_def)

lemma stopping_step:
  assumes "server_step E X s s'" and "stopping E X hs s"
  shows "stopping E X hs s' \<and> server_turns s' < server_turns s"
  using assms
proof (cases rule: server_step.cases)
  case (handled i r p)
  then have "server_turns s' < server_turns s"
    using sum_thread [of i "sr_threads s" thread_turns Looping] by (simp add: thread_is_def server_turns_def)
  with handled assms(2) show ?thesis
    by (auto simp: stopping_def dest: set_update_subset_insert [THEN subsetD])
next
  case (throws i r e)
  with assms(2) thread_is_set [OF throws(2)] show ?thesis
    by (auto simp: stopping_def escape_def server_turns_def thread_is_def)
next
  case (loop_left i)
  then have "server_turns s' < server_turns s"
    using sum_thread [of i "sr_threads s" thread_turns Left] by (simp add: thread_is_def server_turns_def)
  with loop_left assms(2) show ?thesis
    by (auto simp: stopping_def dest: set_update_subset_insert [THEN subsetD])
qed (auto simp: stopping_def can_handle_def server_turns_def)

lemma stopping_progress:
  assumes "sr_stopped s" and "sr_ending s = None" and "sr_threads s \<noteq> []"
  shows "\<exists>s'. server_step E X s s'"
proof (cases "list_all (\<lambda>t. t = Left) (sr_threads s)")
  case True
  with assms show ?thesis by (blast intro: joined)
next
  case False
  then obtain i where i: "i < length (sr_threads s)" "sr_threads s ! i \<noteq> Left" by (auto simp: list_all_length)
  show ?thesis
  proof (cases "sr_threads s ! i")
    case Looping
    with i assms have "thread_is s i Looping" by (simp add: thread_is_def)
    with assms(1) show ?thesis by (blast intro: loop_left)
  next
    case (Handling r)
    with i assms have "thread_is s i (Handling r)" by (simp add: thread_is_def)
    then show ?thesis by (cases "read_handled E X r") (blast intro: throws handled)+
  qed (use i in simp)
qed

lemma turns_bound:
  assumes "run_inv n s"
  shows "server_turns s \<le> 2 * nat n + 1"
proof -
  have "thread_turns t \<le> 2" for t by (cases t) simp_all
  then have "sum_list (map thread_turns ts) \<le> 2 * length ts" for ts
    by (induction ts) (simp_all add: add_le_mono [of _ 2, simplified])
  from this [of "sr_threads s"] assms show ?thesis by (auto simp: server_turns_def run_inv_def)
qed

section \<open>A listener that could not be opened\<close>

text \<open>It never gets a session, so that no request is ever handled.\<close>

definition never_open :: "server_run \<Rightarrow> bool" where
  "never_open s \<longleftrightarrow> \<not> l_signals (sr_listener s) \<and> \<not> l_waiting (sr_listener s) \<and> \<not> l_stopped (sr_listener s) \<and> sr_live s = 0 \<and>
     handling s = 0 \<and> (sr_ending s = None \<or> sr_ending s = Some Graceful)"

lemma start_never_open:
  assumes "1 \<le> n" and "\<not> (or_open r \<and> or_option r \<and> or_bind r \<and> or_listen r)"
  shows "never_open (server_start True r n)"
  using assms by (auto simp: server_start_def never_open_def Let_def listener_run_def do_accept_def
      listener_new_def handling_def sum_list_replicate)

lemma no_handling: "handling s = 0 \<longleftrightarrow> (\<forall>r. Handling r \<notin> set (sr_threads s))"
  by (auto simp: handling_def is_Handling_def split: if_splits)

lemma listener_step_unopened:
  assumes "listener_step l l'" and "\<not> l_signals l" and "\<not> l_waiting l" and "\<not> l_stopped l"
  shows "l' = l\<lparr>l_accepting := False\<rparr>"
  using assms by (auto elim!: listener_stepE simp: accepted_def Let_def do_accept_def)

lemma never_open_step:
  assumes "server_step E X s s'" and "never_open s"
  shows "never_open s'"
  using assms
proof (cases rule: server_step.cases)
  case (loop_left i)
  with assms(2) handling_set [of i s Left] show ?thesis by (simp add: never_open_def thread_is_def)
qed (auto simp: never_open_def no_handling can_handle_def dest!: listener_step_unopened thread_is_set)

lemma never_open_steps: "(server_step E X)\<^sup>*\<^sup>* s s' \<Longrightarrow> never_open s \<Longrightarrow> never_open s'"
  by (induction rule: rtranclp_induct) (auto intro: never_open_step)

text \<open>
  Without an open listener the server needs one turn of the accept and one to run out of work before
  its threads leave and are joined.
\<close>

definition idle_turns :: "server_run \<Rightarrow> nat" where
  "idle_turns s = server_turns s + (if sr_stopped s then 0 else 1)
     + (if l_accepting (sr_listener s) \<and> \<not> sr_stopped s then 1 else 0)"

lemma idle_turns_step:
  assumes "server_step E X s s'" and "never_open s"
  shows "idle_turns s' < idle_turns s"
  using assms
proof (cases rule: server_step.cases)
  case (listener i l)
  with assms(2) have "l = (sr_listener s)\<lparr>l_accepting := False\<rparr>" "l_accepting (sr_listener s)"
    by (auto simp: never_open_def accepted_def elim!: listener_stepE)
  with listener assms(2) show ?thesis
    by (simp add: idle_turns_def never_open_def can_handle_def server_turns_def)
next
  case (loop_left i)
  then have "server_turns s' < server_turns s"
    using sum_thread [of i "sr_threads s" thread_turns Left] by (simp add: thread_is_def server_turns_def)
  with loop_left show ?thesis by (simp add: idle_turns_def)
qed (auto simp: idle_turns_def never_open_def no_handling can_handle_def server_turns_def dest: thread_is_set)

lemma never_open_progress:
  assumes "never_open s" and "sr_ending s = None" and "run_inv n s"
  shows "\<exists>s'. server_step E X s s'"
proof (cases "sr_stopped s")
  case True
  with assms show ?thesis by (intro stopping_progress) (auto simp: run_inv_def)
next
  case running: False
  show ?thesis
  proof (cases "io_work s")
    case False
    with assms(2) running show ?thesis by (blast intro: out_of_work)
  next
    case True
    with assms running have l: "l_accepting (sr_listener s)" "\<not> l_stopped (sr_listener s)"
      by (auto simp: io_work_def never_open_def)
    from assms running have "0 < length (sr_threads s)" "Left \<notin> set (sr_threads s)"
      "\<forall>r. Handling r \<notin> set (sr_threads s)"
      by (auto simp: run_inv_def never_open_def no_handling)
    then have "sr_threads s ! 0 = Looping" by (cases "sr_threads s ! 0") (metis nth_mem)+
    with assms(2) running \<open>0 < length (sr_threads s)\<close> have "can_handle s 0" by (simp add: can_handle_def)
    moreover have "listener_step (sr_listener s) (accepted False (sr_listener s))"
      using l by (intro accept) auto
    ultimately show ?thesis by (blast intro: listener)
  qed
qed

lemma idle_turns_start:
  assumes "1 \<le> n"
  shows "idle_turns (server_start True r n) \<le> nat n + 3"
proof -
  have "Suc (nat (n - 1)) = nat n" using assms by simp
  with assms show ?thesis
    by (simp add: idle_turns_def server_turns_def server_start_def Let_def sum_list_replicate)
qed

end
