(* ===== verification/Server_Run_Properties.thy ===== *)
theory Server_Run_Properties
  imports Server_Run Server_Properties Tokenizer_Properties
begin

text \<open>The properties of the running server: requests that end it, shutdown, a port that is taken.\<close>

section \<open>Exceptions\<close>

lemma read_ok: "read_handled E X (ReadOk rq) = rbind (handle_request E rq)
    (\<lambda>acts. case actions_fault X acts of None \<Rightarrow> Inr (pending_of acts) | Some e \<Rightarrow> Inl e)"
  by (cases "handle_request E rq") (simp_all add: read_handled_def read_completed_def)

lemma template_fault:
  assumes "for_model P i = Inr z" and "mj_compile M (template_str i) (get_bos z) (get_eos z) = Inl msg"
  shows "chat_fault P M (Inr i) chat_id messages params = Some (RuntimeError msg)"
  using assms by (simp add: chat_fault_def chat_invoke_def template_from_str_def)

text \<open>
  C20: one request ends the server. While a server of at least two threads runs, a JSON post to the chat
  target whose body is no object, or any well-formed chat when the model's template does not compile,
  may be taken up by any free thread, and its handler can then throw on a thread without a handler for
  exceptions: the process is terminated, with every other session, and nothing runs after that.
\<close>

theorem bad_request_ends_server:
  assumes "2 \<le> n" and "(server_step E (chat_fault P M (Inr i)))\<^sup>*\<^sup>* (server_start True r n) s"
    and "can_handle s k" and "handling s < sr_live s"
    and "rq_method (rq :: request) = POST" and "rq_target rq = ''/v1/chat/completions''"
    and "sublist ''application/json'' (rq_content_type rq)" and "se_parse E (rq_body rq) = Inr body"
    and "for_model P i = Inr z"
    and "(\<forall>fields. body \<noteq> JObject fields) \<or>
      (\<exists>fields msgs cms msg. body = JObject fields \<and> map_of fields ''messages'' = Some (JArray msgs) \<and>
        collect_messages msgs [] = Inr (Inr cms) \<and>
        mj_compile M (template_str i) (get_bos z) (get_eos z) = Inl msg)"
  shows "\<exists>s1 s2. server_step E (chat_fault P M (Inr i)) s s1 \<and> sr_threads s1 ! k = Handling (ReadOk rq) \<and>
    server_step E (chat_fault P M (Inr i)) s1 s2 \<and> sr_ending s2 = Some Terminated \<and>
    (\<forall>t. \<not> server_step E (chat_fault P M (Inr i)) s2 t)"
proof -
  let ?X = "chat_fault P M (Inr i)"
  let ?s1 = "put_thread k (Handling (ReadOk rq)) s"
  have "run_inv n s" using steps_inv [OF assms(2)] start_inv assms(1) by simp
  with assms(1) have two: "2 \<le> length (sr_threads s)" by (simp add: run_inv_def)
  have "\<exists>e. read_handled E ?X (ReadOk rq) = Inl e"
    using assms(10)
  proof
    assume "\<forall>fields. body \<noteq> JObject fields"
    with assms(5-8) show ?thesis by (cases body) (simp_all add: read_ok handle_request_def Let_def)
  next
    assume "\<exists>fields msgs cms msg. body = JObject fields \<and> map_of fields ''messages'' = Some (JArray msgs) \<and>
        collect_messages msgs [] = Inr (Inr cms) \<and>
        mj_compile M (template_str i) (get_bos z) (get_eos z) = Inl msg"
    then obtain fields msgs cms msg where b: "body = JObject fields" "map_of fields ''messages'' = Some (JArray msgs)"
      "collect_messages msgs [] = Inr (Inr cms)" "mj_compile M (template_str i) (get_bos z) (get_eos z) = Inl msg"
      by blast
    with assms(5-8) show ?thesis
      by (simp add: read_ok handle_request_def Let_def chat_completion_def Let_def template_fault [OF assms(9) b(4)])
  qed
  then obtain e where e: "read_handled E ?X (ReadOk rq) = Inl e" ..
  have start: "server_step E ?X s ?s1" using assms(3,4) by (rule read)
  have "thread_is ?s1 k (Handling (ReadOk rq))" using assms(3) by (simp add: thread_is_def can_handle_def)
  then have "server_step E ?X ?s1 (escape k e ?s1)" using e by (rule throws)
  moreover have "sr_ending (escape k e ?s1) = Some Terminated" using two by (simp add: escape_def)
  moreover from this have "\<not> server_step E ?X (escape k e ?s1) t" for t by (simp add: ended_no_step)
  ultimately show ?thesis using start assms(3) by (intro exI [of _ ?s1] exI [of _ "escape k e ?s1"]) (simp add: can_handle_def)
qed

definition all_well :: open_results where
  "all_well = \<lparr>or_open = True, or_option = True, or_bind = True, or_listen = True\<rparr>"

definition demo_minja :: "string minja" where
  "demo_minja = \<lparr>mj_compile = \<lambda>t bos eos. Inr t, mj_apply = \<lambda>t ms b. Inr (concat (map snd ms))\<rparr>"

text \<open>The server with four threads \<open>main\<close> starts, after one connection was accepted.\<close>

definition demo_server :: server_run where
  "demo_server = (server_start True all_well 4)\<lparr>
     sr_listener := accepted True (sr_listener (server_start True all_well 4)), sr_live := 1\<rparr>"

lemma demo_server_reached: "(server_step E X)\<^sup>*\<^sup>* (server_start True all_well 4) demo_server"
proof (rule r_into_rtranclp)
  let ?s = "server_start True all_well 4"
  have "can_handle ?s 0" "sr_live ?s = 0" "\<not> sr_stopped ?s"
    by (simp_all add: can_handle_def server_start_def Let_def)
  moreover have "listener_step (sr_listener ?s) (accepted True (sr_listener ?s))"
    by (rule accept) (simp_all add: server_start_def all_well_def listener_new_def listener_run_def
        do_accept_def Let_def)
  ultimately have "server_step E X ?s (?s\<lparr>sr_listener := accepted True (sr_listener ?s),
      sr_live := sr_live ?s + (l_sessions (accepted True (sr_listener ?s)) - l_sessions (sr_listener ?s)),
      sr_stopped := l_stopped (accepted True (sr_listener ?s))\<rparr>)"
    by (intro listener)
  then show "server_step E X ?s demo_server"
    by (simp add: demo_server_def accepted_def do_accept_def server_start_def all_well_def listener_new_def
        listener_run_def Let_def)
qed

lemma demo_server_facts: "can_handle demo_server k \<longleftrightarrow> k < 4" "handling demo_server = 0" "sr_live demo_server = 1"
    "l_waiting (sr_listener demo_server)" "sr_threads demo_server = replicate 4 Looping"
  by (auto simp: demo_server_def can_handle_def handling_def eval_nat_numeral less_Suc_eq
      accepted_def do_accept_def server_start_def all_well_def listener_new_def listener_run_def Let_def)

theorem bad_request_ends_server_witness:
  "\<exists>s1 s2. server_step (demo_serve (JArray [])) (chat_fault demo_pcre demo_minja (Inr demo_info)) demo_server s1 \<and>
    sr_threads s1 ! 3 = Handling (ReadOk (demo_request\<lparr>rq_content_type := ''application/json'', rq_body := ''[]''\<rparr>)) \<and>
    server_step (demo_serve (JArray [])) (chat_fault demo_pcre demo_minja (Inr demo_info)) s1 s2 \<and>
    sr_ending s2 = Some Terminated \<and>
    (\<forall>t. \<not> server_step (demo_serve (JArray [])) (chat_fault demo_pcre demo_minja (Inr demo_info)) s2 t)"
proof -
  obtain z where "for_model demo_pcre demo_info = Inr z" using demo_built by blast
  then show ?thesis
    by (intro bad_request_ends_server [where n = 4 and r = all_well and body = "JArray []"]
        demo_server_reached)
      (simp_all add: demo_request_def demo_serve_def demo_server_facts)
qed

section \<open>Shutdown\<close>

text \<open>
  C19: a signal stops the server. While it waits for one and a thread is free, a signal can be taken and
  stops the context. Whatever happens then, no further read is handled and the server takes at most two
  more steps per thread and one to join them; until it ends it can take a step, and it ends gracefully,
  unless the handler of a read that was running when the signal came throws.
\<close>

theorem signal_stops_server:
  assumes "1 \<le> n" and "(server_step E X)\<^sup>*\<^sup>* (server_start True r n) s"
    and "can_handle s i" and "l_waiting (sr_listener s)"
  shows "\<exists>s1. server_step E X s s1 \<and> sr_stopped s1 \<and> sr_ending s1 = None \<and> sr_threads s1 = sr_threads s \<and>
    (\<forall>k s2. (server_step E X ^^ k) s1 s2 \<longrightarrow> k \<le> 2 * nat n + 1 \<and>
      (\<forall>q. Handling q \<in> set (sr_threads s2) \<longrightarrow> Handling q \<in> set (sr_threads s)) \<and>
      (case sr_ending s2 of
        None \<Rightarrow> \<exists>t. server_step E X s2 t
      | Some Graceful \<Rightarrow> True
      | Some _ \<Rightarrow> \<exists>q e. Handling q \<in> set (sr_threads s) \<and> read_handled E X q = Inl e))"
proof -
  have inv: "run_inv n s" using steps_inv [OF assms(2)] start_inv assms(1) by simp
  let ?l = "(sr_listener s)\<lparr>l_open := False, l_waiting := False, l_stopped := True\<rparr>"
  let ?s1 = "s\<lparr>sr_listener := ?l, sr_live := sr_live s + (l_sessions ?l - l_sessions (sr_listener s)),
    sr_stopped := l_stopped ?l\<rparr>"
  let ?S = "stopping E X (set (sr_threads s))"
  have "\<not> l_stopped (sr_listener s)" using inv assms(3) by (auto simp: can_handle_def run_inv_def)
  with assms(4) inv have "listener_step (sr_listener s) ?l"
    by (intro signal [where ok = True]) (simp_all add: signal_received_def listener_stop_def run_inv_def)
  with assms(3) have step: "server_step E X s ?s1" by (rule listener)
  have inv1: "run_inv n ?s1" by (rule step_inv [OF step inv])
  have stop: "?S ?s1" using assms(3) by (simp add: stopping_def can_handle_def)
  have "k \<le> 2 * nat n + 1 \<and> (\<forall>q. Handling q \<in> set (sr_threads s2) \<longrightarrow> Handling q \<in> set (sr_threads s)) \<and>
      (case sr_ending s2 of None \<Rightarrow> \<exists>t. server_step E X s2 t | Some Graceful \<Rightarrow> True
        | Some _ \<Rightarrow> \<exists>q e. Handling q \<in> set (sr_threads s) \<and> read_handled E X q = Inl e)"
    if "(server_step E X ^^ k) ?s1 s2" for k s2
  proof -
    have b: "?S s2 \<and> k + server_turns s2 \<le> server_turns ?s1"
      using that stop stopping_step by (rule bounded_runs)
    from that have "(server_step E X)\<^sup>*\<^sup>* ?s1 s2" by (rule relpowp_imp_rtranclp)
    then have "run_inv n s2" using inv1 by (rule steps_inv)
    then have "sr_threads s2 \<noteq> []" by (auto simp: run_inv_def)
    with b turns_bound [OF inv1] stopping_progress [of s2 E X] show ?thesis
      by (auto simp: stopping_def split: option.split ending.split)
  qed
  with step assms(3) show ?thesis by (intro exI [of _ ?s1]) (simp add: can_handle_def)
qed

theorem signal_stops_server_witness:
  "\<exists>s1. server_step (demo_serve JNull) (\<lambda>_ _ _. None) demo_server s1 \<and> sr_stopped s1 \<and> sr_ending s1 = None \<and>
    sr_threads s1 = replicate 4 Looping \<and>
    (\<forall>k s2. (server_step (demo_serve JNull) (\<lambda>_ _ _. None) ^^ k) s1 s2 \<longrightarrow> k \<le> 9 \<and>
      (\<forall>q. Handling q \<in> set (sr_threads s2) \<longrightarrow> Handling q \<in> set (replicate 4 Looping)) \<and>
      (case sr_ending s2 of
        None \<Rightarrow> \<exists>t. server_step (demo_serve JNull) (\<lambda>_ _ _. None) s2 t
      | Some Graceful \<Rightarrow> True
      | Some _ \<Rightarrow> \<exists>q e. Handling q \<in> set (replicate 4 Looping) \<and>
          read_handled (demo_serve JNull) (\<lambda>_ _ _. None) q = Inl e))"
  using signal_stops_server [OF _ demo_server_reached, of 0 "demo_serve JNull" "\<lambda>_ _ _. None",
      unfolded demo_server_facts(5)]
    demo_server_facts(1,4) by simp

section \<open>A port that is taken\<close>

text \<open>
  A server whose listener cannot be opened, bound or made to listen reports success. It never has
  a session, takes at most one step per thread and three more, can take a step until the threads are
  joined, and then says that it was shut down gracefully; no other ending is possible.
\<close>

theorem unopened_server_graceful:
  assumes "1 \<le> n" and "\<not> (or_open r \<and> or_option r \<and> or_bind r \<and> or_listen r)"
    and "(server_step E X ^^ k) (server_start True r n) s"
  shows "k \<le> nat n + 3 \<and> sr_live s = 0 \<and>
    (sr_ending s = Some Graceful \<or> sr_ending s = None \<and> (\<exists>t. server_step E X s t))"
proof -
  let ?s0 = "server_start True r n"
  have "never_open ?s0" using start_never_open assms(1,2) .
  then have b: "never_open s \<and> k + idle_turns s \<le> idle_turns ?s0"
    using bounded_runs [OF assms(3), where Q = never_open and m = idle_turns]
    by (blast intro: never_open_step idle_turns_step)
  have inv: "run_inv n ?s0" using start_inv assms(1) .
  from assms(3) have "(server_step E X)\<^sup>*\<^sup>* ?s0 s" by (rule relpowp_imp_rtranclp)
  then have "run_inv n s" using inv by (rule steps_inv)
  with b never_open_progress [of s n E X] idle_turns_start [OF assms(1), of r] show ?thesis
    by (auto simp: never_open_def)
qed

theorem unopened_server_graceful_witness:
  "sr_live (server_start True (all_well\<lparr>or_bind := False\<rparr>) 4) = 0 \<and>
    (\<exists>t. server_step (demo_serve JNull) (\<lambda>_ _ _. None) (server_start True (all_well\<lparr>or_bind := False\<rparr>) 4) t)"
proof -
  let ?s = "server_start True (all_well\<lparr>or_bind := False\<rparr>) 4"
  have "sr_ending ?s = None" by (simp add: server_start_def Let_def)
  with unopened_server_graceful [of 4 "all_well\<lparr>or_bind := False\<rparr>" 0 "demo_serve JNull" "\<lambda>_ _ _. None" ?s]
  show ?thesis by (simp add: all_well_def)
qed

section \<open>A run that fails\<close>

text \<open>
  A chat whose run ends in an error, so that no completion is dispatched, never ends its stream: no
  message is the last one, and the chat stays registered with the dispatcher.
\<close>

theorem failed_chat_never_ends:
  assumes "listeners_of d chat_id = []" and "list_all (\<lambda>(k, e). \<not> is_GenerationCompleted e) evs"
  shows "\<exists>ms d'. deliver chat_id evs (chat_listen chat_id d) = (map (Pair chat_id) ms, d') \<and>
    list_all (\<lambda>m. \<not> snd m) ms \<and> listeners_of d' chat_id = [(chat_id, chat_events)] \<and>
    callbacks_count d' = callbacks_count d + 1"
proof -
  let ?d = "chat_listen chat_id d"
  have l: "listeners_of ?d = (listeners_of d)(chat_id := [(chat_id, chat_events)])"
    "callbacks_count ?d = callbacks_count d + 1"
    using assms(1) by (simp_all add: chat_listen_def bus.registered_register count_listen)
  then have "only_chat chat_id ?d" by (simp add: only_chat_def)
  from deliver_open [OF this assms(2)] obtain d' where
    d': "deliver chat_id evs ?d = (map (Pair chat_id) (chat_stream evs), d')"
    "listeners_of d' = listeners_of ?d" "callbacks_count d' = callbacks_count ?d" by blast
  have "list_all (\<lambda>m. \<not> snd m) (chat_stream evs)"
    using assms(2)
  proof (induction evs)
    case (Cons ke evs)
    obtain k e where "ke = (k, e)" by fastforce
    with Cons show ?case by (cases e) (auto simp: chat_stream_Cons)
  qed simp
  with d' l show ?thesis by auto
qed

theorem failed_chat_never_ends_witness:
  "\<exists>ms d'. deliver ''chat-1'' [(TOKENIZER_STARTED, TokenizerStarted 0 9)] (chat_listen ''chat-1'' dispatcher_init)
      = (map (Pair ''chat-1'') ms, d') \<and> list_all (\<lambda>m. \<not> snd m) ms \<and>
    listeners_of d' ''chat-1'' = [(''chat-1'', chat_events)] \<and> callbacks_count d' = 1"
  using failed_chat_never_ends [of dispatcher_init "''chat-1''" "[(TOKENIZER_STARTED, TokenizerStarted 0 9)]"]
  by (simp add: listeners_of_def dispatcher_init_def)

end
