(* ===== verification/Qwen_Facts.thy ===== *)
theory Qwen_Facts
  imports Qwen
begin

text \<open>
  The shapes of the Qwen graph, the order in which its layers write to the cache, and the data of
  its inputs.
\<close>

section \<open>Inputs\<close>

lemma positions_from_eq:
  assumes "- (2 ^ 31) \<le> past" and "past + int i + int n \<le> 2 ^ 31" and "i + n \<le> 2 ^ 31"
  shows "positions_from past n i = Inr (map (\<lambda>k. past + int k) [i..<i + n])"
  using assms
proof (induction n arbitrary: i)
  case (Suc n)
  have w: "wrap32 (int i) = int i" using Suc.prems(3) by simp
  have "positions_from past n (Suc i) = Inr (map (\<lambda>k. past + int k) [Suc i..<Suc i + n])"
    using Suc.prems by (intro Suc.IH) auto
  moreover have "[i..<i + Suc n] = i # [Suc i..<Suc i + n]" by (simp add: upt_conv_Cons)
  ultimately show ?case using Suc.prems by (simp add: Let_def w)
qed simp

lemma length_mask_row [simp]: "length (mask_row v h len p) = unat len"
  by (simp add: mask_row_def)

lemma length_mask_rows [simp]: "length (concat (map (mask_row v h len) ps)) = length ps * unat len"
  by (induction ps) auto

lemma mask_row_nth:
  assumes "k < unat len" and "unat len \<le> 2 ^ 31"
  shows "mask_row v h len p ! k = (if int k \<le> p then v else h)"
  using assms by (simp add: mask_row_def)

lemma mask_rows_nth:
  assumes "q < length ps" and "k < unat len"
  shows "concat (map (mask_row v h len) ps) ! (q * unat len + k) = mask_row v h len (ps ! q) ! k"
  using assms
proof (induction ps arbitrary: q)
  case (Cons p ps)
  show ?case
  proof (cases q)
    case 0
    with Cons.prems show ?thesis by (simp add: nth_append)
  next
    case (Suc q')
    with Cons show ?thesis by (simp add: nth_append add.assoc)
  qed
qed simp

section \<open>Shapes\<close>

text \<open>
  What the shape theorem asks of the weights: names and shapes of a Qwen model with \<open>h\<close> heads of
  \<open>dh\<close> components, \<open>hk\<close> key/value heads, vocabulary \<open>v\<close> and feed-forward size \<open>f\<close>.
\<close>

definition weight :: "ggml \<Rightarrow> (string \<Rightarrow> gptr) \<Rightarrow> string \<Rightarrow> nat \<Rightarrow> nat \<Rightarrow> bool" where
  "weight G get nm a b \<longleftrightarrow> (case get nm of None \<Rightarrow> False | Some w \<Rightarrow> shaped G w a b 1)"

definition optional :: "ggml \<Rightarrow> (string \<Rightarrow> gptr) \<Rightarrow> string \<Rightarrow> nat \<Rightarrow> bool" where
  "optional G get nm a \<longleftrightarrow> (case get nm of None \<Rightarrow> True | Some w \<Rightarrow> shaped G w a 1 1)"

definition block_weights :: "ggml \<Rightarrow> (string \<Rightarrow> gptr) \<Rightarrow> nat \<Rightarrow> nat \<Rightarrow> nat \<Rightarrow> nat \<Rightarrow> nat \<Rightarrow> bool" where
  "block_weights G get h hk dh f i \<longleftrightarrow>
     (let b = blk_name i; d = h * dh in
      weight G get (b @ ''.attn_q.weight'') d d \<and> optional G get (b @ ''.attn_q.bias'') d \<and>
      weight G get (b @ ''.attn_k.weight'') d (hk * dh) \<and> optional G get (b @ ''.attn_k.bias'') (hk * dh) \<and>
      weight G get (b @ ''.attn_v.weight'') d (hk * dh) \<and> optional G get (b @ ''.attn_v.bias'') (hk * dh) \<and>
      weight G get (b @ ''.attn_output.weight'') d d \<and> optional G get (b @ ''.attn_norm.weight'') d \<and>
      weight G get (b @ ''.ffn_up.weight'') d f \<and> weight G get (b @ ''.ffn_gate.weight'') d f \<and>
      weight G get (b @ ''.ffn_down.weight'') f d \<and> optional G get (b @ ''.ffn_norm.weight'') d)"

text \<open>
  What it asks of the cache: for heads of the announced shape a write succeeds, and slices have
  one row per position of the context.
\<close>

definition cache_shapes :: "ggml \<Rightarrow> 'c cache_api \<Rightarrow> nat \<Rightarrow> nat \<Rightarrow> nat \<Rightarrow> nat \<Rightarrow> bool" where
  "cache_shapes G A dh l hk n \<longleftrightarrow>
     (\<forall>i k v pos c. shaped G k dh hk n \<longrightarrow> shaped G v dh hk n \<longrightarrow> (\<exists>c'. ca_write A i k v pos c = Inr c')) \<and>
     (\<forall>i c. \<exists>k v. ca_slice A i c = Inr (k, v) \<and> shaped G k dh l hk \<and> shaped G v dh l hk)"

lemma weightD: "weight G get nm a b \<Longrightarrow> \<exists>w. get nm = Some w \<and> shaped G w a b 1"
  by (auto simp: weight_def split: option.splits)

lemma optionalD: "optional G get nm a \<Longrightarrow> get nm = Some w \<Longrightarrow> shaped G w a 1 1"
  by (simp add: optional_def)

lemma rope_shape_run:
  assumes "ggml_shapes G" and "has_shape G x a b c" and "ap_positions p = Some pos"
    and "shaped G pos c 1 1" and "d \<le> a"
  shows "\<exists>t. rope G p d x = Inr t \<and> has_shape G t a b c"
proof (cases "apply_rope p")
  case True
  from rope_call [OF assms(1) has_shapeD [OF assms(2)] assms(4,5)] obtain t where
    "call_ggml G (OpRopeNeox d (ap_rope_freq_base p)) [Some x, Some pos] = Inr t" "has_shape G t a b c"
    by blast
  with True assms(3) show ?thesis by (simp add: rope_def)
qed (use assms(2) in \<open>simp add: rope_def\<close>)

lemma attention_shape:
  assumes G: "ggml_shapes G" and A: "cache_shapes G A dh l hk n" and x: "shaped G x (h * dh) n 1"
    and wq: "q_w p = Some wq" "shaped G wq (h * dh) (h * dh) 1"
    and wk: "k_w p = Some wk" "shaped G wk (h * dh) (hk * dh) 1"
    and wv: "v_w p = Some wv" "shaped G wv (h * dh) (hk * dh) 1"
    and wo: "out_w p = Some wo" "shaped G wo (h * dh) (h * dh) 1"
    and bq: "\<And>t. q_b p = Some t \<Longrightarrow> shaped G t (h * dh) 1 1"
    and bk: "\<And>t. k_b p = Some t \<Longrightarrow> shaped G t (hk * dh) 1 1"
    and bv: "\<And>t. v_b p = Some t \<Longrightarrow> shaped G t (hk * dh) 1 1"
    and heads: "unat (n_heads p) = h" "0 < h" "unat (ap_n_kv p) = hk" "hk dvd h"
    and pos: "ap_positions p = Some pos" "shaped G pos n 1 1"
    and msk: "ap_mask p = Some msk" "shaped G msk l n 1"
  shows "\<exists>out c'. attention_forward G A p x c = Inr (out, c') \<and> has_shape G out (h * dh) n 1"
proof -
  have ne [simp]: "g_ne G x 0 = h * dh" "g_ne G x (Suc 0) = n" "n_heads p \<noteq> 0"
    using x heads by (auto simp: shaped_def)
  have dh [simp]: "h * dh div unat (n_heads p) = dh" using heads by simp
  from project_shape [OF G x wq bq] obtain Q where Q: "project G (q_w p) (q_b p) ''Qcur'' x = Inr Q"
    "has_shape G Q (h * dh) n 1" "contiguous_op (t_op Q)" by blast
  from project_shape [OF G x wk bk] obtain K where K: "project G (k_w p) (k_b p) ''Kcur'' x = Inr K"
    "has_shape G K (hk * dh) n 1" "contiguous_op (t_op K)" by blast
  from project_shape [OF G x wv bv] obtain V where V: "project G (v_w p) (v_b p) ''Vcur'' x = Inr V"
    "has_shape G V (hk * dh) n 1" "contiguous_op (t_op V)" by blast
  from reshape3_call [OF G Q(3) has_shapeD [OF Q(2)], of dh h n] obtain Q2 where
    Q2: "call_ggml G (OpReshape3d dh h n) [Some Q] = Inr Q2" "has_shape G Q2 dh h n" by auto
  from reshape3_call [OF G K(3) has_shapeD [OF K(2)], of dh hk n] obtain K2 where
    K2: "call_ggml G (OpReshape3d dh hk n) [Some K] = Inr K2" "has_shape G K2 dh hk n" by auto
  from reshape3_call [OF G V(3) has_shapeD [OF V(2)], of dh hk n] obtain V2 where
    V2: "call_ggml G (OpReshape3d dh hk n) [Some V] = Inr V2" "has_shape G V2 dh hk n" by auto
  from rope_shape_run [OF G Q2(2) pos order_refl] obtain Q3 where
    Q3: "rope G p dh Q2 = Inr Q3" "has_shape G Q3 dh h n" by blast
  from rope_shape_run [OF G K2(2) pos order_refl] obtain K3 where
    K3: "rope G p dh K2 = Inr K3" "has_shape G K3 dh hk n" by blast
  from permute_call [OF G has_shape_named [OF Q3(2)]] obtain Q4 where
    Q4: "call_ggml G (OpPermute 0 2 1 3) [Some (set_name ''Qcur_rope'' Q3)] = Inr Q4"
    "has_shape G Q4 dh n h" by blast
  from unary_call [OF G _ has_shapeD [OF Q4(2)], of OpCont] obtain Q5 where
    Q5: "call_ggml G OpCont [Some Q4] = Inr Q5" "has_shape G Q5 dh n h" by blast
  from A has_shape_named [OF K3(2)] has_shapeD [OF V2(2)] obtain c' where
    wr: "ca_write A (ap_block_id p) (set_name ''Kcur_rope'' K3) V2 (ap_positions p) c = Inr c'"
    unfolding cache_shapes_def by blast
  from A obtain ks vs where sl: "ca_slice A (ap_block_id p) c' = Inr (ks, vs)"
    "shaped G ks dh l hk" "shaped G vs dh l hk" unfolding cache_shapes_def by blast
  from flash_call [OF G has_shapeD [OF Q5(2)] sl(2,3) msk(2) heads(4)] obtain F where
    F: "call_ggml G (OpFlashAttn dh) [Some Q5, Some ks, Some vs, Some msk] = Inr F"
    "t_op F = OpFlashAttn dh" "has_shape G F dh h n" by blast
  then have cont: "contiguous_op (t_op (set_name ''KQV'' F))" by (simp add: contiguous_op_def)
  from reshape2_call [OF G cont has_shape_named [OF F(3)], of "h * dh" n] obtain F2 where
    F2: "call_ggml G (OpReshape2d (h * dh) n) [Some (set_name ''KQV'' F)] = Inr F2"
    "has_shape G F2 (h * dh) n 1" by auto
  from mul_mat_call [OF G wo(2) has_shapeD [OF F2(2)]] obtain out where
    out: "call_ggml G OpMulMat [Some wo, Some F2] = Inr out" "has_shape G out (h * dh) n 1" by blast
  show ?thesis
    using Q(1) K(1) V(1) Q2(1) K2(1) V2(1) Q3(1) K3(1) Q4(1) Q5(1) wr sl(1) F(1) F2(1) out
      wo(1) msk(1) heads(1-3)
    by (simp add: attention_forward_def Let_def)
qed

text \<open>The layers of a block keep the hidden state's shape.\<close>

definition hidden_shape :: "model_config_t \<Rightarrow> nat \<Rightarrow> nat \<Rightarrow> nat \<Rightarrow> bool" where
  "hidden_shape cfg h hk dh \<longleftrightarrow> unat (nheads cfg) = h \<and> unat (nkv cfg) = hk \<and> 0 < h \<and> hk dvd h"

lemma attention_layer_shape:
  assumes G: "ggml_shapes G" and A: "cache_shapes G A dh l hk n" and x: "shaped G x (h * dh) n 1"
    and w: "block_weights G get h hk dh f i" and h: "hidden_shape cfg h hk dh"
    and pos: "shaped G pos n 1 1" and msk: "shaped G msk l n 1"
  shows "\<exists>out c'. run_layer G A (create_attention_layer get cfg pos msk (blk_name i @ ''.attn'') i) x c
      = Inr (out, c') \<and> shaped G out (h * dh) n 1"
proof -
  let ?get = "\<lambda>s. get (blk_name i @ s)"
  have w': "weight G get (blk_name i @ ''.attn_q.weight'') (h * dh) (h * dh)"
    "weight G get (blk_name i @ ''.attn_k.weight'') (h * dh) (hk * dh)"
    "weight G get (blk_name i @ ''.attn_v.weight'') (h * dh) (hk * dh)"
    "weight G get (blk_name i @ ''.attn_output.weight'') (h * dh) (h * dh)"
    "optional G get (blk_name i @ ''.attn_q.bias'') (h * dh)"
    "optional G get (blk_name i @ ''.attn_k.bias'') (hk * dh)"
    "optional G get (blk_name i @ ''.attn_v.bias'') (hk * dh)"
    "optional G get (blk_name i @ ''.attn_norm.weight'') (h * dh)"
    using w by (auto simp: block_weights_def Let_def)
  obtain wq wk wv wo where ws:
    "?get ''.attn_q.weight'' = Some wq" "shaped G wq (h * dh) (h * dh) 1"
    "?get ''.attn_k.weight'' = Some wk" "shaped G wk (h * dh) (hk * dh) 1"
    "?get ''.attn_v.weight'' = Some wv" "shaped G wv (h * dh) (hk * dh) 1"
    "?get ''.attn_output.weight'' = Some wo" "shaped G wo (h * dh) (h * dh) 1"
    using w'(1-4) [THEN weightD] by blast
  obtain p where p: "create_attention_layer get cfg pos msk (blk_name i @ ''.attn'') i
      = GroupedAttentionHead p" "q_w p = Some wq" "k_w p = Some wk" "v_w p = Some wv"
    "out_w p = Some wo" "q_b p = ?get ''.attn_q.bias''" "k_b p = ?get ''.attn_k.bias''"
    "v_b p = ?get ''.attn_v.bias''" "ap_norm_gamma p = ?get ''.attn_norm.weight''"
    "n_heads p = nheads cfg" "ap_n_kv p = nkv cfg" "ap_positions p = Some pos" "ap_mask p = Some msk"
    using ws by (simp add: create_attention_layer_def)
  have "\<exists>out c'. attention_forward G A p t c = Inr (out, c') \<and> has_shape G out (h * dh) n 1 \<and> True"
    if "shaped G t (h * dh) n 1" for t
    using attention_shape [OF G A that p(2) ws(2) p(3) ws(4) p(4) ws(6) p(5) ws(8) _ _ _ _ _ _ _ p(12) pos
        p(13) msk] w'(5-7) [THEN optionalD] p(6-8,10,11) h
    by (auto simp: hidden_shape_def)
  from layer_call_shape [where P = "\<lambda>c. True" and forward = "attention_forward G A p", OF G x
      optionalD [OF w'(8)] this, where residual = "ap_residual p" and eps = "ap_norm_eps p"
        and nm = "''GroupedAttention''"] p(1,9)
  show ?thesis by auto
qed

lemma ffn_layer_shape:
  assumes G: "ggml_shapes G" and x: "shaped G x (h * dh) n 1"
    and w: "block_weights G get h hk dh f i"
  shows "\<exists>out. run_layer G A (create_ffn_layer get cfg (blk_name i @ ''.ffn'')) x c = Inr (out, c)
    \<and> shaped G out (h * dh) n 1"
proof -
  let ?get = "\<lambda>s. get (blk_name i @ s)"
  have w': "weight G get (blk_name i @ ''.ffn_gate.weight'') (h * dh) f"
    "weight G get (blk_name i @ ''.ffn_up.weight'') (h * dh) f"
    "weight G get (blk_name i @ ''.ffn_down.weight'') f (h * dh)"
    "optional G get (blk_name i @ ''.ffn_norm.weight'') (h * dh)"
    using w by (auto simp: block_weights_def Let_def)
  obtain wg wu wd where ws:
    "?get ''.ffn_gate.weight'' = Some wg" "shaped G wg (h * dh) f 1"
    "?get ''.ffn_up.weight'' = Some wu" "shaped G wu (h * dh) f 1"
    "?get ''.ffn_down.weight'' = Some wd" "shaped G wd f (h * dh) 1"
    using w'(1-3) [THEN weightD] by blast
  obtain p where p: "create_ffn_layer get cfg (blk_name i @ ''.ffn'') = SwigLU p"
    "w_gate p = Some wg" "w_up p = Some wu" "w_down p = Some wd"
    "sw_norm_gamma p = ?get ''.ffn_norm.weight''"
    using ws by (simp add: create_ffn_layer_def)
  have "\<exists>out c'. pure_forward (swiglu_forward G p) t c = Inr (out, c') \<and> has_shape G out (h * dh) n 1
      \<and> c' = c" if "shaped G t (h * dh) n 1" for t
    using swiglu_shape [OF G that p(2) ws(2) p(3) ws(4) p(4) ws(6)] by (auto simp: pure_forward_def)
  from layer_call_shape [where P = "\<lambda>c'. c' = c" and forward = "pure_forward (swiglu_forward G p)",
      OF G x optionalD [OF w'(4)] this, where residual = "sw_residual p" and eps = "sw_norm_eps p"
        and nm = "''ffn''"] p(1,5)
  show ?thesis by auto
qed

lemma blocks_loop_shape:
  assumes "ggml_shapes G" and "cache_shapes G A dh l hk n" and "hidden_shape cfg h hk dh"
    and "shaped G pos n 1 1" and "shaped G msk l n 1"
    and "\<And>j. i \<le> j \<Longrightarrow> j < i + k \<Longrightarrow> block_weights G get h hk dh f j"
    and "shaped G cur (h * dh) n 1"
  shows "\<exists>out c'. blocks_loop G A get cfg pos msk k i cur c = Inr (out, c')
    \<and> shaped G out (h * dh) n 1"
  using assms(6,7)
proof (induction k arbitrary: i cur c)
  case (Suc k)
  have w: "block_weights G get h hk dh f i" using Suc.prems(1) by simp
  from attention_layer_shape [OF assms(1,2) Suc.prems(2) w assms(3-5)] obtain a c1 where
    a: "run_layer G A (create_attention_layer get cfg pos msk (blk_name i @ ''.attn'') i) cur c
      = Inr (a, c1)" "shaped G a (h * dh) n 1" by blast
  from ffn_layer_shape [OF assms(1) a(2) w, where cfg = cfg and c = c1 and A = A] obtain b where
    b: "run_layer G A (create_ffn_layer get cfg (blk_name i @ ''.ffn'')) a c1 = Inr (b, c1)"
    "shaped G b (h * dh) n 1" by blast
  have "\<exists>out c'. blocks_loop G A get cfg pos msk k (Suc i) b c1 = Inr (out, c')
      \<and> shaped G out (h * dh) n 1"
    using Suc.prems(1) by (intro Suc.IH b(2)) simp
  with a(1) b(1) show ?case by simp
qed simp


text \<open>The graph in front of the output layer, and the output layer.\<close>

lemma hidden_state_shape:
  assumes G: "ggml_shapes G" and h: "hidden_shape cfg h hk dh"
    and A: "cache_shapes G A dh (unat len) hk (unat n_tokens)"
    and emb: "weight G get ''token_embd.weight'' (h * dh) vocab"
    and blocks: "\<forall>i < unat (n_blocks cfg). block_weights G get h hk dh f i"
    and q: "create_input_tensors G n_tokens len qwen_new = Inr q"
  shows "\<exists>input positions msk cur c'. input_tensors q = [input, positions, msk] \<and>
    rbind (run_layer G A (create_embedding_layer get ''token_embd'') input c) (\<lambda>(cur, c).
      blocks_loop G A get cfg positions msk (unat (n_blocks cfg)) 0 cur c) = Inr (cur, c') \<and>
    shaped G cur (h * dh) (unat n_tokens) 1"
proof -
  from new1_call [OF G, of TYPE_I32 "unat n_tokens"] obtain i where
    i: "call_ggml G (OpNew TYPE_I32 [unat n_tokens]) [] = Inr i" "has_shape G i (unat n_tokens) 1 1"
    by blast
  from new2_call [OF G, of TYPE_F16 "unat len" "unat n_tokens"] obtain m where
    m: "call_ggml G (OpNew TYPE_F16 [unat len, unat n_tokens]) [] = Inr m"
    "has_shape G m (unat len) (unat n_tokens) 1" by blast
  let ?input = "set_name ''input'' i" and ?pos = "set_name ''positions'' i"
  let ?msk = "set_name ''mask'' m"
  have inputs: "input_tensors q = [?input, ?pos, ?msk]"
    using q i(1) m(1) by (auto simp: create_input_tensors_def)
  from weightD [OF emb] obtain w where
    w: "get ''token_embd.weight'' = Some w" "shaped G w (h * dh) vocab 1" by blast
  from rows_call [OF G w(2) has_shape_named [OF i(2)], of "''input''"] obtain e where
    e: "call_ggml G OpGetRows [Some w, Some ?input] = Inr e" "has_shape G e (h * dh) (unat n_tokens) 1"
    by blast
  have first: "run_layer G A (create_embedding_layer get ''token_embd'') ?input c
      = Inr (set_name ''TokenEmbedding-out'' e, c)"
    using w(1) e(1) by (simp add: create_embedding_layer_def layer_call_def pure_forward_def
        embedding_forward_def Let_def)
  have b: "block_weights G get h hk dh f j" if "0 \<le> j" "j < 0 + unat (n_blocks cfg)" for j
    using blocks that by simp
  from blocks_loop_shape [where k = "unat (n_blocks cfg)" and i = 0 and c = c and cfg = cfg,
      OF G A h has_shape_named [OF i(2), of "''positions''"] has_shape_named [OF m(2), of "''mask''"]
        b has_shape_named [OF e(2), of "''TokenEmbedding-out''"]]
  obtain cur c' where "blocks_loop G A get cfg ?pos ?msk (unat (n_blocks cfg)) 0
      (set_name ''TokenEmbedding-out'' e) c = Inr (cur, c')" "shaped G cur (h * dh) (unat n_tokens) 1"
    by auto
  with first inputs show ?thesis by fastforce
qed

lemma output_layer_shape:
  assumes G: "ggml_shapes G" and x: "shaped G x d n 1"
    and w: "get ''output.weight'' = Some w" "shaped G w d vocab 1"
    and norm: "optional G get ''output_norm.weight'' d"
  shows "\<exists>t. run_layer G A (create_output_layer get cfg ''output'') x c = Inr (t, c)
    \<and> shaped G t vocab n 1"
proof -
  obtain p where p: "create_output_layer get cfg ''output'' = TokenUnembedding p"
    "unemb_w p = Some w" "un_norm_gamma p = get ''output_norm.weight''"
    using w(1) by (simp add: create_output_layer_def)
  have "\<exists>out c'. pure_forward (unembedding_forward G p) t c = Inr (out, c')
      \<and> has_shape G out vocab n 1 \<and> c' = c" if "shaped G t d n 1" for t
    using mul_mat_call [OF G w(2) that] p(2) by (auto simp: pure_forward_def unembedding_forward_def)
  from layer_call_shape [where P = "\<lambda>c'. c' = c" and forward = "pure_forward (unembedding_forward G p)",
      OF G x optionalD [OF norm] this, where residual = False and eps = "un_norm_eps p"
        and nm = "''TokenUnembedding''"] p(1,3)
  show ?thesis by auto
qed

lemma graph_typed:
  assumes G: "ggml_shapes G" and h: "hidden_shape cfg h hk dh"
    and A: "cache_shapes G A dh (unat len) hk (unat n_tokens)"
    and emb: "weight G get ''token_embd.weight'' (h * dh) vocab"
    and blocks: "\<forall>i < unat (n_blocks cfg). block_weights G get h hk dh f i"
    and out: "weight G get ''output.weight'' (h * dh) vocab" "optional G get ''output_norm.weight'' (h * dh)"
    and q: "create_input_tensors G n_tokens len qwen_new = Inr q"
  shows "\<exists>t c'. build_graph G A get cfg q c = Inr (t, c') \<and> shaped G t vocab (unat n_tokens) 1"
proof -
  from hidden_state_shape [OF G h A emb blocks q] obtain input positions msk cur c1 where
    hs: "input_tensors q = [input, positions, msk]"
    "rbind (run_layer G A (create_embedding_layer get ''token_embd'') input c) (\<lambda>(cur, c).
       blocks_loop G A get cfg positions msk (unat (n_blocks cfg)) 0 cur c) = Inr (cur, c1)"
    "shaped G cur (h * dh) (unat n_tokens) 1" by blast
  from weightD [OF out(1)] obtain w where
    w: "get ''output.weight'' = Some w" "shaped G w (h * dh) vocab 1" by blast
  from output_layer_shape [OF G hs(3) w out(2), where cfg = cfg and A = A and c = c1] obtain t where
    "run_layer G A (create_output_layer get cfg ''output'') cur c1 = Inr (t, c1)"
    "shaped G t vocab (unat n_tokens) 1" by blast
  with hs(1,2) show ?thesis by (auto simp: build_graph_def rbind_eq_Inr)
qed

lemma output_layer_null:
  assumes G: "ggml_shapes G" and x: "shaped G x d n 1"
    and w: "get ''output.weight'' = None" and norm: "optional G get ''output_norm.weight'' d"
  shows "run_layer G A (create_output_layer get cfg ''output'') x c = Inl NullDeref"
proof -
  have f: "pure_forward (unembedding_forward G p) t c = Inl NullDeref" if "unemb_w p = None" for p t
    using that by (simp add: pure_forward_def unembedding_forward_def call_ggml_def)
  show ?thesis
  proof (cases "get ''output_norm.weight''")
    case None
    with w f show ?thesis by (simp add: create_output_layer_def layer_call_def)
  next
    case (Some g)
    from unary_call [OF G _ x] obtain rms where
      rms: "call_ggml G (OpRmsNorm (rms_eps cfg)) [Some x] = Inr rms" "has_shape G rms d n 1" by blast
    from binary_call [OF G _ has_shape_named [OF rms(2)] disjI2 [OF optionalD [OF norm Some]], of OpMul]
    obtain t where "call_ggml G OpMul [Some (set_name ''TokenUnembedding-rms'' rms), Some g] = Inr t"
      by blast
    with Some rms w f show ?thesis by (simp add: create_output_layer_def layer_call_def)
  qed
qed

lemma inputs_shape:
  assumes G: "ggml_shapes G" and q: "create_input_tensors G n_tokens len qwen_new = Inr q"
  shows "\<exists>input positions msk. input_tensors q = [input, positions, msk] \<and> q_max_context_len q = len \<and>
    shaped G input (unat n_tokens) 1 1 \<and> shaped G positions (unat n_tokens) 1 1 \<and>
    shaped G msk (unat len) (unat n_tokens) 1"
proof -
  from new1_call [OF G, of TYPE_I32 "unat n_tokens"] obtain i where
    i: "call_ggml G (OpNew TYPE_I32 [unat n_tokens]) [] = Inr i" "has_shape G i (unat n_tokens) 1 1"
    by blast
  from new2_call [OF G, of TYPE_F16 "unat len" "unat n_tokens"] obtain m where
    m: "call_ggml G (OpNew TYPE_F16 [unat len, unat n_tokens]) [] = Inr m"
    "has_shape G m (unat len) (unat n_tokens) 1" by blast
  from q i m show ?thesis by (auto simp: create_input_tensors_def)
qed

text \<open>What is written to the inputs of a graph for tokens that fit.\<close>

lemma set_inputs_ok:
  assumes "create_input_tensors G n_tokens len qwen_new = Inr q" and "ggml_shapes G"
    and "length tokens \<le> unat n_tokens" and "0 \<le> past" and "past + int (length tokens) \<le> 2 ^ 31"
    and "unat len \<le> 2 ^ 31"
  shows "\<exists>pos rows. set_inputs G visible hidden q tokens past = Inr (tokens, pos, rows) \<and>
    pos = map (\<lambda>i. past + int i) [0..<length tokens] \<and> length rows = length tokens * unat len \<and>
    (\<forall>i < length tokens. \<forall>k < unat len.
      rows ! (i * unat len + k) = (if int k \<le> past + int i then visible else hidden))"
proof -
  let ?pos = "map (\<lambda>i. past + int i) [0..<length tokens]"
  let ?rows = "concat (map (mask_row visible hidden len) ?pos)"
  from inputs_shape [OF assms(2,1)] obtain input positions msk where
    q: "input_tensors q = [input, positions, msk]" "q_max_context_len q = len"
    "shaped G input (unat n_tokens) 1 1" "shaped G positions (unat n_tokens) 1 1"
    "shaped G msk (unat len) (unat n_tokens) 1" by blast
  have "positions_from past (length tokens) 0 = Inr ?pos"
    using positions_from_eq [of past 0 "length tokens"] assms(4,5) by simp
  moreover have len: "length ?rows = length tokens * unat len" by (simp only: length_mask_rows) simp
  moreover have "length tokens * unat len \<le> unat len * unat n_tokens"
    using assms(3) by simp
  ultimately have "set_inputs G visible hidden q tokens past = Inr (tokens, ?pos, ?rows)"
    using q assms(3) by (simp add: set_inputs_def shaped_def Let_def del: map_map)
  moreover have "?rows ! (i * unat len + k) = (if int k \<le> past + int i then visible else hidden)"
    if "i < length tokens" "k < unat len" for i k
    using mask_rows_nth [of i ?pos k len visible hidden] that assms(6) by (simp add: mask_row_nth)
  ultimately show ?thesis using len by blast
qed

section \<open>Writes to the cache\<close>

lemma layer_call_pure:
  assumes "layer_call G residual gamma eps nm (pure_forward f) x c = Inr (t, c')"
  shows "c' = c"
  using assms by (auto simp: layer_call_def pure_forward_def rbind_eq_Inr Let_def split: if_splits)

definition log_cache :: "(int \<Rightarrow> gtensor \<times> gtensor) \<Rightarrow> int list cache_api" where
  "log_cache sl = \<lparr>ca_write = (\<lambda>i k v pos c. Inr (c @ [i])), ca_slice = (\<lambda>i c. Inr (sl i))\<rparr>"

lemma attention_writes:
  "attention_forward G (log_cache sl) p x c = Inr (t, c') \<Longrightarrow> c' = c @ [ap_block_id p]"
  by (cases "sl (ap_block_id p)")
    (auto simp: attention_forward_def rbind_eq_Inr Let_def log_cache_def split: if_splits)

lemma layer_call_writes:
  assumes "layer_call G residual gamma eps nm (attention_forward G (log_cache sl) p) x c = Inr (t, c')"
  shows "c' = c @ [ap_block_id p]"
  using assms by (auto simp: layer_call_def rbind_eq_Inr Let_def split: if_splits dest: attention_writes)

lemma blocks_loop_writes:
  "blocks_loop G (log_cache sl) get cfg pos msk n i cur c = Inr (t, c') \<Longrightarrow>
    c' = c @ map int [i..<i + n]"
proof (induction n arbitrary: i cur c)
  case (Suc n)
  from Suc.prems obtain cur1 c1 cur2 c2 where
    a: "run_layer G (log_cache sl) (create_attention_layer get cfg pos msk (blk_name i @ ''.attn'') i) cur c
      = Inr (cur1, c1)"
    and f: "run_layer G (log_cache sl) (create_ffn_layer get cfg (blk_name i @ ''.ffn'')) cur1 c1
      = Inr (cur2, c2)"
    and r: "blocks_loop G (log_cache sl) get cfg pos msk n (i + 1) cur2 c2 = Inr (t, c')"
    by (auto simp: rbind_eq_Inr)
  from a have "c1 = c @ [int i]" by (auto simp: create_attention_layer_def dest: layer_call_writes)
  moreover from f have "c2 = c1" by (auto simp: create_ffn_layer_def dest: layer_call_pure)
  moreover have "[i..<i + Suc n] = i # [Suc i..<Suc i + n]" by (simp add: upt_conv_Cons)
  ultimately show ?case using Suc.IH [OF r] by simp
qed simp

lemma build_graph_writes:
  assumes "build_graph G (log_cache sl) get cfg q c = Inr (t, c')"
  shows "c' = c @ map int [0..<unat (n_blocks cfg)]"
proof -
  from assms obtain input positions msk cur c1 cur2 c2 where
    e: "run_layer G (log_cache sl) (create_embedding_layer get ''token_embd'') input c = Inr (cur, c1)"
    and b: "blocks_loop G (log_cache sl) get cfg positions msk (unat (n_blocks cfg)) 0 cur c1
      = Inr (cur2, c2)"
    and o: "run_layer G (log_cache sl) (create_output_layer get cfg ''output'') cur2 c2
      = Inr (t, c')"
    by (auto simp: build_graph_def rbind_eq_Inr)
  from e have "c1 = c" by (auto simp: create_embedding_layer_def dest: layer_call_pure)
  moreover from o have "c' = c2" by (auto simp: create_output_layer_def dest: layer_call_pure)
  ultimately show ?thesis using blocks_loop_writes [OF b] by simp
qed

end
