(* ===== verification/Model_Properties.thy ===== *)
theory Model_Properties
  imports Models Qwen_Facts
begin

text \<open>
  The properties of the loaded model and its graph: tensors point at their data, the graph is well
  shaped, every layer writes its cache once, the mask is causal.
\<close>

section \<open>Loading\<close>

text \<open>
  C6: after \<open>Model::load\<close> of a file laid out as GGUF prescribes, whose tensors ggml can create, the
  model holds exactly the tensors of the file, each under its name; its data is at the aligned start
  of the tensor data plus the tensor's offset, or in a build with CUDA, whose buffer could be
  allocated, has been copied from there.
\<close>

theorem load_binds_tensors:
  assumes bytes: "fe_bytes env = enc_gguf f @ data" "length (fe_bytes env) < 2 ^ 31"
    and os: "fe_open env" "fe_stat env" "fe_mapped env = Some base" "length (fe_stack env) = 4"
    and ok: "\<forall>(k, a) \<in> set (gf_kvs f). ok_value a" "file_alignment (gf_kvs f) = Inr al"
    and ggml: "\<forall>i. new_ok i" "bd_cuda B \<longrightarrow> bd_alloc B"
  shows "\<exists>mi. model_load B type_nm new_ok env inst = Inr (True, Some mi) \<and>
    (\<forall>n. map_option lt_data (get_tensor mi n) = map_option
      (\<lambda>t. let ptr = align_up al (base + word_of_nat (length (enc_gguf f))) + ts_offset t in
        Some (if bd_cuda B then Copied ptr else InFile ptr))
      (map_of (map (\<lambda>t. (ts_name t, t)) (gf_tensors f)) n))"
proof -
  from model_load_wf [OF bytes os ok ggml] obtain mi where
    "model_load B type_nm new_ok env inst = Inr (True, Some mi)"
    "\<forall>n. get_tensor mi n = map_option
      (file_tensor B (align_up al (base + word_of_nat (length (enc_gguf f)))) n)
      (map_of (map (\<lambda>t. (ts_name t, t)) (gf_tensors f)) n)" .
  then show ?thesis by (auto simp: option.map_comp comp_def file_tensor_def Let_def)
qed

text \<open>The two builds.\<close>

definition cpu_build :: build where
  "cpu_build = \<lparr>bd_cuda = False, bd_alloc = False\<rparr>"

definition cuda_build :: build where
  "cuda_build = \<lparr>bd_cuda = True, bd_alloc = True\<rparr>"

definition demo_gguf :: gguf_file where
  "demo_gguf = \<lparr>gf_version = 3, gf_kvs = [(''k'', APrim (PU32 7))],
     gf_tensors = [\<lparr>ts_name = ''t'', ts_dims = [2, 3], ts_dtype = 0, ts_offset = 64\<rparr>]\<rparr>"

definition demo_file_env :: file_env where
  "demo_file_env = \<lparr>fe_open = True, fe_stat = True, fe_bytes = enc_gguf demo_gguf @ ''abcd'',
     fe_mapped = Some 4096, fe_stack = ''abcd''\<rparr>"

theorem load_binds_tensors_witness:
  "\<exists>mi. model_load cuda_build (\<lambda>_. ''f32'') (\<lambda>i. True) demo_file_env None = Inr (True, Some mi) \<and>
    map_option lt_data (get_tensor mi ''t'')
      = Some (Some (Copied (align_up 32 (4096 + word_of_nat (length (enc_gguf demo_gguf))) + 64))) \<and>
    map_option lt_data (get_tensor mi ''u'') = None"
proof -
  have "\<exists>mi. model_load cuda_build (\<lambda>_. ''f32'') (\<lambda>i. True) demo_file_env None = Inr (True, Some mi) \<and>
    (\<forall>n. map_option lt_data (get_tensor mi n) = map_option
      (\<lambda>t. let ptr = align_up 32 (4096 + word_of_nat (length (enc_gguf demo_gguf))) + ts_offset t in
        Some (if bd_cuda cuda_build then Copied ptr else InFile ptr))
      (map_of (map (\<lambda>t. (ts_name t, t)) (gf_tensors demo_gguf)) n))"
    by (rule load_binds_tensors [where data = "''abcd''" and base = 4096 and al = 32])
      (simp_all add: demo_file_env_def demo_gguf_def enc_gguf_def enc_kv_def enc_tensor_def
        file_alignment_def cuda_build_def)
  then obtain mi where "model_load cuda_build (\<lambda>_. ''f32'') (\<lambda>i. True) demo_file_env None = Inr (True, Some mi)"
    and "\<And>n. map_option lt_data (get_tensor mi n) = map_option
      (\<lambda>t. let ptr = align_up 32 (4096 + word_of_nat (length (enc_gguf demo_gguf))) + ts_offset t in
        Some (if bd_cuda cuda_build then Copied ptr else InFile ptr))
      (map_of (map (\<lambda>t. (ts_name t, t)) (gf_tensors demo_gguf)) n)" by blast
  then show ?thesis by (intro exI [of _ mi]) (simp add: demo_gguf_def cuda_build_def)
qed

text \<open>
  A build with CUDA whose device has no room for the tensors ends in an assertion when the first
  tensor is bound, not in a failed load.
\<close>

theorem no_device_room_asserts:
  assumes "load_gguf_file (fe_mapped env) (fe_bytes env) = Inr (Some g)" and "gl_tensors g \<noteq> []"
    and "fe_open env" "fe_stat env" "is_gguf_file (fe_stack env) (fe_bytes env)"
    and "bd_cuda B" "\<not> bd_alloc B" and "\<forall>i. new_ok i"
  shows "model_load B type_nm new_ok env inst = Inl AssertFailed"
proof -
  have named: "tensors_named (gl_map g) (gl_tensors g)" using assms(1) by (rule load_named)
  let ?is = "map (record_of type_nm) (gl_tensors g)"
  obtain m0 where m0: "model_impl_new B (Some g) = Inr m0" "mdl_loader m0 = g"
    by (simp add: model_impl_new_def)
  have infos: "loader_tensor_info type_nm g = Inr ?is"
    using named by (simp add: loader_tensor_info_def tensors_named_def tensor_records_named)
  have "distinct (map tn_name ?is)"
    using named by (simp add: tensors_named_def record_of_def split_def comp_def)
  with create_tensors_map [of new_ok ?is m0] assms(8) m0(2) obtain m1 where
    m1: "create_tensors new_ok ?is m0 = Inr m1" "mdl_loader m1 = g" by (auto simp: list_all_iff)
  from assms(2) obtain i infos' where "?is = i # infos'" by (cases "gl_tensors g") auto
  with infos m0 m1 assms(6,7) have "load_tensors B type_nm new_ok m0 = Inl AssertFailed"
    by (simp add: load_tensors_def get_backend_type_def)
  with assms(1,3-5) m0(1) show ?thesis by (simp add: model_load_def)
qed

section \<open>The graph\<close>

text \<open>
  C10: the graph of a Qwen model type-checks. For a ggml that follows the documented shape rules,
  weights of the shapes the configuration asks for, a cache that takes and gives rows of a head's
  size, and the inputs of \<open>create_input_tensors\<close>, building the graph succeeds and its output has a
  row of \<open>vocab\<close> logits for each token.
\<close>

theorem graph_shape:
  assumes G: "ggml_shapes G" and h: "hidden_shape cfg h hk dh"
    and A: "cache_shapes G A dh (unat len) hk (unat n_tokens)"
    and emb: "weight G get ''token_embd.weight'' (h * dh) vocab"
    and blocks: "\<forall>i < unat (n_blocks cfg). block_weights G get h hk dh f i"
    and out: "weight G get ''output.weight'' (h * dh) vocab" "optional G get ''output_norm.weight'' (h * dh)"
    and q: "create_input_tensors G n_tokens len qwen_new = Inr q"
  shows "\<exists>t c'. build_graph G A get cfg q c = Inr (t, c') \<and> shaped G t vocab (unat n_tokens) 1"
  by (rule graph_typed [OF assms])

text \<open>The weights of a small model with one block, by name.\<close>

definition demo_cfg :: model_config_t where
  "demo_cfg = \<lparr>nheads = 2, nkv = 1, rope_freq_base = 0, n_blocks = 1, embedding_dim = 8,
     rms_eps = 0, max_context_len = 16\<rparr>"

definition demo_shapes :: "(string \<times> nat list) list" where
  "demo_shapes = [(''token_embd.weight'', [8, 20]), (''output.weight'', [8, 20]),
     (''output_norm.weight'', [8]), (''blk.0.attn_q.weight'', [8, 8]), (''blk.0.attn_q.bias'', [8]),
     (''blk.0.attn_k.weight'', [8, 4]), (''blk.0.attn_v.weight'', [8, 4]),
     (''blk.0.attn_output.weight'', [8, 8]), (''blk.0.attn_norm.weight'', [8]),
     (''blk.0.ffn_up.weight'', [8, 12]), (''blk.0.ffn_gate.weight'', [8, 12]),
     (''blk.0.ffn_down.weight'', [12, 8])]"

definition demo_get :: "string \<Rightarrow> gptr" where
  "demo_get nm = map_option (\<lambda>d. Tensor (OpLoaded nm d) [] nm) (map_of demo_shapes nm)"

text \<open>A cache of 16 positions.\<close>

definition demo_slice :: "int \<Rightarrow> gtensor \<times> gtensor" where
  "demo_slice i = (Tensor (OpView 0 [4, 16, 1]) [] ''K'', Tensor (OpView 0 [4, 16, 1]) [] ''V'')"

lemma demo_names: "blk_name 0 = ''blk.0''"
  by (simp add: blk_name_def nat_dec.simps char_of_48)

lemmas demo_graph_defs = weight_def optional_def block_weights_def hidden_shape_def
  cache_shapes_def demo_cfg_def demo_get_def demo_shapes_def log_cache_def demo_slice_def
  demo_names ref_ggml_def shaped_def

lemma demo_graph_ok:
  "hidden_shape demo_cfg 2 1 4"
  "cache_shapes ref_ggml (log_cache demo_slice) 4 (unat (16 :: u32)) 1 (unat (3 :: u32))"
  "weight ref_ggml demo_get ''token_embd.weight'' (2 * 4) 20"
  "\<forall>i < unat (n_blocks demo_cfg). block_weights ref_ggml demo_get 2 1 4 12 i"
  "optional ref_ggml demo_get ''output_norm.weight'' (2 * 4)"
  by (simp_all add: demo_graph_defs Let_def)

lemma demo_inputs: "\<exists>q. create_input_tensors ref_ggml 3 16 qwen_new = Inr q"
  by (simp add: create_input_tensors_def call_ggml_def ref_ggml_def)

theorem graph_shape_witness:
  "\<exists>q t c'. create_input_tensors ref_ggml 3 16 qwen_new = Inr q \<and>
    build_graph ref_ggml (log_cache demo_slice) demo_get demo_cfg q [] = Inr (t, c') \<and>
    shaped ref_ggml t 20 (unat (3 :: u32)) 1"
proof -
  from demo_inputs obtain q where q: "create_input_tensors ref_ggml 3 16 qwen_new = Inr q" ..
  have "weight ref_ggml demo_get ''output.weight'' (2 * 4) 20" by (simp add: demo_graph_defs)
  from graph_shape [OF ref_ggml_shapes demo_graph_ok(1-4) this demo_graph_ok(5) q] q
  show ?thesis by blast
qed

text \<open>
  A model without an output matrix of its own, as models with tied embeddings are stored, cannot
  be run: all else being well shaped, building the graph dereferences a null pointer.
\<close>

theorem tied_output_null:
  assumes G: "ggml_shapes G" and h: "hidden_shape cfg h hk dh"
    and A: "cache_shapes G A dh (unat len) hk (unat n_tokens)"
    and emb: "weight G get ''token_embd.weight'' (h * dh) vocab"
    and blocks: "\<forall>i < unat (n_blocks cfg). block_weights G get h hk dh f i"
    and out: "get ''output.weight'' = None" "optional G get ''output_norm.weight'' (h * dh)"
    and q: "create_input_tensors G n_tokens len qwen_new = Inr q"
  shows "build_graph G A get cfg q c = Inl NullDeref"
proof -
  from hidden_state_shape [OF G h A emb blocks q] obtain input positions msk cur c1 where
    hs: "input_tensors q = [input, positions, msk]"
    "rbind (run_layer G A (create_embedding_layer get ''token_embd'') input c) (\<lambda>(cur, c).
       blocks_loop G A get cfg positions msk (unat (n_blocks cfg)) 0 cur c) = Inr (cur, c1)"
    "shaped G cur (h * dh) (unat n_tokens) 1" by blast
  from output_layer_null [OF G hs(3) out] hs(1,2) show ?thesis
    by (auto simp: build_graph_def rbind_eq_Inr)
qed

definition tied_get :: "string \<Rightarrow> gptr" where
  "tied_get nm = (if nm = ''output.weight'' then None else demo_get nm)"

theorem tied_output_null_witness:
  "\<exists>q. create_input_tensors ref_ggml 3 16 qwen_new = Inr q \<and>
    build_graph ref_ggml (log_cache demo_slice) tied_get demo_cfg q [] = Inl NullDeref"
proof -
  from demo_inputs obtain q where q: "create_input_tensors ref_ggml 3 16 qwen_new = Inr q" ..
  have emb: "weight ref_ggml tied_get ''token_embd.weight'' (2 * 4) 20"
    and blocks: "\<forall>i < unat (n_blocks demo_cfg). block_weights ref_ggml tied_get 2 1 4 12 i"
    and out: "tied_get ''output.weight'' = None"
    and norm: "optional ref_ggml tied_get ''output_norm.weight'' (2 * 4)"
    using demo_graph_ok(3-5) by (simp_all add: tied_get_def demo_graph_defs Let_def)
  from tied_output_null [OF ref_ggml_shapes demo_graph_ok(1,2) emb blocks out norm q] q
  show ?thesis by blast
qed

text \<open>
  Building the graph writes the keys and values of every block to the cache exactly once, in the
  order of the blocks, whatever the weights are.
\<close>

theorem layers_write_in_order:
  assumes "build_graph G (log_cache sl) get cfg q [] = Inr (t, written)"
  shows "written = map int [0..<unat (n_blocks cfg)]"
  using build_graph_writes [OF assms] by simp

theorem layers_write_in_order_witness:
  "\<exists>q t. create_input_tensors ref_ggml 3 16 qwen_new = Inr q \<and>
    build_graph ref_ggml (log_cache demo_slice) demo_get demo_cfg q [] = Inr (t, [0])"
proof -
  from demo_inputs obtain q where q: "create_input_tensors ref_ggml 3 16 qwen_new = Inr q" ..
  have out: "weight ref_ggml demo_get ''output.weight'' (2 * 4) 20" by (simp add: demo_graph_defs)
  from graph_typed [OF ref_ggml_shapes demo_graph_ok(1-4) out demo_graph_ok(5) q] obtain t c' where
    t: "build_graph ref_ggml (log_cache demo_slice) demo_get demo_cfg q [] = Inr (t, c')" by blast
  have "c' = [0]" using layers_write_in_order [OF t] by (simp add: demo_cfg_def)
  with q t show ?thesis by blast
qed

section \<open>Inputs\<close>

text \<open>
  C15: the attention mask is causal. For a graph of a context of \<open>len\<close> rows, token number \<open>i\<close> of the
  input stands at position \<open>past + i\<close> and sees exactly the rows up to its own position.
\<close>

theorem mask_causal:
  assumes "create_input_tensors G n_tokens len qwen_new = Inr q" and "ggml_shapes G"
    and "length tokens \<le> unat n_tokens" and "0 \<le> past" and "past + int (length tokens) \<le> 2 ^ 31"
    and "unat len \<le> 2 ^ 31"
  shows "\<exists>pos rows. set_inputs G visible hidden q tokens past = Inr (tokens, pos, rows) \<and>
    pos = map (\<lambda>i. past + int i) [0..<length tokens] \<and> length rows = length tokens * unat len \<and>
    (\<forall>i < length tokens. \<forall>k < unat len.
      rows ! (i * unat len + k) = (if int k \<le> past + int i then visible else hidden))"
  by (rule set_inputs_ok [OF assms])

theorem mask_causal_witness:
  "\<exists>q pos rows. set_inputs ref_ggml (0 :: nat) 1 q [5, 6] 2 = Inr ([5, 6], pos, rows) \<and>
    pos = [2, 3] \<and> rows ! (1 * 16 + 3) = 0 \<and> rows ! (1 * 16 + 4) = 1"
proof -
  from demo_inputs obtain q where q: "create_input_tensors ref_ggml 3 16 qwen_new = Inr q" ..
  from mask_causal [OF q ref_ggml_shapes, of "[5, 6]" 2 "0 :: nat" 1] obtain pos rows where
    s: "set_inputs ref_ggml (0 :: nat) 1 q [5, 6] 2 = Inr ([5, 6], pos, rows)"
    and p: "pos = map (\<lambda>i. 2 + int i) [0..<length [5 :: int, 6]]"
    and m: "\<And>i k. i < length [5 :: int, 6] \<Longrightarrow> k < unat (16 :: u32) \<Longrightarrow>
      rows ! (i * unat (16 :: u32) + k) = (if int k \<le> 2 + int i then 0 else 1)" by auto
  from p have "pos = [2, 3]" by (simp add: upt_rec)
  moreover have "rows ! (1 * 16 + 3) = 0" "rows ! (1 * 16 + 4) = 1" using m [of 1 3] m [of 1 4] by simp_all
  ultimately show ?thesis using s by blast
qed

end
