(* ===== verification/Engine.thy ===== *)
theory Engine
  imports Inference_Loop Qwen_Facts KV_Cache
begin

text \<open>
  The prediction of \<open>src/inference/inference.cpp\<close> with the graph in it: \<open>Inference_Loop\<close> has the
  generation over an abstract engine, here the engine is the Qwen graph, its inputs and its cache.
  ggml computes the values of a graph; scheduler and computation are parameters.
\<close>

section \<open>State\<close>

text \<open>
  \<open>en_reserve\<close>: the scheduler can reserve memory for the graph of an output tensor; \<open>en_compute\<close>:
  the values of the output for the data of the inputs, or a failed status. The computation may
  change the state of the device, where the cache's contents are.
\<close>

record ('h, 'f, 's, 'c) engine =
  en_ggml :: ggml
  en_cache :: "'c cache_api"
  en_get :: "string \<Rightarrow> gptr"
  en_visible :: 'h
  en_hidden :: 'h
  en_ctx_size :: "nat \<Rightarrow> nat"
  en_reserve :: "gtensor \<Rightarrow> bool"
  en_compute :: "gtensor \<Rightarrow> int list \<times> int list \<times> 'h list \<Rightarrow> 's \<Rightarrow> ('f list \<times> 's) option"

record ('s, 'c) engine_state =
  es_ctx_buffer :: nat
  es_cached :: u32
  es_ready :: bool
  es_inputs :: qwen
  es_output :: gptr
  es_cache :: 'c
  es_device :: 's

definition engine_new :: "'c \<Rightarrow> 's \<Rightarrow> ('s, 'c) engine_state" where
  "engine_new c s = \<lparr>es_ctx_buffer = 0, es_cached = 0, es_ready = False, es_inputs = qwen_new,
     es_output = None, es_cache = c, es_device = s\<rparr>"

text \<open>
  The cache the constructor of \<open>Inference\<close> makes; \<open>cfg.embedding_dim / cfg.nheads\<close> is a division of
  unsigned integers.
\<close>

definition inference_cache :: "model_config_t res \<Rightarrow> kv_cache res" where
  "inference_cache config = rbind config (\<lambda>cfg.
     if nheads cfg = 0 then Inl DivisionByZero
     else Inr (kv_new (wrap32 (uint (max_context_len cfg))) (wrap32 (uint (n_blocks cfg)))
       (wrap32 (uint (nkv cfg))) (wrap32 (uint (embedding_dim cfg div ucast (nheads cfg))))))"

section \<open>Prediction\<close>

definition set_output :: "gtensor \<Rightarrow> ('s, 'c) engine_state \<Rightarrow> ('s, 'c) engine_state" where
  "set_output out st = st\<lparr>es_output := Some out\<rparr>"

text \<open>A new context, the input tensors and the graph for \<open>n_tokens\<close> tokens.\<close>

definition rebuild_graph :: "('h, 'f, 's, 'c) engine \<Rightarrow> model_config_t \<Rightarrow> u32 \<Rightarrow> u32
    \<Rightarrow> ('s, 'c) engine_state \<Rightarrow> ('s, 'c) engine_state res" where
  "rebuild_graph E cfg n_tokens len st =
     (let ctx_size = en_ctx_size E (unat (n_blocks cfg * 64 + 256));
          st = st\<lparr>es_ctx_buffer := max (es_ctx_buffer st) ctx_size, es_ready := False\<rparr> in
      rbind (create_input_tensors (en_ggml E) n_tokens len (es_inputs st)) (\<lambda>q.
      rbind (build_graph (en_ggml E) (en_cache E) (en_get E) cfg q (es_cache st)) (\<lambda>(out, c).
      Inr (set_output out (st\<lparr>es_inputs := q, es_cache := c\<rparr>)))))"

definition prepare_graph :: "('h, 'f, 's, 'c) engine \<Rightarrow> u32 \<Rightarrow> ('s, 'c) engine_state
    \<Rightarrow> (bool \<times> ('s, 'c) engine_state) res" where
  "prepare_graph E n_tokens st = (case es_output st of None \<Rightarrow> Inl NullDeref
     | Some out \<Rightarrow> if \<not> en_reserve E out then Inr (False, st)
         else Inr (True, st\<lparr>es_cached := n_tokens, es_ready := True\<rparr>))"

text \<open>The inputs are set and the graph is computed; \<open>None\<close> stands for the null pointer returned.\<close>

definition compute_graph :: "('h, 'f, 's, 'c) engine \<Rightarrow> int list \<Rightarrow> int \<Rightarrow> ('s, 'c) engine_state
    \<Rightarrow> ((gtensor \<times> 'f list) option \<times> ('s, 'c) engine_state) res" where
  "compute_graph E tokens past st =
     rbind (set_inputs (en_ggml E) (en_visible E) (en_hidden E) (es_inputs st) tokens past) (\<lambda>data.
     case es_output st of None \<Rightarrow> Inl NullDeref
     | Some out \<Rightarrow>
         (case en_compute E out data (es_device st) of
            None \<Rightarrow> Inr (None, st)
          | Some (vals, s) \<Rightarrow> Inr (Some (out, vals), st\<lparr>es_device := s\<rparr>)))"

text \<open>
  The values of the last token: \<open>offset\<close> counts bytes of an \<open>F32\<close> tensor and is an unsigned 64-bit
  integer; \<open>ggml_backend_tensor_get\<close> asserts that the bytes are inside the tensor.
\<close>

definition last_row :: "ggml \<Rightarrow> gtensor \<Rightarrow> 'f list \<Rightarrow> nat \<Rightarrow> 'f list res" where
  "last_row G out vals n =
     (let offset = unat ((of_nat n - 1) * of_nat (g_ne G out 0) * 4 :: u64) in
      if 4 * length vals < offset + g_ne G out 0 * 4 then Inl AssertFailed
      else Inr (take (g_ne G out 0) (drop (offset div 4) vals)))"

definition read_logits :: "('h, 'f, 's, 'c) engine \<Rightarrow> int list \<Rightarrow> int
    \<Rightarrow> ('s, 'c) engine_state \<Rightarrow> ('f list \<times> ('s, 'c) engine_state) res" where
  "read_logits E tokens past st =
     rbind (compute_graph E tokens past st) (\<lambda>(out, st).
     rbind (case out of None \<Rightarrow> Inl NullDeref
       | Some (out, vals) \<Rightarrow>
           if g_ne (en_ggml E) out 1 < length tokens then Inl AssertFailed
           else last_row (en_ggml E) out vals (length tokens)) (\<lambda>logits.
     Inr (logits, st)))"

text \<open>The cached graph, or a new one if there is none or the number of tokens has changed.\<close>

definition ensure_graph :: "('h, 'f, 's, 'c) engine \<Rightarrow> model_config_t \<Rightarrow> u32 \<Rightarrow> int list
    \<Rightarrow> ('s, 'c) engine_state \<Rightarrow> (bool \<times> ('s, 'c) engine_state) res" where
  "ensure_graph E cfg len tokens st =
     (let n_tokens = of_nat (length tokens) in
      if \<not> es_ready st \<or> n_tokens \<noteq> es_cached st
      then rbind (rebuild_graph E cfg n_tokens len st) (prepare_graph E n_tokens)
      else Inr (True, st))"

definition predict_graph :: "('h, 'f, 's, 'c) engine \<Rightarrow> model_config_t res \<Rightarrow> u32 \<Rightarrow> int list \<Rightarrow> int
    \<Rightarrow> ('s, 'c) engine_state \<Rightarrow> ('f list \<times> ('s, 'c) engine_state) res" where
  "predict_graph E config len tokens past st =
     rbind config (\<lambda>cfg.
     rbind (ensure_graph E cfg len tokens st) (\<lambda>(ok, st).
     if \<not> ok then Inr ([], st) else read_logits E tokens past st))"

text \<open>The calls of a run: the inputs one after the other, each behind the tokens before it.\<close>

fun predict_all :: "('h, 'f, 's, 'c) engine \<Rightarrow> model_config_t res \<Rightarrow> u32 \<Rightarrow> int list list \<Rightarrow> int
    \<Rightarrow> ('s, 'c) engine_state \<Rightarrow> ('f list list \<times> ('s, 'c) engine_state) res" where
  "predict_all E config len [] past st = Inr ([], st)"
| "predict_all E config len (tokens # inputs) past st =
     rbind (predict_graph E config len tokens past st) (\<lambda>(logits, st).
     rbind (predict_all E config len inputs (past + int (length tokens)) st) (\<lambda>(rest, st).
     Inr (logits # rest, st)))"

section \<open>Facts\<close>

text \<open>What the shape theorem asks, for a graph of \<open>n\<close> tokens; the values fill the output tensor.\<close>

definition qwen_typed :: "('h, 'f, 's, 'c) engine \<Rightarrow> model_config_t \<Rightarrow> nat \<Rightarrow> u32 \<Rightarrow> u32 \<Rightarrow> bool" where
  "qwen_typed E cfg vocab len n \<longleftrightarrow> (\<exists>h hk dh f.
     ggml_shapes (en_ggml E) \<and> hidden_shape cfg h hk dh \<and>
     cache_shapes (en_ggml E) (en_cache E) dh (unat len) hk (unat n) \<and>
     weight (en_ggml E) (en_get E) ''token_embd.weight'' (h * dh) vocab \<and>
     (\<forall>i < unat (n_blocks cfg). block_weights (en_ggml E) (en_get E) h hk dh f i) \<and>
     weight (en_ggml E) (en_get E) ''output.weight'' (h * dh) vocab \<and>
     optional (en_ggml E) (en_get E) ''output_norm.weight'' (h * dh))"

definition engine_computes :: "('h, 'f, 's, 'c) engine \<Rightarrow> bool" where
  "engine_computes E \<longleftrightarrow> (\<forall>out. en_reserve E out) \<and>
     (\<forall>out data s. \<exists>vals s'. en_compute E out data s = Some (vals, s') \<and>
        length vals = g_ne (en_ggml E) out 0 * g_ne (en_ggml E) out 1)"

text \<open>The invariant: a graph that is ready has the inputs and the output of its number of tokens.\<close>

definition engine_ok :: "('h, 'f, 's, 'c) engine \<Rightarrow> nat \<Rightarrow> u32 \<Rightarrow> ('s, 'c) engine_state \<Rightarrow> bool" where
  "engine_ok E vocab len st \<longleftrightarrow> (es_ready st \<longrightarrow>
     create_input_tensors (en_ggml E) (es_cached st) len qwen_new = Inr (es_inputs st) \<and>
     (\<exists>out. es_output st = Some out \<and> shaped (en_ggml E) out vocab (unat (es_cached st)) 1))"

lemma create_inputs_any: "create_input_tensors G n len q = create_input_tensors G n len qwen_new"
  by (simp add: create_input_tensors_def)

lemma create_inputs_ok:
  assumes "ggml_shapes G"
  shows "\<exists>q. create_input_tensors G n len qwen_new = Inr q"
  using new1_call [OF assms, of TYPE_I32 "unat n"] new2_call [OF assms, of TYPE_F16 "unat len" "unat n"]
  by (auto simp: create_input_tensors_def)

lemma rebuild_graph_ok:
  assumes t: "qwen_typed E cfg vocab len n"
  obtains st' where "rebuild_graph E cfg n len st = Inr st'"
    "create_input_tensors (en_ggml E) n len qwen_new = Inr (es_inputs st')"
    "\<exists>out. es_output st' = Some out \<and> shaped (en_ggml E) out vocab (unat n) 1"
proof -
  from t obtain h hk dh f where a: "ggml_shapes (en_ggml E)" "hidden_shape cfg h hk dh"
    "cache_shapes (en_ggml E) (en_cache E) dh (unat len) hk (unat n)"
    "weight (en_ggml E) (en_get E) ''token_embd.weight'' (h * dh) vocab"
    "\<forall>i < unat (n_blocks cfg). block_weights (en_ggml E) (en_get E) h hk dh f i"
    "weight (en_ggml E) (en_get E) ''output.weight'' (h * dh) vocab"
    "optional (en_ggml E) (en_get E) ''output_norm.weight'' (h * dh)"
    unfolding qwen_typed_def by blast
  from create_inputs_ok [OF a(1)] obtain q where
    q: "create_input_tensors (en_ggml E) n len qwen_new = Inr q" ..
  from graph_typed [OF a q, of "es_cache st"] obtain out c where
    g: "build_graph (en_ggml E) (en_cache E) (en_get E) cfg q (es_cache st) = Inr (out, c)"
    "shaped (en_ggml E) out vocab (unat n) 1" by blast
  then obtain st' where "rebuild_graph E cfg n len st = Inr st'" "es_inputs st' = q"
    "es_output st' = Some out"
    using q by (simp add: rebuild_graph_def Let_def create_inputs_any [of _ _ _ "es_inputs st"] set_output_def)
  with q g(2) that show ?thesis by auto
qed

lemma last_row_ok:
  assumes "shaped G out vocab k 1" and "length vals = vocab * k" and "0 < n" and "n \<le> k"
    and "vocab * k * 4 < 2 ^ 64"
  shows "last_row G out vals n = Inr (take vocab (drop ((n - 1) * vocab) vals))"
proof -
  have m: "(n - 1) * vocab * 4 + vocab * 4 \<le> vocab * k * 4"
  proof -
    have "(n - 1) * vocab + vocab = n * vocab" using assms(3) by (cases n) simp_all
    moreover have "n * vocab \<le> vocab * k" using mult_le_mono1 [OF assms(4), of vocab] by (simp only: mult.commute)
    ultimately show ?thesis by linarith
  qed
  have "(of_nat n - 1) * of_nat vocab * 4 = (of_nat ((n - 1) * vocab * 4) :: u64)"
    using assms(3) by (simp add: of_nat_diff)
  moreover have "unat (of_nat x :: u64) = x" if "x < 2 ^ 64" for x
    using that by (simp add: unat_of_nat)
  from this [of "(n - 1) * vocab * 4"] have
    "unat (of_nat ((n - 1) * vocab * 4) :: u64) = (n - 1) * vocab * 4" using m assms(5) by linarith
  ultimately show ?thesis using assms(1,2) m
    by (simp add: last_row_def shaped_def Let_def)
qed

text \<open>One prediction up to the values of the output: the state it leaves is ready for as many tokens.\<close>

lemma values_ok:
  assumes t: "qwen_typed E cfg vocab len (of_nat (length tokens))" and E: "engine_computes E"
    and ok: "engine_ok E vocab len st" and "tokens \<noteq> []" and "length tokens < 2 ^ 31"
    and "0 \<le> past" and "past + int (length tokens) \<le> 2 ^ 31" and "unat len \<le> 2 ^ 31"
    and "vocab < 2 ^ 31"
  shows "\<exists>st1 out data vals st'. ensure_graph E cfg len tokens st = Inr (True, st1) \<and>
    compute_graph E tokens past st1 = Inr (Some (out, vals), st') \<and>
    shaped (en_ggml E) out vocab (length tokens) 1 \<and> length vals = vocab * length tokens \<and>
    en_compute E out data (es_device st) = Some (vals, es_device st') \<and> fst data = tokens \<and>
    fst (snd data) = map (\<lambda>i. past + int i) [0..<length tokens] \<and>
    engine_ok E vocab len st' \<and> es_ready st' \<and> es_cached st' = of_nat (length tokens)"
proof -
  let ?n = "of_nat (length tokens) :: u32"
  have n: "unat ?n = length tokens" using assms(5) by (simp add: unat_of_nat)
  have G: "ggml_shapes (en_ggml E)" using t unfolding qwen_typed_def by blast
  obtain st1 where st1: "ensure_graph E cfg len tokens st = Inr (True, st1)"
    "engine_ok E vocab len st1" "es_ready st1" "es_cached st1 = ?n" "es_device st1 = es_device st"
  proof (cases "\<not> es_ready st \<or> ?n \<noteq> es_cached st")
    case True
    from rebuild_graph_ok [OF t, of st] obtain st' out where
      r: "rebuild_graph E cfg ?n len st = Inr st'"
      "create_input_tensors (en_ggml E) ?n len qwen_new = Inr (es_inputs st')"
      "es_output st' = Some out" "shaped (en_ggml E) out vocab (unat ?n) 1" by blast
    from r(1) have "es_device st' = es_device st"
      by (auto simp: rebuild_graph_def rbind_eq_Inr Let_def set_output_def)
    with True r E show ?thesis
      by (intro that [of "st'\<lparr>es_cached := ?n, es_ready := True\<rparr>"])
        (simp_all add: ensure_graph_def prepare_graph_def engine_computes_def engine_ok_def Let_def)
  next
    case False
    with ok show ?thesis by (intro that [of st]) (simp_all add: ensure_graph_def Let_def)
  qed
  then obtain out where out: "es_output st1 = Some out" "shaped (en_ggml E) out vocab (unat ?n) 1"
    and q: "create_input_tensors (en_ggml E) ?n len qwen_new = Inr (es_inputs st1)"
    by (auto simp: engine_ok_def)
  from set_inputs_ok [OF q G, of tokens past "en_visible E" "en_hidden E"] assms(6-8) n obtain pos rows where
    i: "set_inputs (en_ggml E) (en_visible E) (en_hidden E) (es_inputs st1) tokens past
      = Inr (tokens, pos, rows)" "pos = map (\<lambda>i. past + int i) [0..<length tokens]" by auto
  from E obtain vals s where
    v: "en_compute E out (tokens, pos, rows) (es_device st1) = Some (vals, s)"
    "length vals = g_ne (en_ggml E) out 0 * g_ne (en_ggml E) out 1"
    unfolding engine_computes_def by blast
  have len: "length vals = vocab * length tokens" using v(2) out(2) n by (simp add: shaped_def)
  let ?st2 = "st1\<lparr>es_device := s\<rparr>"
  have "compute_graph E tokens past st1 = Inr (Some (out, vals), ?st2)"
    using out i(1) v(1) by (simp add: compute_graph_def)
  moreover have "engine_ok E vocab len ?st2" using st1(2) by (simp add: engine_ok_def)
  ultimately show ?thesis using len v(1) st1 i(2) out(2) n
    by (intro exI [of _ st1] exI [of _ out] exI [of _ "(tokens, pos, rows)"] exI [of _ vals] exI [of _ ?st2]) simp
qed

lemma last_row_typed:
  assumes "shaped G out vocab (length tokens) 1" and "length vals = vocab * length tokens"
    and "tokens \<noteq> []" and "length tokens < 2 ^ 31" and "vocab < 2 ^ 31"
  shows "last_row G out vals (length tokens) = Inr (drop ((length tokens - 1) * vocab) vals)"
proof -
  have "vocab * length tokens \<le> (2 ^ 31 - 1) * (2 ^ 31 - 1)"
    by (rule mult_le_mono) (use assms(4,5) in simp_all)
  then have "vocab * length tokens * 4 < 2 ^ 64" by simp
  with last_row_ok [OF assms(1,2), of "length tokens"] assms(3) have
    "last_row G out vals (length tokens) = Inr (take vocab (drop ((length tokens - 1) * vocab) vals))"
    by simp
  moreover have "length (drop ((length tokens - 1) * vocab) vals) = vocab"
  proof -
    have "vocab * length tokens = (length tokens - 1) * vocab + vocab"
      using assms(3) by (cases tokens) simp_all
    with assms(2) show ?thesis by simp
  qed
  ultimately show ?thesis by simp
qed

text \<open>The logits are the last row.\<close>

lemma predict_graph_ok:
  assumes "qwen_typed E cfg vocab len (of_nat (length tokens))" and "engine_computes E"
    and "engine_ok E vocab len st" and "tokens \<noteq> []" and "length tokens < 2 ^ 31"
    and "0 \<le> past" and "past + int (length tokens) \<le> 2 ^ 31" and "unat len \<le> 2 ^ 31"
    and "vocab < 2 ^ 31"
  shows "\<exists>out data vals st'. predict_graph E (Inr cfg) len tokens past st
      = Inr (drop ((length tokens - 1) * vocab) vals, st') \<and> length vals = vocab * length tokens \<and>
    en_compute E out data (es_device st) = Some (vals, es_device st') \<and> fst data = tokens \<and>
    fst (snd data) = map (\<lambda>i. past + int i) [0..<length tokens] \<and>
    engine_ok E vocab len st' \<and> es_ready st' \<and> es_cached st' = of_nat (length tokens)"
proof -
  from values_ok [OF assms] obtain st1 out data vals st' where
    v: "ensure_graph E cfg len tokens st = Inr (True, st1)"
    "compute_graph E tokens past st1 = Inr (Some (out, vals), st')"
    "shaped (en_ggml E) out vocab (length tokens) 1" "length vals = vocab * length tokens"
    "en_compute E out data (es_device st) = Some (vals, es_device st')" "fst data = tokens"
    "fst (snd data) = map (\<lambda>i. past + int i) [0..<length tokens]"
    "engine_ok E vocab len st'" "es_ready st'" "es_cached st' = of_nat (length tokens)" by blast
  have "predict_graph E (Inr cfg) len tokens past st
      = Inr (drop ((length tokens - 1) * vocab) vals, st')"
    using v(1,2,3) last_row_typed [OF v(3,4) assms(4,5,9)]
    by (simp add: predict_graph_def read_logits_def shaped_def)
  with v(4-10) show ?thesis by blast
qed

section \<open>What a run writes to the cache\<close>

lemma rebuild_graph_writes:
  assumes "rebuild_graph E cfg n len st = Inr st'" and "en_cache E = log_cache sl"
  shows "es_cache st' = es_cache st @ map int [0..<unat (n_blocks cfg)]"
  using assms by (auto simp: rebuild_graph_def set_output_def rbind_eq_Inr Let_def dest: build_graph_writes)

lemma prepare_graph_True:
  "prepare_graph E n st = Inr (True, st') \<Longrightarrow> st' = st\<lparr>es_cached := n, es_ready := True\<rparr>"
  by (auto simp: prepare_graph_def split: option.splits if_splits)

lemma compute_graph_keeps:
  assumes "compute_graph E tokens past st = Inr (out, st')"
  shows "es_cache st' = es_cache st \<and> es_ready st' = es_ready st \<and> es_cached st' = es_cached st"
proof (cases "es_output st")
  case (Some t)
  with assms obtain data where d: "set_inputs (en_ggml E) (en_visible E) (en_hidden E)
      (es_inputs st) tokens past = Inr data" by (auto simp: compute_graph_def rbind_eq_Inr)
  with assms Some show ?thesis
    by (cases "en_compute E t data (es_device st)") (auto simp: compute_graph_def)
qed (use assms in \<open>auto simp: compute_graph_def rbind_eq_Inr\<close>)

lemma predict_graph_writes:
  assumes p: "predict_graph E (Inr cfg) len tokens past st = Inr (logits, st')"
    and E: "en_cache E = log_cache sl" "\<And>out. en_reserve E out"
  shows "es_cache st' = (if es_ready st \<and> es_cached st = of_nat (length tokens) then es_cache st
      else es_cache st @ map int [0..<unat (n_blocks cfg)])
    \<and> es_ready st' \<and> es_cached st' = of_nat (length tokens)"
proof -
  let ?n = "of_nat (length tokens) :: u32"
  obtain ok st1 where r: "ensure_graph E cfg len tokens st = Inr (ok, st1)"
    and c: "(if \<not> ok then Inr ([], st1) else read_logits E tokens past st1) = Inr (logits, st')"
    using p by (auto simp: predict_graph_def rbind_eq_Inr Let_def)
  have ok using r E(2) by (auto simp: ensure_graph_def Let_def rbind_eq_Inr prepare_graph_def split: if_splits option.splits)
  have "es_cache st1 = (if es_ready st \<and> es_cached st = ?n then es_cache st
      else es_cache st @ map int [0..<unat (n_blocks cfg)]) \<and> es_ready st1 \<and> es_cached st1 = ?n"
  proof (cases "\<not> es_ready st \<or> ?n \<noteq> es_cached st")
    case True
    with r \<open>ok\<close> obtain st2 where "rebuild_graph E cfg ?n len st = Inr st2"
      "prepare_graph E ?n st2 = Inr (True, st1)" by (auto simp: ensure_graph_def Let_def rbind_eq_Inr)
    from rebuild_graph_writes [OF this(1) E(1)] prepare_graph_True [OF this(2)] True
    show ?thesis by auto
  qed (use r in \<open>auto simp: ensure_graph_def Let_def\<close>)
  moreover from c \<open>ok\<close> obtain out where "compute_graph E tokens past st1 = Inr (out, st')"
    by (auto simp: read_logits_def rbind_eq_Inr)
  ultimately show ?thesis by (auto dest!: compute_graph_keeps)
qed

lemma predict_all_same:
  assumes "predict_all E (Inr cfg) len (map (\<lambda>t. [t]) ts) past st = Inr (ls, st')"
    and "en_cache E = log_cache sl" "\<And>out. en_reserve E out" and "es_ready st" "es_cached st = 1"
  shows "es_cache st' = es_cache st"
  using assms(1,4,5)
proof (induction ts arbitrary: past st ls)
  case (Cons t ts)
  from Cons.prems(1) obtain l st1 rest where
    p: "predict_graph E (Inr cfg) len [t] past st = Inr (l, st1)"
    and r: "predict_all E (Inr cfg) len (map (\<lambda>t. [t]) ts) (past + 1) st1 = Inr (rest, st')"
    by (auto simp: rbind_eq_Inr)
  from predict_graph_writes [OF p assms(2,3)] Cons.prems(2,3) Cons.IH [OF r] show ?case by simp
qed simp

end
