(* ===== verification/Engine_Run.thy ===== *)
theory Engine_Run
  imports Engine Inference_Facts
begin

text \<open>
  The generation loop on the Qwen graph: \<open>Engine\<close> as an engine of \<open>Inference_Loop\<close>, the refinement
  between their predictions, and what follows for a run.
\<close>

section \<open>The graph as an engine\<close>

text \<open>The values of an output of \<open>n\<close> rows of \<open>k\<close> values, row by row.\<close>

definition rows_of :: "nat \<Rightarrow> nat \<Rightarrow> 'f list \<Rightarrow> 'f list list" where
  "rows_of k n vals = map (\<lambda>i. take k (drop (i * k) vals)) [0..<n]"

text \<open>A graph that cannot be built, reserved or computed is a failed computation.\<close>

definition engine_backend :: "('h, 'f, 's, 'c) engine \<Rightarrow> model_config_t \<Rightarrow> u32
    \<Rightarrow> (('s, 'c) engine_state, 'f) backend" where
  "engine_backend E cfg len =
     \<lparr>be_ctx_size = en_ctx_size E, be_reserve = (\<lambda>n. True),
      be_compute = (\<lambda>st tokens past.
        case rbind (ensure_graph E cfg len tokens st) (\<lambda>(ok, st).
          if ok then compute_graph E tokens past st else Inr (None, st)) of
          Inr (Some (out, vals), st) \<Rightarrow>
            Some (rows_of (g_ne (en_ggml E) out 0) (g_ne (en_ggml E) out 1) vals, st)
        | _ \<Rightarrow> None)\<rparr>"

section \<open>Refinement\<close>

text \<open>The loop's view of the graph agrees with the engine's.\<close>

definition view_ok :: "('s, 'c) engine_state inference \<Rightarrow> bool" where
  "view_ok ie \<longleftrightarrow> graph_ready ie = es_ready (inf_engine ie) \<and> cached_n_tokens ie = es_cached (inf_engine ie)"

text \<open>The tokens a model is typed for, and the bounds of the other sizes.\<close>

definition engine_fits :: "('h, 'f, 's, 'c) engine \<Rightarrow> model_config_t \<Rightarrow> nat \<Rightarrow> u32 \<Rightarrow> int list \<Rightarrow> bool" where
  "engine_fits E cfg vocab len tokens \<longleftrightarrow> tokens \<noteq> [] \<and> length tokens < 2 ^ 31 \<and>
     qwen_typed E cfg vocab len (of_nat (length tokens)) \<and> qwen_typed E cfg vocab len 1 \<and>
     engine_computes E \<and> unat len \<le> 2 ^ 31 \<and> vocab < 2 ^ 31"

definition engine_inv :: "('h, 'f, 's, 'c) engine \<Rightarrow> nat \<Rightarrow> u32 \<Rightarrow> ('s, 'c) engine_state inference \<Rightarrow> bool" where
  "engine_inv E vocab len ie \<longleftrightarrow> view_ok ie \<and> engine_ok E vocab len (inf_engine ie)"

lemma last_of_nat: "0 < n \<Longrightarrow> n < 2 ^ 31 \<Longrightarrow> unat (of_nat n - 1 :: u64) = n - 1"
proof -
  assume n: "0 < n" "n < 2 ^ 31"
  then have "of_nat n - 1 = (of_nat (n - 1) :: u64)" by (simp add: of_nat_diff)
  then show ?thesis using n by (simp only: unat_of_nat) (simp add: take_bit_nat_eq_self)
qed

lemma predict_refines:
  assumes "engine_fits E cfg vocab len tokens" and "engine_inv E vocab len ie"
    and "0 \<le> past" and "past + int (length tokens) \<le> 2 ^ 31"
  shows "\<exists>logits ie'. predict (engine_backend E cfg len) (n_blocks cfg) tokens past ie = Inr (logits, ie') \<and>
    predict_graph E (Inr cfg) len tokens past (inf_engine ie) = Inr (logits, inf_engine ie') \<and>
    length logits = vocab \<and> engine_inv E vocab len ie'"
proof -
  let ?st = "inf_engine ie" and ?n = "of_nat (length tokens) :: u32"
  have f: "tokens \<noteq> []" "length tokens < 2 ^ 31" "qwen_typed E cfg vocab len ?n" "engine_computes E"
    "unat len \<le> 2 ^ 31" "vocab < 2 ^ 31" using assms(1) by (simp_all add: engine_fits_def)
  have i: "view_ok ie" "engine_ok E vocab len ?st" using assms(2) by (simp_all add: engine_inv_def)
  from values_ok [OF f(3,4) i(2) f(1,2) assms(3,4) f(5,6)] obtain st1 out data vals st' where
    v: "ensure_graph E cfg len tokens ?st = Inr (True, st1)"
    "compute_graph E tokens past st1 = Inr (Some (out, vals), st')"
    "shaped (en_ggml E) out vocab (length tokens) 1" "length vals = vocab * length tokens"
    "engine_ok E vocab len st'" "es_ready st'" "es_cached st' = ?n" by blast
  let ?rows = "rows_of vocab (length tokens) vals"
  let ?logits = "drop ((length tokens - 1) * vocab) vals"
  have ne: "g_ne (en_ggml E) out 0 = vocab" "g_ne (en_ggml E) out 1 = length tokens"
    using v(3) by (simp_all add: shaped_def)
  have compute: "be_compute (engine_backend E cfg len) ?st tokens past = Some (?rows, st')"
    using v(1,2) ne by (simp add: engine_backend_def)
  have len: "length ?logits = vocab"
  proof -
    have "vocab * length tokens = (length tokens - 1) * vocab + vocab" using f(1) by (cases tokens) simp_all
    with v(4) show ?thesis by simp
  qed
  then have row: "?rows ! (length tokens - 1) = ?logits"
    using f(1) by (simp add: rows_of_def)
  obtain ie2 where ie2: "(if \<not> graph_ready ie \<or> ?n \<noteq> cached_n_tokens ie
      then prepare (engine_backend E cfg len) ?n (new_graph (init_context (engine_backend E cfg len)
        (unat (n_blocks cfg * 64 + 256)) ie)) else (True, ie)) = (True, ie2)"
    "inf_engine ie2 = ?st" "graph_ready ie2" "cached_n_tokens ie2 = ?n"
    by (cases "\<not> graph_ready ie \<or> ?n \<noteq> cached_n_tokens ie")
      (auto simp: prepare_def new_graph_def init_context_def engine_backend_def Let_def)
  have "vec_at ?rows (unat (of_nat (length tokens) - 1 :: u64)) = Inr ?logits"
    using last_of_nat [of "length tokens"] f(1,2) row by (simp add: vec_at_def rows_of_def)
  then have "predict (engine_backend E cfg len) (n_blocks cfg) tokens past ie
      = Inr (?logits, ie2\<lparr>inf_engine := st'\<rparr>)"
    using ie2(1,2) compute unfolding predict_def Let_def
    by (simp add: compute_def rows_of_def del: nth_drop)
  moreover have "predict_graph E (Inr cfg) len tokens past ?st = Inr (?logits, st')"
    using v(1,2) ne last_row_typed [OF v(3,4) f(1,2,6)] by (simp add: predict_graph_def read_logits_def)
  moreover have "engine_inv E vocab len (ie2\<lparr>inf_engine := st'\<rparr>)"
    using v(5-7) ie2(3,4) by (simp add: engine_inv_def view_ok_def)
  ultimately show ?thesis using len
    by (intro exI [of _ ?logits] exI [of _ "ie2\<lparr>inf_engine := st'\<rparr>"]) simp
qed

text \<open>So the Qwen graph is an engine the loop can rely on.\<close>

interpretation qwen: steady_engine "engine_backend E cfg len" "n_blocks cfg"
    "engine_fits E cfg vocab len" "engine_inv E vocab len"
  for E :: "('h, 'f, 's, 'c) engine" and cfg vocab len
proof unfold_locales
  fix tokens t past and ie :: "('s, 'c) engine_state inference"
  show "engine_fits E cfg vocab len [t]" if "engine_fits E cfg vocab len tokens"
    using that by (simp add: engine_fits_def)
  show "tokens \<noteq> []" if "engine_fits E cfg vocab len tokens"
    using that by (simp add: engine_fits_def)
  show "\<exists>logits ie'. predict (engine_backend E cfg len) (n_blocks cfg) tokens past ie = Inr (logits, ie')
      \<and> engine_inv E vocab len ie'"
    if "engine_fits E cfg vocab len tokens" "engine_inv E vocab len ie" "0 \<le> past"
      "past + int (length tokens) \<le> 2 ^ 31"
    using predict_refines [OF that] by blast
qed

lemma engine_inv_new: "engine_inv E vocab len (inference_new (engine_new c s))"
  by (simp add: engine_inv_def view_ok_def inference_new_def engine_new_def engine_ok_def)

text \<open>A run on the graph ends in a result.\<close>

lemma qwen_run_returns:
  assumes "re_backend R = engine_backend E cfg len" and "re_n_blocks R = n_blocks cfg"
    and "engine_fits E cfg vocab len tokens" and "unat max_tokens < 2 ^ 31"
    and "length tokens + unat max_tokens \<le> 2 ^ 31"
  shows "\<exists>r toks. generate R z max_tokens tokens (inference_new (engine_new c s)) evs = Inr r \<and>
    gr_output r = concat toks \<and> length toks \<le> unat max_tokens"
proof -
  have "tokens \<noteq> []" using assms(3) by (rule qwen.fits_some)
  from qwen.run_returns [OF assms(1-3) engine_inv_new assms(4,5)] obtain r where
    r: "generate R z max_tokens tokens (inference_new (engine_new c s)) evs = Inr r" by blast
  then obtain stopped r' where
    l: "gen_loop R z (unat max_tokens) 0 tokens 0 [] (inference_new (engine_new c s)) evs
      = Inr (stopped, r')" and r': "r = finish_run R (stopped, r')" by (rule generateE)
  from gen_loop_adds [OF l \<open>tokens \<noteq> []\<close>] obtain toks where
    "loop_adds (unat max_tokens) 0 tokens 0 [] evs stopped r' toks" by auto
  then have "gr_output r = concat toks" "length toks \<le> unat max_tokens"
    using r' by (auto simp: loop_adds_def finish_run_def split: if_splits)
  with r show ?thesis by blast
qed

end
