(* ===== verification/Engine_Properties.thy ===== *)
theory Engine_Properties
  imports Engine_Run Model_Properties
begin

text \<open>The properties of prediction with the graph: what the logits are, that a run meets no fault, and what it writes to the cache.\<close>

section \<open>An engine\<close>

text \<open>The small model with the reference rules; the values are numbered, the device counts computations.\<close>

definition demo_engine :: "(nat, nat, nat, int list) engine" where
  "demo_engine = \<lparr>en_ggml = ref_ggml, en_cache = log_cache demo_slice, en_get = demo_get,
     en_visible = 0, en_hidden = 1, en_ctx_size = (\<lambda>n. n), en_reserve = (\<lambda>out. True),
     en_compute = (\<lambda>out data s. Some ([0..<g_ne ref_ggml out 0 * g_ne ref_ggml out 1], s + 1))\<rparr>"

lemma demo_engine_typed: "qwen_typed demo_engine demo_cfg 20 16 n"
proof -
  have "weight ref_ggml demo_get ''output.weight'' (2 * 4) 20" by (simp add: demo_graph_defs)
  moreover have "cache_shapes ref_ggml (log_cache demo_slice) 4 (unat (16 :: u32)) 1 (unat n)"
    by (simp add: demo_graph_defs)
  ultimately show ?thesis unfolding qwen_typed_def
    using demo_graph_ok(1,3,4,5) ref_ggml_shapes
    by (intro exI [of _ 2] exI [of _ 1] exI [of _ 4] exI [of _ 12]) (simp add: demo_engine_def)
qed

lemma demo_engine_computes: "engine_computes demo_engine"
  by (simp add: engine_computes_def demo_engine_def)

lemma engine_new_ok: "engine_ok E vocab len (engine_new c s)"
  by (simp add: engine_ok_def engine_new_def)

section \<open>Properties\<close>

text \<open>
  C11: a prediction gives the logits of the last token. For a typed model and an engine that computes,
  \<open>predict\<close> ends without a fault whatever graph is cached, computes on the tokens and their
  positions, and returns the last \<open>vocab\<close> values of the output; the state stays well formed.
\<close>

theorem predict_last_row:
  assumes "qwen_typed E cfg vocab len (of_nat (length tokens))" and "engine_computes E"
    and "engine_ok E vocab len st" and "tokens \<noteq> []" and "length tokens < 2 ^ 31"
    and "0 \<le> past" and "past + int (length tokens) \<le> 2 ^ 31" and "unat len \<le> 2 ^ 31"
    and "vocab < 2 ^ 31"
  shows "\<exists>out data vals st'. predict_graph E (Inr cfg) len tokens past st
      = Inr (drop ((length tokens - 1) * vocab) vals, st') \<and> length vals = vocab * length tokens \<and>
    en_compute E out data (es_device st) = Some (vals, es_device st') \<and> fst data = tokens \<and>
    fst (snd data) = map (\<lambda>i. past + int i) [0..<length tokens] \<and>
    engine_ok E vocab len st' \<and> es_ready st' \<and> es_cached st' = of_nat (length tokens)"
  by (rule predict_graph_ok [OF assms])

theorem predict_last_row_witness:
  "\<exists>st'. predict_graph demo_engine (Inr demo_cfg) 16 [3, 1, 4] 0 (engine_new [] 0)
      = Inr ([40..<60], st') \<and> es_device st' = 1 \<and> es_cached st' = 3"
proof -
  have typed: "qwen_typed demo_engine demo_cfg 20 16 (of_nat (length [3, 1, 4 :: int]))"
    by (rule demo_engine_typed)
  from predict_last_row [OF typed demo_engine_computes engine_new_ok [of demo_engine 20 16 "[]" 0], of 0]
  obtain out data vals st' where
    p: "predict_graph demo_engine (Inr demo_cfg) 16 [3, 1, 4] 0 (engine_new [] 0)
      = Inr (drop (2 * 20) vals, st')" "length vals = 20 * 3"
    and v: "en_compute demo_engine out data 0 = Some (vals, es_device st')" "es_cached st' = 3"
    by (auto simp: engine_new_def)
  from v(1) p(2) have "vals = [0..<60]" "es_device st' = 1"
    by (auto simp: demo_engine_def)
  moreover have "drop (2 * 20) [0..<60] = [40..<60 :: nat]" by (simp only: drop_upt) simp
  ultimately show ?thesis using p(1) v(2) by auto
qed

lemma predict_all_ok:
  assumes "\<forall>tokens \<in> set inputs. tokens \<noteq> [] \<and> length tokens < 2 ^ 31 \<and>
      qwen_typed E cfg vocab len (of_nat (length tokens))"
    and "engine_computes E" and "engine_ok E vocab len st" and "0 \<le> past"
    and "past + int (length (concat inputs)) \<le> 2 ^ 31" and "unat len \<le> 2 ^ 31" and "vocab < 2 ^ 31"
  shows "\<exists>ls st'. predict_all E (Inr cfg) len inputs past st = Inr (ls, st') \<and>
    length ls = length inputs \<and> list_all (\<lambda>l. length l = vocab) ls"
  using assms(1,3,4,5)
proof (induction inputs arbitrary: past st)
  case (Cons tokens inputs)
  from Cons.prems have "past + int (length tokens) \<le> 2 ^ 31" by simp
  with predict_graph_ok [OF _ assms(2) Cons.prems(2), of cfg tokens past] Cons.prems(1,3) assms(6,7)
  obtain vals st1 where p: "predict_graph E (Inr cfg) len tokens past st
      = Inr (drop ((length tokens - 1) * vocab) vals, st1)" "length vals = vocab * length tokens"
    "engine_ok E vocab len st1" by auto
  have "length tokens * vocab = (length tokens - 1) * vocab + vocab"
    using Cons.prems(1) by (cases tokens) simp_all
  then have "length (drop ((length tokens - 1) * vocab) vals) = vocab"
    using p(2) by (simp add: mult.commute)
  moreover from Cons.IH [OF _ p(3), of "past + int (length tokens)"] Cons.prems(1,3,4) obtain ls st' where
    "predict_all E (Inr cfg) len inputs (past + int (length tokens)) st1 = Inr (ls, st')"
    "length ls = length inputs" "list_all (\<lambda>l. length l = vocab) ls" by auto
  ultimately show ?case using p(1) by simp
qed simp

text \<open>
  No call of a run faults. From a new engine, whatever the prompt and the tokens after it, every
  prediction succeeds with one logit per word of the vocabulary, as long as the positions fit into
  an \<open>int\<close>.
\<close>

theorem run_predicts:
  assumes "\<forall>tokens \<in> set inputs. tokens \<noteq> [] \<and> length tokens < 2 ^ 31 \<and>
      qwen_typed E cfg vocab len (of_nat (length tokens))"
    and "engine_computes E" and "length (concat inputs) \<le> 2 ^ 31" and "unat len \<le> 2 ^ 31"
    and "vocab < 2 ^ 31"
  shows "\<exists>ls st'. predict_all E (Inr cfg) len inputs 0 (engine_new c s) = Inr (ls, st') \<and>
    length ls = length inputs \<and> list_all (\<lambda>l. length l = vocab) ls"
  using predict_all_ok [OF assms(1,2) engine_new_ok [of E vocab len c s], of 0] assms(3-5) by simp

theorem run_predicts_witness:
  "\<exists>ls st'. predict_all demo_engine (Inr demo_cfg) 16 [[3, 1, 4], [1], [5]] 0 (engine_new [] 0)
      = Inr (ls, st') \<and> length ls = 3 \<and> list_all (\<lambda>l. length l = 20) ls"
proof -
  have "\<forall>tokens \<in> set [[3, 1, 4], [1], [5 :: int]]. tokens \<noteq> [] \<and> length tokens < 2 ^ 31 \<and>
      qwen_typed demo_engine demo_cfg 20 16 (of_nat (length tokens))"
    using demo_engine_typed by auto
  from run_predicts [OF this demo_engine_computes, of "[]" 0] show ?thesis
    by (simp del: predict_all.simps add: numeral_3_eq_3)
qed



section \<open>The generation loop on the graph\<close>

lemma demo_fits:
  assumes "tokens \<noteq> []" and "length tokens < 2 ^ 31"
  shows "engine_fits demo_engine demo_cfg 20 16 tokens"
  using assms by (simp add: engine_fits_def demo_engine_typed demo_engine_computes)



text \<open>
  A run on a typed model ends in a result. With the Qwen graph as the engine, whatever the sampler,
  the clock and the tokenizer, generation meets no fault and gives the concatenation of at most
  \<open>max_tokens\<close> tokens, as long as the positions fit into an \<open>int\<close>.
\<close>

theorem qwen_generates:
  assumes "re_backend R = engine_backend E cfg len" and "re_n_blocks R = n_blocks cfg"
    and "engine_fits E cfg vocab len tokens" and "unat max_tokens < 2 ^ 31"
    and "length tokens + unat max_tokens \<le> 2 ^ 31"
  shows "\<exists>r toks. generate R z max_tokens tokens (inference_new (engine_new c s)) evs = Inr r \<and>
    gr_output r = concat toks \<and> length toks \<le> unat max_tokens"
  by (rule qwen_run_returns [OF assms])

text \<open>Natural numbers for floats, with a sampler that picks among the two best.\<close>

definition demo_run_env :: "((nat, int list) engine_state, nat, nat) run_env" where
  "demo_run_env = \<lparr>re_backend = engine_backend demo_engine demo_cfg 16,
     re_floats = \<lparr>f_lt = (<), f_pos = (\<lambda>x. 0 < x), f_div = (div), f_add = (+), f_ge = (\<lambda>x y. y \<le> x),
       f_exp_diff = (\<lambda>x m. 100 + x - m), f_zero = 0, f_neg_inf = 0, d_zero = 0, d_add = (+),
       d_ge = (\<lambda>x y. y \<le> x), fd_div = (\<lambda>x s. x)\<rparr>,
     re_sampler = \<lparr>temp = 1, top_k = 2\<rparr>, re_random = (\<lambda>i. i), re_clock = int,
     re_n_blocks = n_blocks demo_cfg\<rparr>"

theorem qwen_generates_witness:
  "\<exists>z r toks. generate demo_run_env z 8 [3, 1, 4] (inference_new (engine_new [] 0)) [] = Inr r \<and>
    gr_output r = concat toks \<and> length toks \<le> 8"
proof -
  have "engine_fits demo_engine demo_cfg 20 16 [3, 1, 4]" by (rule demo_fits) simp_all
  from qwen_generates [where R = demo_run_env and max_tokens = 8 and c = "[]" and s = 0 and evs = "[]",
      OF _ _ this] show ?thesis
    by (simp add: demo_run_env_def)
qed

end
