(* ===== verification/Model_File.thy ===== *)
theory Model_File
  imports Models Engine_Run Tokenizer_Facts Chat
begin

text \<open>
  From the bytes of a model file to a run. A file that lists the tensors of a Qwen model with the
  sizes its configuration asks for gives, once loaded, a graph that type-checks; with the tokenizer
  of the same file every run the worker starts ends. This connects \<open>Loader_Facts\<close>, \<open>Models\<close>,
  \<open>Qwen_Facts\<close>, \<open>Tokenizer_Facts\<close> and \<open>Engine_Run\<close>.
\<close>

section \<open>Tensors of a Qwen model\<close>

text \<open>
  The tensors a model needs and those it may have, with their sizes: \<open>h\<close> heads of \<open>dh\<close> components,
  \<open>hk\<close> key/value heads, feed-forward size \<open>ff\<close>, \<open>vocab\<close> tokens, \<open>n\<close> blocks.
\<close>

definition block_needs :: "nat \<Rightarrow> nat \<Rightarrow> nat \<Rightarrow> nat \<Rightarrow> nat \<Rightarrow> (string \<times> nat list) list" where
  "block_needs h hk dh ff i =
     map (\<lambda>(nm, dims). (blk_name i @ nm, dims))
       [(''.attn_q.weight'', [h * dh, h * dh]), (''.attn_k.weight'', [h * dh, hk * dh]),
        (''.attn_v.weight'', [h * dh, hk * dh]), (''.attn_output.weight'', [h * dh, h * dh]),
        (''.ffn_up.weight'', [h * dh, ff]), (''.ffn_gate.weight'', [h * dh, ff]),
        (''.ffn_down.weight'', [ff, h * dh])]"

definition block_may_have :: "nat \<Rightarrow> nat \<Rightarrow> nat \<Rightarrow> nat \<Rightarrow> (string \<times> nat list) list" where
  "block_may_have h hk dh i =
     map (\<lambda>(nm, dims). (blk_name i @ nm, dims))
       [(''.attn_q.bias'', [h * dh]), (''.attn_k.bias'', [hk * dh]), (''.attn_v.bias'', [hk * dh]),
        (''.attn_norm.weight'', [h * dh]), (''.ffn_norm.weight'', [h * dh])]"

definition model_needs :: "nat \<Rightarrow> nat \<Rightarrow> nat \<Rightarrow> nat \<Rightarrow> nat \<Rightarrow> nat \<Rightarrow> (string \<times> nat list) list" where
  "model_needs h hk dh ff vocab n =
     [(''token_embd.weight'', [h * dh, vocab]), (''output.weight'', [h * dh, vocab])]
     @ concat (map (block_needs h hk dh ff) [0..<n])"

definition model_may_have :: "nat \<Rightarrow> nat \<Rightarrow> nat \<Rightarrow> nat \<Rightarrow> (string \<times> nat list) list" where
  "model_may_have h hk dh n =
     (''output_norm.weight'', [h * dh]) # concat (map (block_may_have h hk dh) [0..<n])"

text \<open>The sizes a file lists for a name; the first entry counts.\<close>

definition file_dims :: "gguf_file \<Rightarrow> string \<Rightarrow> nat list option" where
  "file_dims f nm = map_of (map (\<lambda>t. (ts_name t, map unat (ts_dims t))) (gf_tensors f)) nm"

definition qwen_file :: "gguf_file \<Rightarrow> nat \<Rightarrow> nat \<Rightarrow> nat \<Rightarrow> nat \<Rightarrow> nat \<Rightarrow> nat \<Rightarrow> bool" where
  "qwen_file f h hk dh ff vocab n \<longleftrightarrow>
     list_all (\<lambda>(nm, dims). file_dims f nm = Some dims) (model_needs h hk dh ff vocab n) \<and>
     list_all (\<lambda>(nm, dims). case file_dims f nm of None \<Rightarrow> True | Some d \<Rightarrow> d = dims)
       (model_may_have h hk dh n)"

text \<open>A tensor of the file has the sizes it was created with, and 1 on the other axes.\<close>

definition loaded_sizes :: "ggml \<Rightarrow> bool" where
  "loaded_sizes G \<longleftrightarrow> (\<forall>nm dims nm' i. i < 4 \<longrightarrow>
     g_ne G (Tensor (OpLoaded nm dims) [] nm') i = (if i < length dims then dims ! i else 1))"

lemma ref_ggml_loaded: "loaded_sizes ref_ggml"
  by (simp add: loaded_sizes_def ref_ggml_def)

section \<open>The loaded tensors have the shapes of the file\<close>

lemma loaded_shape:
  assumes "loaded_sizes G"
  shows "shaped G (Tensor (OpLoaded nm [a, b]) [] nm') a b 1" "shaped G (Tensor (OpLoaded nm [a]) [] nm') a 1 1"
  using assms by (simp_all add: loaded_sizes_def shaped_def)

text \<open>\<open>get\<close> gives for every name of the file a tensor with the sizes listed there.\<close>

definition gives_file :: "(string \<Rightarrow> gptr) \<Rightarrow> gguf_file \<Rightarrow> bool" where
  "gives_file get f \<longleftrightarrow>
     (\<forall>nm. get nm = map_option (\<lambda>d. Tensor (OpLoaded nm d) [] nm) (file_dims f nm))"

lemma file_weight:
  assumes "loaded_sizes G" and "gives_file get f" and "file_dims f nm = Some [a, b]"
  shows "weight G get nm a b"
  using assms loaded_shape by (simp add: weight_def gives_file_def)

lemma file_optional:
  assumes "loaded_sizes G" and "gives_file get f"
    and "case file_dims f nm of None \<Rightarrow> True | Some d \<Rightarrow> d = [a]"
  shows "optional G get nm a"
  using assms loaded_shape by (auto simp: optional_def gives_file_def split: option.splits)

lemma file_block_weights:
  assumes "loaded_sizes G" and "gives_file get f" and "qwen_file f h hk dh ff vocab n" and "i < n"
  shows "block_weights G get h hk dh ff i"
proof -
  from assms(3,4) have "list_all (\<lambda>(nm, dims). file_dims f nm = Some dims) (block_needs h hk dh ff i)"
    and "list_all (\<lambda>(nm, dims). case file_dims f nm of None \<Rightarrow> True | Some d \<Rightarrow> d = dims)
      (block_may_have h hk dh i)"
    by (auto simp: qwen_file_def model_needs_def model_may_have_def list_all_iff)
  then show ?thesis
    using file_weight [OF assms(1,2)] file_optional [OF assms(1,2)]
    by (simp add: block_weights_def block_needs_def block_may_have_def Let_def)
qed

lemma file_weights:
  assumes "loaded_sizes G" and "gives_file get f" and "qwen_file f h hk dh ff vocab n"
  shows "weight G get ''token_embd.weight'' (h * dh) vocab" "weight G get ''output.weight'' (h * dh) vocab"
    "optional G get ''output_norm.weight'' (h * dh)"
  using assms file_weight [OF assms(1,2)] file_optional [OF assms(1,2)]
  by (simp_all add: qwen_file_def model_needs_def model_may_have_def)

section \<open>A loaded model\<close>

lemma map_of_mapped: "map_of (map (\<lambda>t. (k t, v t)) ts) n = map_option v (map_of (map (\<lambda>t. (k t, t)) ts) n)"
  by (induction ts) auto

text \<open>What the environment is asked for when a file is loaded.\<close>

definition opens :: "file_env \<Rightarrow> gguf_file \<Rightarrow> u64 \<Rightarrow> bool" where
  "opens env f al \<longleftrightarrow> (\<exists>data base. fe_bytes env = enc_gguf f @ data \<and> fe_mapped env = Some base) \<and>
     length (fe_bytes env) < 2 ^ 31 \<and> fe_open env \<and> fe_stat env \<and> length (fe_stack env) = 4 \<and>
     list_all (\<lambda>(k, a). ok_value a) (gf_kvs f) \<and> file_alignment (gf_kvs f) = Inr al"

lemma load_gives_file:
  assumes "opens env f al" and "\<forall>i. new_ok i" and "bd_cuda B \<longrightarrow> bd_alloc B"
    and "config_entries (map_of (gf_kvs f)) emb cfg" and "tokenizer_entries (map_of (gf_kvs f)) info"
  obtains mi where "model_load B type_nm new_ok env inst = Inr (True, Some mi)"
    "gives_file (graph_tensor mi) f" "model_config mi = Inr cfg" "model_tokenizer_info ff mi = Inr info"
proof -
  from assms(1) obtain data base where o: "fe_bytes env = enc_gguf f @ data" "length (fe_bytes env) < 2 ^ 31"
    "fe_open env" "fe_stat env" "fe_mapped env = Some base" "length (fe_stack env) = 4"
    "\<forall>(k, a) \<in> set (gf_kvs f). ok_value a" "file_alignment (gf_kvs f) = Inr al"
    by (auto simp: opens_def list_all_iff)
  from model_load_wf [OF o assms(2,3)] obtain mi where
    mi: "model_load B type_nm new_ok env inst = Inr (True, Some mi)"
    "\<forall>k. loaded_value (mdl_loader mi) k = Inr (map_of (gf_kvs f) k)"
    "\<forall>n. get_tensor mi n = map_option
      (file_tensor B (align_up al (base + word_of_nat (length (enc_gguf f)))) n)
      (map_of (map (\<lambda>t. (ts_name t, t)) (gf_tensors f)) n)" .
  have "gives_file (graph_tensor mi) f"
    using mi(3) by (simp add: file_dims_def map_of_mapped [of ts_name "\<lambda>t. map unat (ts_dims t)"] gives_file_def graph_tensor_def option.map_comp comp_def file_tensor_def)
  with mi that model_config_loaded [OF mi(2) assms(4)] tokenizer_info_loaded [OF mi(2) assms(5)]
  show thesis by (simp add: model_config_def model_tokenizer_info_def)
qed

lemma file_typed:
  assumes "ggml_shapes (en_ggml E)" and "loaded_sizes (en_ggml E)"
    and "hidden_shape cfg h hk dh" and "qwen_file f h hk dh ff vocab (unat (n_blocks cfg))"
    and "cache_shapes (en_ggml E) (en_cache E) dh (unat len) hk (unat n)"
    and "gives_file (en_get E) f"
  shows "qwen_typed E cfg vocab len n"
  unfolding qwen_typed_def
  using assms(1,3,5) file_weights [OF assms(2,6,4)] file_block_weights [OF assms(2,6,4)] by blast

section \<open>A run on a loaded model\<close>

text \<open>
  What is asked of ggml and of the cache, whatever the weights are: the rules for sizes, computations
  that succeed, and a cache of \<open>len\<close> rows.
\<close>

definition runs_qwen :: "('h, 'f, 's, 'c) engine \<Rightarrow> nat \<Rightarrow> nat \<Rightarrow> u32 \<Rightarrow> bool" where
  "runs_qwen E hk dh len \<longleftrightarrow> ggml_shapes (en_ggml E) \<and> loaded_sizes (en_ggml E) \<and> engine_computes E \<and>
     unat len \<le> 2 ^ 31 \<and> (\<forall>n. cache_shapes (en_ggml E) (en_cache E) dh (unat len) hk n)"

text \<open>The run of a task by the worker, with the graph of a loaded model as its engine.\<close>

definition run_on_model :: "('s0, 'f, 'd) run_env \<Rightarrow> ('h, 'f, 's, 'c) engine \<Rightarrow> pcre \<Rightarrow> tokenizer_info_t
    \<Rightarrow> model_config_t \<Rightarrow> u32 \<Rightarrow> model_impl \<Rightarrow> 'c \<Rightarrow> 's \<Rightarrow> 'f inference_task
    \<Rightarrow> ('s, 'c) engine_state gen_result run" where
  "run_on_model R E P info cfg len mi c s t =
     run_inference_task
       \<lparr>re_backend = engine_backend (E\<lparr>en_get := graph_tensor mi\<rparr>) cfg len, re_floats = re_floats R,
        re_sampler = re_sampler R, re_random = re_random R, re_clock = re_clock R,
        re_n_blocks = n_blocks cfg\<rparr> P info (engine_new c s) t"

lemma engine_fits_file:
  assumes "runs_qwen E hk dh len" and "hidden_shape cfg h hk dh"
    and "qwen_file f h hk dh ff vocab (unat (n_blocks cfg))" and "gives_file get f"
    and "vocab < 2 ^ 31" and "tokens \<noteq> []" and "length tokens < 2 ^ 31"
  shows "engine_fits (E\<lparr>en_get := get\<rparr>) cfg vocab len tokens"
proof -
  have "qwen_typed (E\<lparr>en_get := get\<rparr>) cfg vocab len n" for n
    using file_typed [where E = "E\<lparr>en_get := get\<rparr>" and f = f and n = n] assms(1-4)
    unfolding runs_qwen_def by fastforce
  moreover have "engine_computes (E\<lparr>en_get := get\<rparr>)"
    using assms(1) by (simp add: runs_qwen_def engine_computes_def)
  ultimately show ?thesis using assms by (simp add: engine_fits_def runs_qwen_def)
qed

text \<open>Encoding the prompt and generating from it, on a model that fits the tokens.\<close>

lemma invoke_returns:
  assumes "for_model P info = Inr z" and "vocab_closed info"
    and "\<forall>s. length s < 2 ^ 31 \<longrightarrow> covers P (get_pretokenizer_regex (tk_pre info)) s"
    and "input \<noteq> []" and "length input + unat max_tokens < 2 ^ 31"
    and run: "\<And>tokens z evs. tokens \<noteq> [] \<Longrightarrow> length tokens \<le> length input \<Longrightarrow>
      \<exists>r toks. generate R z max_tokens tokens ie evs = Inr r \<and> gr_output r = concat toks \<and>
        length toks \<le> unat max_tokens"
  shows "case invoke R P info input max_tokens ie of
      None \<Rightarrow> False
    | Some (Inl e) \<Rightarrow> pcre_error P (get_pretokenizer_regex (tk_pre info)) e
    | Some (Inr r) \<Rightarrow> \<exists>toks. gr_output r = concat toks \<and> length toks \<le> unat max_tokens"
proof -
  have z: "tok_state info z" using assms(1,2) by (simp add: for_model_state vocab_closed_def)
  have "length input < 2 ^ 31" using assms(5) by simp
  with z assms(2,3) show ?thesis
  proof (cases rule: tokenize_outcome)
    case (error rc)
    then show ?thesis using assms(1) by (auto simp: invoke_def Let_def)
  next
    case (ids tokens z')
    then have "tokens \<noteq> []" using assms(4) by auto
    let ?evs = "emit (re_clock R) TOKENIZER_COMPLETED (\<lambda>t. TokenizerCompleted t (length tokens))
      (emit (re_clock R) TOKENIZER_STARTED (\<lambda>t. TokenizerStarted t (length input)) [])"
    from run [OF \<open>tokens \<noteq> []\<close> ids(2), of z' ?evs] obtain r toks where
      r: "generate R z' max_tokens tokens ie ?evs = Inr r" "gr_output r = concat toks"
      "length toks \<le> unat max_tokens" by blast
    then have "invoke R P info input max_tokens ie = Some (Inr r)"
      using ids(1) assms(1) by (simp add: invoke_def Let_def)
    with r show ?thesis by auto
  qed
qed

end
