(* ===== verification/Metrics_Facts.thy ===== *)
theory Metrics_Facts
  imports Metrics Inference_Facts
begin

text \<open>
  What the collector has recorded after a run: the way of the events through the dispatcher to the
  collector, the times they are stamped with, and the record they leave.
\<close>

section \<open>From the dispatcher to the collector\<close>

text \<open>
  \<open>dispatch\<close> calls the callbacks it has found, here any number of registrations of one collector.
\<close>

fun measure_events :: "string \<Rightarrow> event_log \<Rightarrow> unit dispatcher \<times> collector \<Rightarrow> unit dispatcher \<times> collector" where
  "measure_events gid [] dm = dm"
| "measure_events gid ((k, e) # evs) (d, m) =
     (let (cbs, d) = dispatch gid k d in measure_events gid evs (d, fold (\<lambda>_. on_event e) cbs m))"

lemma measure_one:
  assumes "listeners_of d gid = [((), collected_kinds)]"
  shows "\<exists>d'. measure_events gid evs (d, m) = (d', fold on_event (map snd evs) m) \<and>
    listeners_of d' = listeners_of d"
  using assms
proof (induction evs arbitrary: d m)
  case (Cons ev evs)
  obtain k e where ev: "ev = (k, e)" by fastforce
  have "k \<in> set collected_kinds" by (cases k) (simp_all add: collected_kinds_def)
  then have "fst (dispatch gid k d) = [()]" using bus.emit_callbacks [of gid k d] Cons.prems by simp
  moreover have keep: "listeners_of (snd (dispatch gid k d)) = listeners_of d" by (rule bus.emit_keeps)
  moreover from Cons.IH [of "snd (dispatch gid k d)" "on_event e m"] Cons.prems keep obtain d' where
    "measure_events gid evs (snd (dispatch gid k d), on_event e m)
      = (d', fold on_event (map snd evs) (on_event e m))" "listeners_of d' = listeners_of d" by auto
  ultimately show ?case by (auto simp: ev split_def Let_def)
qed simp

lemma collect_alone:
  assumes "listeners_of d (run_id m) = []"
  shows "listeners_of (collect () m d) (run_id m) = [((), collected_kinds)]"
  using assms by (simp add: collect_def bus.registered_register)

section \<open>Times\<close>

text \<open>The event number \<open>j\<close> of a log has the time the clock gave it.\<close>

fun at_time :: "time_point \<Rightarrow> inference_event \<Rightarrow> inference_event" where
  "at_time t (TokenizerStarted _ n) = TokenizerStarted t n"
| "at_time t (TokenizerCompleted _ n) = TokenizerCompleted t n"
| "at_time t (TokenGenerated _ i s) = TokenGenerated t i s"
| "at_time t (GenerationCompleted _ s n) = GenerationCompleted t s n"
| "at_time t (PrefillStart _ n) = PrefillStart t n"
| "at_time t (PrefillEnd _ n) = PrefillEnd t n"

lemma at_time_untimed: "at_time (ev_time e) (untimed e) = e"
  by (cases e) simp_all

fun stamp :: "(nat \<Rightarrow> time_point) \<Rightarrow> nat \<Rightarrow> event_log \<Rightarrow> inference_event list" where
  "stamp clock j [] = []"
| "stamp clock j ((k, e) # evs) = at_time (clock j) e # stamp clock (Suc j) evs"

lemma stamp_append: "stamp clock j (xs @ ys) = stamp clock j xs @ stamp clock (j + length xs) ys"
  by (induction xs arbitrary: j) auto

definition stamped :: "(nat \<Rightarrow> time_point) \<Rightarrow> event_log \<Rightarrow> bool" where
  "stamped clock evs \<longleftrightarrow> map snd evs = stamp clock 0 (ulog evs)"

lemma stamped_Nil [simp]: "stamped clock []"
  by (simp add: stamped_def)

lemma length_ulog [simp]: "length (ulog evs) = length evs"
  by (simp add: ulog_def)

lemma stamped_emit:
  assumes "stamped clock evs" and "\<And>t. ev_time (ev t) = t"
  shows "stamped clock (emit clock k ev evs)"
  using assms(1) at_time_untimed [of "ev (clock (length evs))"] assms(2)
  by (simp add: stamped_def stamp_append) (simp add: emit_def)

lemma gen_loop_stamped:
  assumes "gen_loop R z n i tokens past outp ie evs = Inr (stopped, r)" and "stamped (re_clock R) evs"
  shows "stamped (re_clock R) (gr_events r)"
  using assms
proof (induction n arbitrary: i tokens past outp ie evs)
  case (Suc n)
  let ?evs = "if past = 0
    then emit (re_clock R) PREFILL_STARTED (\<lambda>t. PrefillStart t (int (length tokens))) evs else evs"
  let ?evs' = "if past = 0
    then emit (re_clock R) PREFILL_COMPLETED (\<lambda>t. PrefillEnd t (int (length tokens))) ?evs else ?evs"
  have s: "stamped (re_clock R) ?evs'" using Suc.prems(2) by (auto intro!: stamped_emit)
  from Suc.prems(1) obtain logits ie' where
    p: "predict (re_backend R) (re_n_blocks R) tokens past ie = Inr (logits, ie')"
    by (auto simp: Let_def elim!: rbindE)
  let ?id = "fst (sample (re_floats R) (re_random R i) (re_sampler R) logits)"
  let ?out = "decode z (of_nat ?id)"
  show ?case
  proof (cases "is_stop_token z ?out")
    case True
    with Suc.prems(1) p have "gr_events r
        = emit (re_clock R) GENERATION_COMPLETED (\<lambda>t. GenerationCompleted t EOS (of_nat i)) ?evs'"
      by (auto simp: Let_def)
    with s show ?thesis by (simp only:) (rule stamped_emit, simp_all)
  next
    case False
    let ?next = "emit (re_clock R) TOKEN_GENERATED (\<lambda>t. TokenGenerated t (of_nat i) ?out) ?evs'"
    from Suc.prems(1) p False have "gen_loop R z n (i + 1) [wrap32 (int ?id)] (past + int (length tokens))
        (outp @ ?out) ie' ?next = Inr (stopped, r)"
      by (auto simp: Let_def split: if_splits)
    moreover have "stamped (re_clock R) ?next" by (rule stamped_emit [OF s]) simp
    ultimately show ?thesis by (rule Suc.IH)
  qed
qed auto

lemma generate_stamped:
  assumes "generate R z max_tokens tokens ie evs = Inr r" and "stamped (re_clock R) evs"
  shows "stamped (re_clock R) (gr_events r)"
proof -
  from assms(1) obtain stopped r' where
    "gen_loop R z (unat max_tokens) 0 tokens 0 [] ie evs = Inr (stopped, r')"
    and r: "r = finish_run R (stopped, r')" by (rule generateE)
  from gen_loop_stamped [OF this(1) assms(2)] r show ?thesis
    by (auto simp: finish_run_def intro: stamped_emit)
qed

section \<open>The record of a run\<close>

text \<open>Only the first token changes the record.\<close>

lemma fold_tokens:
  assumes "i + length toks \<le> 2 ^ 32"
  shows "fold on_event (stamp clock j (token_events i toks)) m
    = (if i = 0 \<and> toks \<noteq> [] then m\<lparr>first_token_generated_time := clock j\<rparr> else m)"
  using assms
proof (induction toks arbitrary: i j m)
  case (Cons t toks)
  have "(of_nat i :: u32) = 0 \<longleftrightarrow> i = 0"
    using Cons.prems nat_dvd_not_less [of i "2 ^ 32"] by (cases "i = 0") (simp_all add: word_of_nat_eq_0_iff)
  with Cons.IH [of "Suc i" "Suc j"] Cons.prems show ?case by (simp add: token_events_Cons)
qed simp

lemma length_token_events [simp]: "length (token_events i toks) = length toks"
  by (simp add: token_events_def)

definition after_run :: "(nat \<Rightarrow> time_point) \<Rightarrow> nat \<Rightarrow> nat \<Rightarrow> u32 \<Rightarrow> collector \<Rightarrow> collector" where
  "after_run clock n_in n_out reported m =
     m\<lparr>tokenizer_start_time := clock 1, inp_tokens := of_nat n_in, prefill_start_time := clock 2,
       prefill_tokens_count := int n_in, prefill_end_time := clock 3,
       first_token_generated_time := (if n_out = 0 then first_token_generated_time m else clock 4),
       generation_completed_time := clock (n_out + 4), out_tokens := reported\<rparr>"

lemma fold_run:
  assumes "length toks \<le> 2 ^ 32"
    and "ulog evs = [(TOKENIZER_STARTED, TokenizerStarted 0 k), (TOKENIZER_COMPLETED, TokenizerCompleted 0 (length tokens))]
      @ prefill_events tokens @ token_events 0 toks @ [(GENERATION_COMPLETED, GenerationCompleted 0 st c)]"
    and "stamped clock evs"
  shows "fold on_event (map snd evs) m = after_run clock (length tokens) (length toks) c m"
proof -
  have "map snd evs = [TokenizerStarted (clock 0) k, TokenizerCompleted (clock 1) (length tokens),
      PrefillStart (clock 2) (int (length tokens)), PrefillEnd (clock 3) (int (length tokens))]
    @ stamp clock 4 (token_events 0 toks) @ [GenerationCompleted (clock (length toks + 4)) st c]"
    using assms(2,3)
    by (simp add: stamped_def prefill_events_def stamp_append numeral_eq_Suc)
  then show ?thesis using fold_tokens [of 0 toks clock 4] assms(1)
    by (simp add: after_run_def)
qed

text \<open>The record after a whole run, with the tokens of its prompt.\<close>

lemma invoke_record:
  assumes "for_model P info = Inr z" and "tokenize P z input = Some (Inr (tokens, z'))" and "tokens \<noteq> []"
    and "invoke R P info input max_tokens ie = Some (Inr r)" and "max_tokens \<noteq> 0"
  obtains toks where "gr_output r = concat toks" "length toks \<le> unat max_tokens"
    "\<And>m. fold on_event (map snd (gr_events r)) m = after_run (re_clock R) (length tokens) (length toks)
      (if length toks < unat max_tokens then of_nat (length toks) else 0) m"
proof -
  let ?e0 = "emit (re_clock R) TOKENIZER_STARTED (\<lambda>t. TokenizerStarted t (length input)) []"
  let ?evs = "emit (re_clock R) TOKENIZER_COMPLETED (\<lambda>t. TokenizerCompleted t (length tokens)) ?e0"
  have g: "generate R z' max_tokens tokens ie ?evs = Inr r"
    using assms(1,2,4) by (simp add: invoke_def Let_def)
  have "stamped (re_clock R) ?evs" by (intro stamped_emit) simp_all
  from generate_stamped [OF g this] have st: "stamped (re_clock R) (gr_events r)" .
  from generate_log [OF g assms(3)] obtain toks status where
    t: "gr_output r = concat toks" "length toks \<le> unat max_tokens"
    "status = MAX_CTX_REACHED \<longleftrightarrow> length toks = unat max_tokens" "status \<noteq> CONTINUE"
    "ulog (gr_events r) = ulog ?evs @ (if max_tokens \<noteq> 0 then prefill_events tokens else [])
        @ token_events 0 toks
        @ [(GENERATION_COMPLETED, GenerationCompleted 0 status
            (if status = EOS then of_nat (length toks) else 0))]" by blast
  let ?c = "if length toks < unat max_tokens then of_nat (length toks) else 0 :: u32"
  have "(if status = EOS then of_nat (length toks) else 0 :: u32) = ?c"
    using t(2,3,4) by (cases status) auto
  with t(5) assms(5) have "ulog (gr_events r)
      = [(TOKENIZER_STARTED, TokenizerStarted 0 (length input)), (TOKENIZER_COMPLETED, TokenizerCompleted 0 (length tokens))]
      @ prefill_events tokens @ token_events 0 toks @ [(GENERATION_COMPLETED, GenerationCompleted 0 status ?c)]"
    by simp
  moreover have "length toks \<le> 2 ^ 32"
    using t(2) unsigned_less [of max_tokens, where ?'a = nat] by simp
  ultimately show thesis using that [OF t(1,2)] fold_run [OF _ _ st] by blast
qed

end
