(* ===== verification/System_Properties.thy ===== *)
theory System_Properties
  imports Model_File Metrics_Facts Engine_Properties Tokenizer_Properties
begin

text \<open>
  Properties that span the components: from the bytes of a model file to the text of a run.
\<close>

section \<open>A file and its run\<close>















section \<open>The metrics of a run\<close>

text \<open>
  C14: what the collector reports of a run. If the events of a run are dispatched to a collector that
  is alone under the run's id, the figures are: the tokens of the prompt; the generated tokens, but
  zero when the limit ended the run; prefill, decoding and total time between the stamps of events,
  the total counted from the end of tokenization; and the time to the first token, which after a run
  without tokens is measured to the first token of an earlier run.
\<close>

theorem run_measured:
  assumes "for_model P info = Inr z" and "tokenize P z input = Some (Inr (tokens, z'))" and "tokens \<noteq> []"
    and "invoke R P info input max_tokens ie = Some (Inr r)" and "max_tokens \<noteq> 0"
    and "listeners_of d (run_id m) = []"
  shows "\<exists>toks g. gr_output r = concat toks \<and> length toks \<le> unat max_tokens \<and>
    g = get_metrics to_float rate (snd (measure_events (run_id m) (gr_events r) (collect () m d, m))) \<and>
    mm_inp_tokens g = of_nat (length tokens) \<and>
    mm_out_tokens g = (if length toks < unat max_tokens then of_nat (length toks) else 0) \<and>
    prefill_latency g = millis (re_clock R 3 - re_clock R 2) \<and>
    decode_time g = millis (re_clock R (length toks + 4) - re_clock R 3) \<and>
    throughput_in_secs g = rate (mm_out_tokens g) (decode_time g) \<and>
    total_time g = millis (re_clock R (length toks + 4) - re_clock R 1) \<and>
    time_to_first_token g = to_float (millis
      ((if toks = [] then first_token_generated_time m else re_clock R 4) - re_clock R 1))"
proof -
  from invoke_record [OF assms(1-5)] obtain toks where
    t: "gr_output r = concat toks" "length toks \<le> unat max_tokens"
    "fold on_event (map snd (gr_events r)) m = after_run (re_clock R) (length tokens) (length toks)
      (if length toks < unat max_tokens then of_nat (length toks) else 0) m" by metis
  from measure_one [OF collect_alone [OF assms(6)], of "gr_events r" m] t(3) have
    "snd (measure_events (run_id m) (gr_events r) (collect () m d, m))
      = after_run (re_clock R) (length tokens) (length toks)
        (if length toks < unat max_tokens then of_nat (length toks) else 0) m" by auto
  with t(1,2) show ?thesis
    by (intro exI [of _ toks] exI [of _ "get_metrics to_float rate
        (snd (measure_events (run_id m) (gr_events r) (collect () m d, m)))"])
      (simp add: get_metrics_def after_run_def Let_def)
qed

lemma small_model_run:
  "\<exists>z tokens z' r. for_model demo_pcre demo_info = Inr z \<and>
    tokenize demo_pcre z ''hi <|im_end|>'' = Some (Inr (tokens, z')) \<and> tokens \<noteq> [] \<and>
    invoke demo_run_env demo_pcre demo_info ''hi <|im_end|>'' 8 (inference_new (engine_new [] 0)) = Some (Inr r)"
proof -
  from demo_built obtain z where z: "for_model demo_pcre demo_info = Inr z" ..
  then have "tok_state demo_info z" using demo_closed by (simp add: for_model_state vocab_closed_def)
  then have "\<exists>tokens z'. tokenize demo_pcre z ''hi <|im_end|>'' = Some (Inr (tokens, z')) \<and>
      length tokens \<le> length ''hi <|im_end|>'' \<and>
      concat (map (\<lambda>i. decode z' (word_of_int i)) tokens) = ''hi <|im_end|>''"
    by (rule tokenize_outcome [OF _ demo_closed, where P = demo_pcre and ?text = "''hi <|im_end|>''"])
      (use demo_covers in auto)
  then obtain tokens z' where t: "tokenize demo_pcre z ''hi <|im_end|>'' = Some (Inr (tokens, z'))"
    "length tokens \<le> 13" "concat (map (\<lambda>i. decode z' (word_of_int i)) tokens) = ''hi <|im_end|>''" by auto
  then have "tokens \<noteq> []" by auto
  then have "engine_fits demo_engine demo_cfg 20 16 tokens" using t(2) by (intro demo_fits) simp_all
  from qwen_run_returns [OF _ _ this, where R = demo_run_env and max_tokens = 8 and c = "[]" and s = 0
      and z = z'] t(2) have
    "\<exists>r. generate demo_run_env z' 8 tokens (inference_new (engine_new [] 0)) evs = Inr r" for evs
    by (fastforce simp: demo_run_env_def)
  then have "\<exists>r. invoke demo_run_env demo_pcre demo_info ''hi <|im_end|>'' 8 (inference_new (engine_new [] 0))
      = Some (Inr r)"
    using z t(1) by (simp add: invoke_def Let_def)
  with z t(1) \<open>tokens \<noteq> []\<close> show ?thesis by blast
qed

definition fresh_collector :: collector where
  "fresh_collector = collector_new ''run-1'' 0 0 0 0"

theorem run_measured_witness:
  "\<exists>r tokens. invoke demo_run_env demo_pcre demo_info ''hi <|im_end|>'' 8 (inference_new (engine_new [] 0))
      = Some (Inr r) \<and> (\<exists>toks g. gr_output r = concat toks \<and> length toks \<le> unat (8 :: u32) \<and>
    g = get_metrics id (\<lambda>n ms. ms) (snd (measure_events (run_id fresh_collector) (gr_events r)
      (collect () fresh_collector dispatcher_init, fresh_collector))) \<and>
    mm_inp_tokens g = of_nat (length (tokens :: int list)) \<and>
    mm_out_tokens g = (if length toks < unat (8 :: u32) then of_nat (length toks) else 0) \<and>
    prefill_latency g = millis (re_clock demo_run_env 3 - re_clock demo_run_env 2) \<and>
    decode_time g = millis (re_clock demo_run_env (length toks + 4) - re_clock demo_run_env 3) \<and>
    throughput_in_secs g = decode_time g \<and>
    total_time g = millis (re_clock demo_run_env (length toks + 4) - re_clock demo_run_env 1) \<and>
    time_to_first_token g = id (millis ((if toks = [] then first_token_generated_time fresh_collector
      else re_clock demo_run_env 4) - re_clock demo_run_env 1)))"
proof -
  have l: "listeners_of (dispatcher_init :: unit dispatcher) (run_id fresh_collector) = []"
    by (simp add: listeners_of_def dispatcher_init_def)
  from small_model_run obtain z tokens z' r where i: "for_model demo_pcre demo_info = Inr z"
    "tokenize demo_pcre z ''hi <|im_end|>'' = Some (Inr (tokens, z'))" "tokens \<noteq> []"
    "invoke demo_run_env demo_pcre demo_info ''hi <|im_end|>'' 8 (inference_new (engine_new [] 0)) = Some (Inr r)"
    by blast
  have "(8 :: u32) \<noteq> 0" by simp
  from run_measured [OF i this l, of id "\<lambda>n ms. ms"] i(4) show ?thesis
    by - (rule exI [of _ r], rule exI [of _ tokens], rule conjI)
qed

end
