(* ===== verification/Command_Line.thy ===== *)
theory Command_Line
  imports Chat Models Metrics Event_Bus
begin

text \<open>
  The command line programs: the interactive loop of \<open>tools/cli/cli.cpp\<close>, over the lines it reads,
  with its metrics and everything it prints, and the argument parsing and output of
  \<open>tools/tokenize/tokenize.cpp\<close>.
\<close>

section \<open>The interactive loop\<close>

datatype cli_command =
    Skip
  | TokenizeText string
  | Summary
  | UnknownCommand string
  | ChatLine string

text \<open>
  \<open>input.find(' ')\<close> splits a command line; without a blank, \<open>substr(0, npos)\<close> is all of it and the
  arguments are empty.
\<close>

definition before_blank :: "string \<Rightarrow> string" where
  "before_blank s = takeWhile (\<lambda>c. c \<noteq> CHR '' '') s"

definition after_blank :: "string \<Rightarrow> string" where
  "after_blank s = drop 1 (dropWhile (\<lambda>c. c \<noteq> CHR '' '') s)"

definition parse_line :: "string \<Rightarrow> cli_command" where
  "parse_line input =
     (if input = [] then Skip
      else if hd input = CHR ''/'' then
        (let cmd = before_blank input; args = after_blank input in
         if cmd = ''/tokenize'' then TokenizeText args
         else if cmd = ''/graph'' then Summary
         else UnknownCommand cmd)
      else ChatLine input)"

text \<open>
  The loop prints to one stream, here the text printed. \<open>newline\<close> is what \<open>std::endl\<close> prints.
\<close>

definition newline :: string where
  "newline = [CHR 0x0A]"

definition esc :: string where
  "esc = [CHR 0x1B]"

definition id_line :: "int list \<Rightarrow> string" where
  "id_line ids = concat (map (\<lambda>t. int_dec t @ '' '') ids) @ newline"

text \<open>What the callback prints for an event.\<close>

fun cli_callback :: "inference_event \<Rightarrow> string" where
  "cli_callback (TokenGenerated t i tok) = esc @ ''[33m'' @ tok"
| "cli_callback (GenerationCompleted t status n) =
     (case status of
        MAX_CTX_REACHED \<Rightarrow> newline @ ''Maximum Context Reached'' @ newline
      | EOS \<Rightarrow> newline
      | CONTINUE \<Rightarrow> []) @ esc @ ''[0m''"
| "cli_callback _ = []"

text \<open>
  What surrounds the loop: the ids the tokenizer gives for a text; the value of the future that
  \<open>Chat::invoke\<close> returns, with the events of the run behind it; the float conversions of the
  metrics and how a float is printed.
\<close>

record 'f cli_env =
  ce_tokenize :: "string \<Rightarrow> int list res"
  ce_reply :: "chat_message list \<Rightarrow> (string \<times> inference_event list) res"
  ce_to_float :: "int \<Rightarrow> 'f"
  ce_rate :: "u32 \<Rightarrow> int \<Rightarrow> 'f"
  ce_show :: "'f \<Rightarrow> string"

definition metrics_line :: "('f \<Rightarrow> string) \<Rightarrow> 'f model_metrics \<Rightarrow> string" where
  "metrics_line shw g =
     esc @ ''[35m'' @ ''Time-to-Frist-Token (ms): '' @ shw (time_to_first_token g)
     @ '' | Decode Time (ms): '' @ int_dec (decode_time g)
     @ '' | Total Time (ms): '' @ int_dec (total_time g)
     @ '' | Token/s: '' @ shw (throughput_in_secs g)
     @ '' | Input Tokens: '' @ nat_dec (unat (mm_inp_tokens g))
     @ '' | Output Tokens: '' @ nat_dec (unat (mm_out_tokens g)) @ esc @ ''[0m'' @ newline"

text \<open>
  The conversation: each prompt is sent with everything said before, and the answer is appended; the
  events of the run are printed while it lasts and collected, the metrics are printed after it, and
  the collector is reset. The state is the messages, the text printed and the collector. \<open>summary\<close>
  prints nothing; the loop ends after the prompt sign when no line can be read.
\<close>

fun cli_loop :: "'f cli_env \<Rightarrow> string list \<Rightarrow> chat_message list \<times> string \<times> collector
    \<Rightarrow> (chat_message list \<times> string \<times> collector) res" where
  "cli_loop E [] (messages, out, mc) = Inr (messages, out @ ''> '', mc)"
| "cli_loop E (input # inputs) (messages, out, mc) =
     (let out = out @ ''> '' in
      case parse_line input of
        Skip \<Rightarrow> cli_loop E inputs (messages, out, mc)
      | TokenizeText args \<Rightarrow>
          rbind (ce_tokenize E args) (\<lambda>ids. cli_loop E inputs (messages, out @ id_line ids, mc))
      | Summary \<Rightarrow> cli_loop E inputs (messages, out, mc)
      | UnknownCommand cmd \<Rightarrow>
          cli_loop E inputs (messages, out @ ''Unknown command: '' @ cmd @ newline, mc)
      | ChatLine prompt \<Rightarrow>
          let messages = messages @ [user_message prompt] in
          rbind (ce_reply E messages) (\<lambda>(answer, evs).
          let mc = fold on_event evs mc;
              metrics = get_metrics (ce_to_float E) (ce_rate E) mc;
              out = out @ concat (map cli_callback evs) @ metrics_line (ce_show E) metrics in
          cli_loop E inputs (messages @ [assistant_message answer], out, reset_metrics mc)))"

text \<open>The parameters of the chats; \<open>top_k\<close> is left out, which makes it zero.\<close>

definition cli_params :: "(nat \<Rightarrow> nat \<Rightarrow> 'f) \<Rightarrow> 'f chat_params" where
  "cli_params lit = \<lparr>cp_max_tokens = 8192, cp_temperature = lit 5 10, cp_top_k = 0,
     cp_top_p = lit 7 10\<rparr>"

text \<open>
  The program: without a model it ends with status 1; otherwise it prints what the model is and
  holds the conversation until the input ends.
\<close>

definition cli_banner :: "model_info_t \<Rightarrow> model_config_t \<Rightarrow> nat \<Rightarrow> string list" where
  "cli_banner info cfg n_tensors =
     [''Name: '' @ mi_name info, ''Version: '' @ mi_version info,
      ''Architecture: '' @ mi_architecture info, ''File Type: '' @ mi_file_type info,
      ''Layers: '' @ nat_dec (unat (n_blocks cfg)), ''Max Context: '' @ nat_dec (unat (max_context_len cfg)),
      ''Tensors Count: '' @ nat_dec n_tensors]"

definition cli_intro :: string where
  "cli_intro = newline @ ''Enter a prompt (Ctrl+C to exit):'' @ newline"

definition cli_main :: "float_format \<Rightarrow> (u32 \<Rightarrow> string) \<Rightarrow> (string \<Rightarrow> (bool \<times> model_impl option) res)
    \<Rightarrow> (model_impl \<Rightarrow> 'f cli_env) \<Rightarrow> collector \<Rightarrow> string list \<Rightarrow> string list \<Rightarrow> (nat \<times> string) res" where
  "cli_main ff type_nm load env mc args inputs =
     (if length args < 2 then Inr (1, [])
      else rbind (load (args ! 1)) (\<lambda>(is_loaded, inst).
        if \<not> is_loaded then Inr (1, [])
        else rbind (model_instance inst) (\<lambda>model.
          rbind (model_config model) (\<lambda>cfg.
          rbind (model_info ff model) (\<lambda>info.
          rbind (model_tensor_info type_nm model) (\<lambda>tensors.
          let banner = concat (map (\<lambda>l. l @ newline) (cli_banner info cfg (length tensors))) in
          rbind (cli_loop (env model) inputs ([], banner @ cli_intro, mc))
            (\<lambda>(messages, out, mc). Inr (0, out @ concat (map (\<lambda>l. l @ newline) (fst (model_unload inst)))))))))))"

text \<open>
  The handler of an interrupt: a new line, the cleanup once it is set, which takes the callback from
  the dispatcher, and the end of the program with status 0.
\<close>

definition sigint_handler :: "('d \<Rightarrow> 'd) option \<Rightarrow> 'd \<Rightarrow> string \<times> 'd \<times> nat" where
  "sigint_handler cleanup d = (newline, (case cleanup of None \<Rightarrow> d | Some f \<Rightarrow> f d), 0)"

section \<open>The debug program\<close>

text \<open>
  \<open>tools/debug/debug.cpp\<close>: one token for a fixed prompt; the prompt among the arguments is not used.
\<close>

definition debug_params :: "(nat \<Rightarrow> nat \<Rightarrow> 'f) \<Rightarrow> 'f chat_params" where
  "debug_params lit = \<lparr>cp_max_tokens = 1, cp_temperature = lit 1 1, cp_top_k = 0, cp_top_p = lit 0 1\<rparr>"

definition debug_main :: "(nat \<Rightarrow> nat \<Rightarrow> 'f) \<Rightarrow> (string \<Rightarrow> (bool \<times> model_impl option) res)
    \<Rightarrow> (model_impl \<Rightarrow> chat_message list \<Rightarrow> 'f chat_params \<Rightarrow> string res) \<Rightarrow> string list
    \<Rightarrow> (nat \<times> string list) res" where
  "debug_main lit load reply args =
     (if length args < 2 then Inr (1, [])
      else rbind (load (args ! 1)) (\<lambda>(is_loaded, inst).
        if \<not> is_loaded then Inr (1, [])
        else rbind (model_instance inst) (\<lambda>model.
          rbind (reply model [user_message ''hi''] (debug_params lit)) (\<lambda>output.
            Inr (0, [output] @ fst (model_unload inst))))))"

section \<open>The tokenize program\<close>

text \<open>The loop over the arguments after the model path: the last \<open>-f\<close> with an argument wins.\<close>

fun file_argument :: "string list \<Rightarrow> string \<Rightarrow> string" where
  "file_argument [] filename = filename"
| "file_argument [arg] filename = filename"
| "file_argument (arg # next # args) filename =
     (if arg = ''-f'' then file_argument args next else file_argument (next # args) filename)"

definition token_line :: "tokenizer \<Rightarrow> u32 \<Rightarrow> string" where
  "token_line z i = int_dec (sint i) @ '' -> '' @ [CHR 0x27] @ decode z i @ [CHR 0x27]"

text \<open>
  The program: \<open>args\<close> include the program's name; \<open>files\<close> gives the contents of a file that opens,
  \<open>load\<close> whether the model loads and the tokenizer information it then has. The result is the exit
  status and the lines printed.
\<close>

definition tokenize_main :: "pcre \<Rightarrow> (string \<Rightarrow> string option) \<Rightarrow> (string \<Rightarrow> tokenizer_info_t res option)
    \<Rightarrow> string list \<Rightarrow> (nat \<times> string list) run" where
  "tokenize_main P files load args =
     (if length args < 4 then Some (Inr (1, []))
      else let filename = file_argument (drop 2 args) [] in
        if filename = [] then Some (Inr (1, []))
        else case files filename of
          None \<Rightarrow> Some (Inr (1, []))
        | Some prompt \<Rightarrow>
            (case load (args ! 1) of
               None \<Rightarrow> Some (Inr (1, []))
             | Some info \<Rightarrow>
                 run_bind (Some (rbind info (for_model P))) (\<lambda>z.
                 run_bind (tokenize P z prompt) (\<lambda>(ids, z).
                 Some (Inr (0, map (\<lambda>i. token_line z (word_of_int i)) ids @ [''Model unloaded'']))))))"

section \<open>Facts\<close>

text \<open>The prompts among the lines, and the conversation they make.\<close>

definition prompts :: "string list \<Rightarrow> string list" where
  "prompts inputs = List.map_filter
     (\<lambda>l. case parse_line l of ChatLine p \<Rightarrow> Some p | _ \<Rightarrow> None) inputs"

fun converse :: "(chat_message list \<Rightarrow> string) \<Rightarrow> chat_message list \<Rightarrow> string list \<Rightarrow> chat_message list" where
  "converse reply messages [] = messages"
| "converse reply messages (p # ps) =
     converse reply (messages @ [user_message p, assistant_message (reply (messages @ [user_message p]))]) ps"

lemma prompts_Cons:
  "prompts (l # ls) = (case parse_line l of ChatLine p \<Rightarrow> p # prompts ls | _ \<Rightarrow> prompts ls)"
  by (simp add: prompts_def List.map_filter_simps split: cli_command.split)

lemma cli_loop_converse:
  assumes "\<And>text. \<exists>ids. ce_tokenize E text = Inr ids" and "\<And>ms. ce_reply E ms = Inr (answer ms, evs ms)"
  shows "\<exists>out' mc'. cli_loop E inputs (messages, out, mc)
    = Inr (converse answer messages (prompts inputs), out', mc')"
proof (induction inputs arbitrary: messages out mc)
  case (Cons input inputs)
  show ?case
  proof (cases "parse_line input")
    case (TokenizeText args)
    from assms(1) obtain ids where "ce_tokenize E args = Inr ids" by blast
    with TokenizeText Cons show ?thesis by (simp add: prompts_Cons Let_def)
  qed (use Cons in \<open>simp_all add: prompts_Cons assms(2) Let_def\<close>)
qed (simp add: prompts_def List.map_filter_simps)

end
