(* ===== verification/Debug_Print.thy ===== *)
theory Debug_Print
  imports Metadata
begin

text \<open>
  The printing of tensors while a graph is computed (\<open>src/engine/debug.h\<close>, \<open>debug.cpp\<close>): the
  callback's decision, the address of an element, and the order and elision of the values printed.
  The conversion of the bytes of an element to a float and float addition are parameters.
\<close>

section \<open>Elements\<close>

datatype debug_type = DF16 | DF32 | DI64 | DI32 | DI16 | DI8 | DBF16 | DOther nat

text \<open>The bytes read for a value of the type; \<open>GGML_ABORT\<close> for a type that is not handled.\<close>

fun debug_size :: "debug_type \<Rightarrow> nat option" where
  "debug_size DF16 = Some 2"
| "debug_size DF32 = Some 4"
| "debug_size DI64 = Some 8"
| "debug_size DI32 = Some 4"
| "debug_size DI16 = Some 2"
| "debug_size DI8 = Some 1"
| "debug_size DBF16 = Some 2"
| "debug_size (DOther n) = None"

record strides =
  nb0 :: nat
  nb1 :: nat
  nb2 :: nat
  nb3 :: nat

definition debug_offset :: "strides \<Rightarrow> nat \<Rightarrow> nat \<Rightarrow> nat \<Rightarrow> nat \<Rightarrow> nat" where
  "debug_offset nb i0 i1 i2 i3 = i3 * nb3 nb + i2 * nb2 nb + i1 * nb1 nb + i0 * nb0 nb"

definition debug_get_float_value :: "(debug_type \<Rightarrow> string \<Rightarrow> 'f) \<Rightarrow> string \<Rightarrow> debug_type \<Rightarrow> strides
    \<Rightarrow> nat \<Rightarrow> nat \<Rightarrow> nat \<Rightarrow> nat \<Rightarrow> 'f res" where
  "debug_get_float_value conv data ty nb i0 i1 i2 i3 =
     (let i = debug_offset nb i0 i1 i2 i3 in
      case debug_size ty of
        None \<Rightarrow> Inl AssertFailed
      | Some n \<Rightarrow> if length data < i + n then Inl OutOfMap else Inr (conv ty (take n (drop i data))))"

section \<open>Printing\<close>

text \<open>A line of an axis: an index, or the dots for those left out.\<close>

datatype 'a shown = Dots | Item 'a

text \<open>
  The loop over an axis of \<open>ne\<close> indices from \<open>i\<close>: at \<open>n\<close>, if the axis is longer than \<open>2 * n\<close>, it
  prints dots and goes on at \<open>ne - n\<close>.
\<close>

function axis_loop :: "nat \<Rightarrow> nat \<Rightarrow> nat \<Rightarrow> nat shown list" where
  "axis_loop n ne i =
     (if ne \<le> i then []
      else if i = n \<and> 2 * n < ne then Dots # Item (ne - n) # axis_loop n ne (ne - n + 1)
      else Item i # axis_loop n ne (i + 1))"
  by pat_completeness auto
termination by (relation "measure (\<lambda>(n, ne, i). ne - i)") auto

declare axis_loop.simps [simp del]

fun map_res :: "('a \<Rightarrow> 'b res) \<Rightarrow> 'a list \<Rightarrow> 'b list res" where
  "map_res f [] = Inr []"
| "map_res f (x # xs) = rbind (f x) (\<lambda>y. rbind (map_res f xs) (\<lambda>ys. Inr (y # ys)))"

fun shown_res :: "('a \<Rightarrow> 'b res) \<Rightarrow> 'a shown \<Rightarrow> 'b shown res" where
  "shown_res f Dots = Inr Dots"
| "shown_res f (Item i) = rbind (f i) (\<lambda>y. Inr (Item y))"

text \<open>The sum of all values, in the order the first loop nest adds them.\<close>

definition all_indices :: "nat \<Rightarrow> nat \<Rightarrow> nat \<Rightarrow> nat \<Rightarrow> (nat \<times> nat \<times> nat \<times> nat) list" where
  "all_indices ne0 ne1 ne2 ne3 = concat (map (\<lambda>i3. concat (map (\<lambda>i2. concat (map (\<lambda>i1.
     map (\<lambda>i0. (i0, i1, i2, i3)) [0..<ne0]) [0..<ne1])) [0..<ne2])) [0..<ne3])"

type_synonym 'f page = "'f shown list shown list shown list"

text \<open>
  \<open>debug_print_tensor_values\<close>: for every index of the last axis the nested lines of the others,
  each page followed by the sum.
\<close>

definition debug_print_tensor_values :: "(debug_type \<Rightarrow> string \<Rightarrow> 'f) \<Rightarrow> ('f \<Rightarrow> 'f \<Rightarrow> 'f) \<Rightarrow> 'f
    \<Rightarrow> string \<Rightarrow> debug_type \<Rightarrow> nat \<times> nat \<times> nat \<times> nat \<Rightarrow> strides \<Rightarrow> nat \<Rightarrow> ('f page \<times> 'f) list res" where
  "debug_print_tensor_values conv add zero data ty ne nb n =
     (let (ne0, ne1, ne2, ne3) = ne; value = debug_get_float_value conv data ty nb in
      if n = 0 then Inl AssertFailed
      else rbind (map_res (\<lambda>(i0, i1, i2, i3). value i0 i1 i2 i3) (all_indices ne0 ne1 ne2 ne3)) (\<lambda>vs.
        let sum = foldl add zero vs in
        map_res (\<lambda>i3.
          rbind (map_res (shown_res (\<lambda>i2.
            map_res (shown_res (\<lambda>i1.
              map_res (shown_res (\<lambda>i0. value i0 i1 i2 i3)) (axis_loop n ne0 0)))
              (axis_loop n ne1 0)))
            (axis_loop n ne2 0)) (\<lambda>page. Inr (page, sum))) [0..<ne3]))"

text \<open>
  What the callback reads of a tensor: its labels, its layout, where its bytes are (\<open>dt_data\<close> on the
  host, \<open>dt_device\<close> what \<open>ggml_backend_tensor_get\<close> copies into the buffer of the callback).
\<close>

record debug_tensor =
  dt_name :: string
  dt_op :: string
  dt_type_name :: string
  dt_type :: debug_type
  dt_quantized :: bool
  dt_ne :: "nat \<times> nat \<times> nat \<times> nat"
  dt_nb :: strides
  dt_host :: bool
  dt_data :: string
  dt_device :: string

definition debug_header :: "debug_tensor \<Rightarrow> string" where
  "debug_header t = (case dt_ne t of (ne0, ne1, ne2, ne3) \<Rightarrow>
     ''[DEBUG] '' @ dt_name t @ '' = '' @ dt_op t @ '' | type: '' @ dt_type_name t @ '' | shape: [''
     @ nat_dec ne0 @ concat (map (\<lambda>ne. if 1 < ne then '', '' @ nat_dec ne else []) [ne1, ne2, ne3])
     @ '']'')"

text \<open>
  The callback: asked before a node is computed it tells whether it wants to see the result, which
  it prints unless it is quantized. The second component is what it prints, if anything.
\<close>

definition debug_eval_callback :: "(debug_type \<Rightarrow> string \<Rightarrow> 'f) \<Rightarrow> ('f \<Rightarrow> 'f \<Rightarrow> 'f) \<Rightarrow> 'f
    \<Rightarrow> bool \<Rightarrow> bool \<Rightarrow> debug_tensor \<Rightarrow> (bool \<times> (string \<times> ('f page \<times> 'f) list) option) res" where
  "debug_eval_callback conv add zero debug_mode ask t =
     (if ask then Inr (debug_mode, None)
      else if \<not> debug_mode then Inr (True, None)
      else if dt_quantized t then Inr (True, None)
      else let data_ptr = (if dt_host t then dt_data t else dt_device t) in
        rbind (debug_print_tensor_values conv add zero data_ptr (dt_type t) (dt_ne t) (dt_nb t) 3)
          (\<lambda>pages. Inr (True, Some (debug_header t, pages))))"

section \<open>Facts\<close>

text \<open>The axis loop against its description.\<close>

definition axis_view :: "nat \<Rightarrow> nat \<Rightarrow> nat shown list" where
  "axis_view n ne = (if ne \<le> 2 * n then map Item [0..<ne]
     else map Item [0..<n] @ Dots # map Item [ne - n..<ne])"

lemma axis_loop_plain:
  "n < i \<or> ne \<le> 2 * n \<Longrightarrow> axis_loop n ne i = map Item [i..<ne]"
proof (induction "ne - i" arbitrary: i)
  case 0
  then show ?case by (simp add: axis_loop.simps [of n ne i])
next
  case (Suc k)
  then have "axis_loop n ne (i + 1) = map Item [i + 1..<ne]" by (intro Suc.hyps(1)) auto
  with Suc show ?case by (auto simp: axis_loop.simps [of n ne i] upt_conv_Cons)
qed

lemma axis_loop_elided:
  assumes "2 * n < ne" and "0 < n" and "i \<le> n"
  shows "axis_loop n ne i = map Item [i..<n] @ Dots # map Item [ne - n..<ne]"
  using assms(3)
proof (induction "n - i" arbitrary: i)
  case 0
  then have "i = n" by simp
  moreover have "axis_loop n ne (ne - n + 1) = map Item [ne - n + 1..<ne]"
    using assms by (intro axis_loop_plain) auto
  ultimately show ?case using assms by (simp add: axis_loop.simps [of n ne n] upt_conv_Cons)
next
  case (Suc k)
  then have "axis_loop n ne (i + 1) = map Item [i + 1..<n] @ Dots # map Item [ne - n..<ne]"
    by (intro Suc.hyps(1)) auto
  with Suc assms show ?case by (auto simp: axis_loop.simps [of n ne i] upt_conv_Cons)
qed

lemma axis_loop_view: "0 < n \<Longrightarrow> axis_loop n ne 0 = axis_view n ne"
  using axis_loop_plain [of n 0 ne] axis_loop_elided [of n ne 0] by (auto simp: axis_view_def)

lemma axis_view_items: "Item i \<in> set (axis_view n ne) \<Longrightarrow> i < ne"
  by (auto simp: axis_view_def split: if_splits)

text \<open>A contiguous tensor: each stride is the previous one times the size of its axis.\<close>

definition contiguous :: "debug_type \<Rightarrow> nat \<times> nat \<times> nat \<times> nat \<Rightarrow> strides \<Rightarrow> string \<Rightarrow> bool" where
  "contiguous ty ne nb data \<longleftrightarrow> (case (ne, debug_size ty) of ((ne0, ne1, ne2, ne3), Some s) \<Rightarrow>
       nb0 nb = s \<and> nb1 nb = nb0 nb * ne0 \<and> nb2 nb = nb1 nb * ne1 \<and> nb3 nb = nb2 nb * ne2 \<and>
       length data = nb3 nb * ne3
     | _ \<Rightarrow> False)"

lemma stride_step: "i < ne \<Longrightarrow> i * nb + nb \<le> nb * ne" for i :: nat
  by (metis Suc_leI add.commute mult.commute mult_Suc mult_le_mono2)

lemma offset_inside:
  assumes "contiguous ty (ne0, ne1, ne2, ne3) nb data" and "debug_size ty = Some s"
    and "i0 < ne0" "i1 < ne1" "i2 < ne2" "i3 < ne3"
  shows "debug_offset nb i0 i1 i2 i3 + s \<le> length data"
proof -
  have c: "nb0 nb = s" "nb1 nb = nb0 nb * ne0" "nb2 nb = nb1 nb * ne1" "nb3 nb = nb2 nb * ne2"
    "length data = nb3 nb * ne3"
    using assms(1,2) by (simp_all add: contiguous_def)
  have "i0 * nb0 nb + s \<le> nb1 nb" "i1 * nb1 nb + nb1 nb \<le> nb2 nb" "i2 * nb2 nb + nb2 nb \<le> nb3 nb"
    "i3 * nb3 nb + nb3 nb \<le> length data"
    using stride_step assms(3-6) c by metis+
  then show ?thesis by (simp add: debug_offset_def)
qed

text \<open>The value at an index, and the printing of a contiguous tensor in terms of it.\<close>

definition elem :: "(debug_type \<Rightarrow> string \<Rightarrow> 'f) \<Rightarrow> string \<Rightarrow> debug_type \<Rightarrow> strides
    \<Rightarrow> nat \<Rightarrow> nat \<Rightarrow> nat \<Rightarrow> nat \<Rightarrow> 'f" where
  "elem conv data ty nb i0 i1 i2 i3 =
     conv ty (take (the (debug_size ty)) (drop (debug_offset nb i0 i1 i2 i3) data))"

lemma get_float_value:
  assumes "contiguous ty (ne0, ne1, ne2, ne3) nb data"
    and "i0 < ne0" "i1 < ne1" "i2 < ne2" "i3 < ne3"
  shows "debug_get_float_value conv data ty nb i0 i1 i2 i3 = Inr (elem conv data ty nb i0 i1 i2 i3)"
proof -
  obtain s where s: "debug_size ty = Some s"
    using assms(1) by (auto simp: contiguous_def split: option.splits)
  from offset_inside [OF assms(1) s assms(2-)] s show ?thesis
    by (simp add: debug_get_float_value_def elem_def Let_def)
qed

lemma map_res_map: "(\<And>x. x \<in> set xs \<Longrightarrow> f x = Inr (g x)) \<Longrightarrow> map_res f xs = Inr (map g xs)"
  by (induction xs) auto

lemma map_res_shown:
  assumes "\<And>i. Item i \<in> set xs \<Longrightarrow> f i = Inr (g i)"
  shows "map_res (shown_res f) xs = Inr (map (map_shown g) xs)"
proof (rule map_res_map)
  fix x assume "x \<in> set xs"
  with assms show "shown_res f x = Inr (map_shown g x)" by (cases x) auto
qed

definition page_view :: "(nat \<Rightarrow> nat \<Rightarrow> nat \<Rightarrow> 'f) \<Rightarrow> nat \<Rightarrow> nat \<times> nat \<times> nat \<Rightarrow> 'f page" where
  "page_view value n = (\<lambda>(ne0, ne1, ne2).
     map (map_shown (\<lambda>i2. map (map_shown (\<lambda>i1. map (map_shown (\<lambda>i0. value i0 i1 i2))
       (axis_view n ne0))) (axis_view n ne1))) (axis_view n ne2))"

lemma debug_print_view:
  assumes c: "contiguous ty (ne0, ne1, ne2, ne3) nb data" and n: "0 < n"
  shows "debug_print_tensor_values conv add zero data ty (ne0, ne1, ne2, ne3) nb n
    = Inr (map (\<lambda>i3. (page_view (\<lambda>i0 i1 i2. elem conv data ty nb i0 i1 i2 i3) n (ne0, ne1, ne2),
        foldl add zero (map (\<lambda>(i0, i1, i2, i3). elem conv data ty nb i0 i1 i2 i3)
          (all_indices ne0 ne1 ne2 ne3)))) [0..<ne3])"
proof -
  let ?v = "debug_get_float_value conv data ty nb" and ?e = "elem conv data ty nb"
  have v: "?v i0 i1 i2 i3 = Inr (?e i0 i1 i2 i3)"
    if "i0 < ne0" "i1 < ne1" "i2 < ne2" "i3 < ne3" for i0 i1 i2 i3
    by (rule get_float_value [OF c that])
  have all: "map_res (\<lambda>(i0, i1, i2, i3). ?v i0 i1 i2 i3) (all_indices ne0 ne1 ne2 ne3)
      = Inr (map (\<lambda>(i0, i1, i2, i3). ?e i0 i1 i2 i3) (all_indices ne0 ne1 ne2 ne3))"
    by (rule map_res_map) (auto simp: all_indices_def v)
  have row: "map_res (shown_res (\<lambda>i0. ?v i0 i1 i2 i3)) (axis_view n ne0)
      = Inr (map (map_shown (\<lambda>i0. ?e i0 i1 i2 i3)) (axis_view n ne0))"
    if "i1 < ne1" "i2 < ne2" "i3 < ne3" for i1 i2 i3
    by (rule map_res_shown) (use v that in \<open>auto dest: axis_view_items\<close>)
  have rows: "map_res (shown_res (\<lambda>i1. map_res (shown_res (\<lambda>i0. ?v i0 i1 i2 i3)) (axis_view n ne0)))
        (axis_view n ne1)
      = Inr (map (map_shown (\<lambda>i1. map (map_shown (\<lambda>i0. ?e i0 i1 i2 i3)) (axis_view n ne0)))
        (axis_view n ne1))"
    if "i2 < ne2" "i3 < ne3" for i2 i3
    by (rule map_res_shown) (use row that in \<open>auto dest: axis_view_items\<close>)
  have pages: "map_res (shown_res (\<lambda>i2. map_res (shown_res (\<lambda>i1.
        map_res (shown_res (\<lambda>i0. ?v i0 i1 i2 i3)) (axis_view n ne0))) (axis_view n ne1))) (axis_view n ne2)
      = Inr (page_view (\<lambda>i0 i1 i2. ?e i0 i1 i2 i3) n (ne0, ne1, ne2))"
    if "i3 < ne3" for i3
    unfolding page_view_def prod.case
    by (rule map_res_shown) (use rows that in \<open>auto dest: axis_view_items\<close>)
  show ?thesis
    unfolding debug_print_tensor_values_def Let_def prod.case axis_loop_view [OF n] all
    using n by (simp, intro map_res_map) (simp add: pages)
qed

end
