(* ===== verification/Tools_Properties.thy ===== *)
theory Tools_Properties
  imports Command_Line Debug_Print Server_Run
begin

text \<open>The properties of the programs around the library: the listener, the command line, the tensor printer.\<close>

section \<open>The listener\<close>

text \<open>
  One failed accept ends the service. After the completion of \<open>async_accept\<close> with an error no
  later step of the listener accepts again or opens a session, although the acceptor stays open
  until a signal arrives.
\<close>

theorem accept_error_final:
  assumes "listener_step\<^sup>*\<^sup>* (accepted False l) l'"
  shows "l_sessions l' = l_sessions l \<and> \<not> l_accepting l' \<and> (l_open l \<and> \<not> l_stopped l' \<longrightarrow> l_open l')"
proof -
  have "l_open l \<and> \<not> l_stopped l' \<longrightarrow> l_open l'"
    using assms
  proof (induction rule: rtranclp_induct)
    case (step l1 l2)
    then show ?case
      by (auto elim!: listener_stepE simp: signal_received_def listener_stop_def accepted_def
          do_accept_def Let_def split: if_splits)
  qed (simp add: accepted_def)
  moreover have "\<not> l_accepting (accepted False l)" "l_sessions (accepted False l) = l_sessions l"
    by (simp_all add: accepted_def)
  ultimately show ?thesis using not_accepting_steps [OF assms] by simp
qed

definition demo_listener :: tcp_listener where
  "demo_listener = accepted True (listener_run (listener_new
     \<lparr>or_open = True, or_option = True, or_bind = True, or_listen = True\<rparr>))"

theorem accept_error_final_witness:
  "\<exists>l'. listener_step (accepted False demo_listener) l' \<and> l_stopped l'
    \<and> l_sessions l' = l_sessions demo_listener \<and> l_sessions demo_listener = 1 \<and> \<not> l_accepting l'"
proof -
  let ?l = "accepted False demo_listener"
  have s: "l_waiting ?l" "l_signals ?l" "\<not> l_stopped ?l" "l_sessions demo_listener = 1"
    by (simp_all add: demo_listener_def accepted_def listener_run_def listener_new_def do_accept_def Let_def)
  then obtain l' where r: "signal_received True ?l = Inr l'" "l_stopped l'"
    by (simp add: signal_received_def listener_stop_def)
  have step: "listener_step ?l l'" by (rule listener_step.signal [OF s(1,3) r(1)])
  from accept_error_final [OF r_into_rtranclp [of listener_step, OF step]] step r(2) s(4)
  show ?thesis by blast
qed

section \<open>The command line\<close>

lemma prompts_filter: "prompts inputs = filter (\<lambda>l. l \<noteq> [] \<and> hd l \<noteq> CHR ''/'') inputs"
  by (induction inputs) (auto simp: prompts_Cons parse_line_def prompts_def Let_def List.map_filter_simps)

lemma converse_prefix: "\<exists>more. converse reply messages ps = messages @ more"
proof (induction ps arbitrary: messages)
  case (Cons p ps)
  let ?asked = "messages @ [user_message p]"
  from Cons [of "?asked @ [assistant_message (reply ?asked)]"] show ?case by auto
qed simp

lemma converse_entries:
  "length (converse reply messages ps) = length messages + 2 * length ps \<and>
    list_all (\<lambda>k. converse reply messages ps ! (length messages + 2 * k) = user_message (ps ! k) \<and>
      converse reply messages ps ! (length messages + 2 * k + 1)
        = assistant_message (reply (take (length messages + 2 * k + 1) (converse reply messages ps))))
      [0..<length ps]"
proof (induction ps arbitrary: messages)
  case (Cons p ps)
  let ?asked = "messages @ [user_message p]"
  let ?next = "?asked @ [assistant_message (reply ?asked)]"
  obtain more where more: "converse reply ?next ps = ?next @ more" using converse_prefix by blast
  from Cons.IH [of ?next] have len: "length (converse reply messages (p # ps))
      = length messages + 2 * length (p # ps)" by simp
  have "converse reply messages (p # ps) ! (length messages + 2 * k) = user_message ((p # ps) ! k) \<and>
      converse reply messages (p # ps) ! (length messages + 2 * k + 1)
        = assistant_message (reply (take (length messages + 2 * k + 1) (converse reply messages (p # ps))))"
    if "k < length (p # ps)" for k
  proof (cases k)
    case 0
    with more show ?thesis by (simp add: nth_append)
  next
    case (Suc j)
    with that Cons.IH [of ?next] show ?thesis by (simp add: list_all_iff)
  qed
  with len show ?case by (simp only: list_all_iff set_upt) auto
qed simp

text \<open>
  C31: the conversation of the interactive program. Its messages are the prompts among the lines read,
  in order, each followed by the model's answer to everything said up to it; empty lines and
  commands leave no trace.
\<close>

theorem cli_conversation:
  assumes "\<And>text. \<exists>ids. ce_tokenize E text = Inr ids" and "\<And>ms. ce_reply E ms = Inr (answer ms, evs ms)"
  shows "\<exists>said out' mc'. cli_loop E inputs ([], out, mc) = Inr (said, out', mc') \<and>
    (let ps = filter (\<lambda>l. l \<noteq> [] \<and> hd l \<noteq> CHR ''/'') inputs in
      length said = 2 * length ps \<and>
      list_all (\<lambda>k. said ! (2 * k) = user_message (ps ! k) \<and>
        said ! (2 * k + 1) = assistant_message (answer (take (2 * k + 1) said))) [0..<length ps])"
proof -
  from cli_loop_converse [where E = E and inputs = inputs and messages = "[]" and out = out and mc = mc,
      OF assms] obtain out' mc' where
    "cli_loop E inputs ([], out, mc) = Inr (converse answer [] (prompts inputs), out', mc')" by blast
  with converse_entries [of answer "[]" "prompts inputs"] show ?thesis
    by (simp add: Let_def flip: prompts_filter)
qed

definition demo_cli :: "nat cli_env" where
  "demo_cli = \<lparr>ce_tokenize = (\<lambda>text. Inr [1]), ce_reply = (\<lambda>ms. Inr (cm_message (last ms) @ ''!'', [])),
     ce_to_float = nat, ce_rate = (\<lambda>n ms. 0), ce_show = nat_dec\<rparr>"

theorem cli_conversation_witness:
  "\<exists>said out' mc'. cli_loop demo_cli [''hi'', ''/graph'', ''/what'', [], ''bye'']
      ([], [], collector_new ''run-1'' 0 0 0 0) = Inr (said, out', mc')
    \<and> said ! 2 = user_message ''bye'' \<and> said ! 3 = assistant_message ''bye!''"
proof -
  let ?in = "[''hi'', ''/graph'', ''/what'', [], ''bye'']"
  from cli_conversation [of demo_cli "\<lambda>ms. cm_message (last ms) @ ''!''" "\<lambda>ms. []" ?in "[]"
      "collector_new ''run-1'' 0 0 0 0"]
  obtain said out' mc' where
    c: "cli_loop demo_cli ?in ([], [], collector_new ''run-1'' 0 0 0 0) = Inr (said, out', mc')"
    and l: "length said = 4"
    and "said ! 0 = user_message ''hi''" "said ! 1 = assistant_message (cm_message (last (take 1 said)) @ ''!'')"
      "said ! 2 = user_message ''bye''" "said ! 3 = assistant_message (cm_message (last (take 3 said)) @ ''!'')"
    by (auto simp: demo_cli_def Let_def upt_rec numeral_2_eq_2 numeral_3_eq_3 numeral_eq_Suc)
  moreover from l have "said \<noteq> []" by auto
  with l have "last (take 3 said) = said ! 2" by (simp add: last_conv_nth)
  ultimately show ?thesis by (auto simp: user_message_def)
qed

section \<open>The server program\<close>

text \<open>
  The server does not notice that its model did not load. Started on a file that cannot be opened,
  or without any argument, it ends in a failed assertion of \<open>Model::instance\<close> and not in an error
  message.
\<close>

theorem serve_ignores_load:
  assumes "load (if 1 < length args then args ! 1 else []) = Inr (False, None)"
  shows "serve_main ff load address_ok r args = Inl AssertFailed"
  using assms by (simp add: serve_main_def model_instance_def)

theorem serve_ignores_load_witness:
  "\<forall>ff address_ok r. serve_main ff (\<lambda>path. model_load \<lparr>bd_cuda = False, bd_alloc = False\<rparr> (\<lambda>_. ''f32'') (\<lambda>i. True) \<lparr>fe_open = False, fe_stat = True,
     fe_bytes = [], fe_mapped = None, fe_stack = []\<rparr> None) address_ok r [''serve''] = Inl AssertFailed"
  by (intro allI serve_ignores_load) (simp add: model_load_def)

section \<open>The tensor printer\<close>

text \<open>
  C32: the printer shows a contiguous tensor without reading outside its bytes: every page shows,
  in each axis, the first and last \<open>n\<close> indices around one line of dots, or all of them when the
  axis has at most \<open>2 * n\<close>, each with the value at its place, and the sum of all values.
\<close>

theorem debug_print_shows:
  assumes "contiguous ty (ne0, ne1, ne2, ne3) nb data" and "0 < n"
  shows "debug_print_tensor_values conv add zero data ty (ne0, ne1, ne2, ne3) nb n
    = Inr (map (\<lambda>i3. (page_view (\<lambda>i0 i1 i2. elem conv data ty nb i0 i1 i2 i3) n (ne0, ne1, ne2),
        foldl add zero (map (\<lambda>(i0, i1, i2, i3). elem conv data ty nb i0 i1 i2 i3)
          (all_indices ne0 ne1 ne2 ne3)))) [0..<ne3])"
  by (rule debug_print_view [OF assms])

theorem debug_print_shows_witness:
  "debug_print_tensor_values (\<lambda>ty bs. of_char (hd bs) :: int) (+) 0 ''abcd'' DI8 (4, 1, 1, 1)
     \<lparr>nb0 = 1, nb1 = 4, nb2 = 4, nb3 = 4\<rparr> 1
   = Inr [([Item [Item [Item 97, Dots, Item 100]]], 394)]"
proof -
  have "contiguous DI8 (4, 1, 1, 1) \<lparr>nb0 = 1, nb1 = 4, nb2 = 4, nb3 = 4\<rparr> ''abcd''"
    by (simp add: contiguous_def)
  from debug_print_shows [OF this, of 1 "\<lambda>ty bs. of_char (hd bs) :: int" "(+)" 0] show ?thesis
    by (simp add: page_view_def axis_view_def elem_def all_indices_def debug_offset_def upt_rec)
qed

end
