(* ===== verification/Served_Chat.thy ===== *)
theory Served_Chat
  imports System_Properties Server_Run_Properties
begin

text \<open>
  From a model file and a request to the bytes a client reads: the chat of a well-formed request runs on
  the loaded model, its events reach the session through the dispatcher, and the strand writes them.
\<close>

section \<open>The parts\<close>








section \<open>The whole way\<close>









end
