(* ===== verification/Test_Programs.thy ===== *)
theory Test_Programs
  imports Command_Line "HOL-Library.Sublist"
begin

text \<open>
  The programs of \<open>tests/\<close>: the statistics of a weight tensor and the listing of
  \<open>test_weights.cpp\<close>, the listing of \<open>test_emb.cpp\<close>, and the programs that run one token and print
  its logits (\<open>test_debug.cpp\<close>, \<open>test_logits.cpp\<close>, \<open>test_minimal.cpp\<close>). These call \<open>Model::invoke\<close>,
  which the class does not have: it is a parameter. A line printed is a string without its end.
\<close>

section \<open>Statistics of a weight tensor\<close>

text \<open>
  What \<open>test_weights.cpp\<close> takes of floating-point arithmetic, of ggml and of the printing of numbers.
\<close>

record ('f, 'd) weight_ops =
  wo_float :: "u32 \<Rightarrow> 'f"
  wo_half :: "16 word \<Rightarrow> 'f"
  wo_isnan :: "'f \<Rightarrow> bool"
  wo_isinf :: "'f \<Rightarrow> bool"
  wo_is_zero :: "'f \<Rightarrow> bool"
  wo_lt :: "'f \<Rightarrow> 'f \<Rightarrow> bool"
  wo_max :: 'f
  wo_lowest :: 'f
  wo_sum_zero :: 'd
  wo_sum_add :: "'d \<Rightarrow> 'f \<Rightarrow> 'd"
  wo_show :: "'f \<Rightarrow> string"
  wo_percent :: "u64 \<Rightarrow> u64 \<Rightarrow> string"
  wo_mean :: "'d \<Rightarrow> u64 \<Rightarrow> string"
  wo_is_quantized :: "u32 \<Rightarrow> bool"
  wo_type_name :: "u32 \<Rightarrow> string"

record ('f, 'd) tensor_stats =
  ts_stat_name :: string
  total_elements :: u64
  nan_count :: u64
  inf_count :: u64
  zero_count :: u64
  min_val :: 'f
  max_val :: 'f
  ts_sum :: 'd

definition stats_new :: "('f, 'd) weight_ops \<Rightarrow> ('f, 'd) tensor_stats" where
  "stats_new W = \<lparr>ts_stat_name = [], total_elements = 0, nan_count = 0, inf_count = 0, zero_count = 0,
     min_val = wo_max W, max_val = wo_lowest W, ts_sum = wo_sum_zero W\<rparr>"

definition has_issues :: "('f, 'd) tensor_stats \<Rightarrow> bool" where
  "has_issues st \<longleftrightarrow> 0 < nan_count st \<or> 0 < inf_count st \<or> zero_count st = total_elements st"

definition stats_lines :: "('f, 'd) weight_ops \<Rightarrow> ('f, 'd) tensor_stats \<Rightarrow> string list" where
  "stats_lines W st =
     (let line = (\<lambda>label n. ''  '' @ label @ '': '' @ nat_dec (unat n) @ '' ('' @
        wo_percent W n (total_elements st) @ ''%)'') in
      [[], ''=== '' @ ts_stat_name st @ '' ==='', ''  Elements: '' @ nat_dec (unat (total_elements st)),
       line ''NaN'' (nan_count st), line ''Inf'' (inf_count st), line ''Zero'' (zero_count st)]
      @ (if 0 < total_elements st \<and> nan_count st = 0 \<and> inf_count st = 0
         then [''  Min: '' @ wo_show W (min_val st), ''  Max: '' @ wo_show W (max_val st),
           ''  Mean: '' @ wo_mean W (ts_sum st) (total_elements st)]
         else []))"

text \<open>The body of the two loops of \<open>validate_tensor\<close>.\<close>

definition count_value :: "('f, 'd) weight_ops \<Rightarrow> 'f \<Rightarrow> ('f, 'd) tensor_stats \<Rightarrow> ('f, 'd) tensor_stats" where
  "count_value W v st =
     (if wo_isnan W v then st\<lparr>nan_count := nan_count st + 1\<rparr>
      else if wo_isinf W v then st\<lparr>inf_count := inf_count st + 1\<rparr>
      else
        let st = (if wo_is_zero W v then st\<lparr>zero_count := zero_count st + 1\<rparr> else st);
            st = (if wo_lt W v (min_val st) then st\<lparr>min_val := v\<rparr> else st);
            st = (if wo_lt W (max_val st) v then st\<lparr>max_val := v\<rparr> else st)
        in st\<lparr>ts_sum := wo_sum_add W (ts_sum st) v\<rparr>)"

text \<open>The loop for the \<open>n\<close> elements from \<open>i\<close>; \<open>at i\<close> reads element \<open>i\<close>.\<close>

fun count_loop :: "('f, 'd) weight_ops \<Rightarrow> (nat \<Rightarrow> 'f res) \<Rightarrow> nat \<Rightarrow> nat \<Rightarrow> ('f, 'd) tensor_stats
    \<Rightarrow> ('f, 'd) tensor_stats res" where
  "count_loop W at i 0 st = Inr st"
| "count_loop W at i (Suc n) st = rbind (at i) (\<lambda>v. count_loop W at (Suc i) n (count_value W v st))"

text \<open>The values of \<open>GGML_TYPE_F32\<close> and \<open>GGML_TYPE_F16\<close>, and the elements at \<open>p\<close> of the bytes \<open>m\<close>.\<close>

definition GGML_TYPE_F32 :: u32 where "GGML_TYPE_F32 = 0"
definition GGML_TYPE_F16 :: u32 where "GGML_TYPE_F16 = 1"

definition half_at :: "('f, 'd) weight_ops \<Rightarrow> string \<Rightarrow> int \<Rightarrow> nat \<Rightarrow> 'f res" where
  "half_at W m p i = rbind (rd_u16 m (p + 2 * int i)) (\<lambda>w. Inr (wo_half W w))"

definition float_at :: "('f, 'd) weight_ops \<Rightarrow> string \<Rightarrow> int \<Rightarrow> nat \<Rightarrow> 'f res" where
  "float_at W m p i = rbind (rd_u32 m (p + 4 * int i)) (\<lambda>w. Inr (wo_float W w))"

text \<open>The statistics and the lines printed. The product of the sizes wraps at 64 bits.\<close>

definition validate_tensor :: "('f, 'd) weight_ops \<Rightarrow> string \<Rightarrow> string \<Rightarrow> int \<Rightarrow> u32 \<Rightarrow> u64 list
    \<Rightarrow> (('f, 'd) tensor_stats \<times> string list) res" where
  "validate_tensor W nm m p ty dims =
     (let total = foldl (*) 1 dims;
          stats = (stats_new W)\<lparr>ts_stat_name := nm, total_elements := total\<rparr> in
      if ty = GGML_TYPE_F16 then
        rbind (count_loop W (half_at W m p) 0 (unat total) stats) (\<lambda>st. Inr (st, []))
      else if ty = GGML_TYPE_F32 then
        rbind (count_loop W (float_at W m p) 0 (unat total) stats) (\<lambda>st. Inr (st, []))
      else if wo_is_quantized W ty then
        Inr (stats, [[], ''=== '' @ nm @ '' ==='', ''  [SKIPPED] Quantized type: '' @ wo_type_name W ty])
      else
        Inr (stats, [[], ''=== '' @ nm @ '' ==='', ''  [SKIPPED] Unsupported type: '' @ wo_type_name W ty]))"

section \<open>Listings\<close>

fun dims_text :: "u64 list \<Rightarrow> string" where
  "dims_text [] = []"
| "dims_text [d] = nat_dec (unat d)"
| "dims_text (d # ds) = nat_dec (unat d) @ '', '' @ dims_text ds"

text \<open>The loop of \<open>test_weights.cpp\<close>: it counts and lists the tensors, and reads none of them.\<close>

definition is_weight :: "tensor_info_t \<Rightarrow> bool" where
  "is_weight info \<longleftrightarrow> sublist ''weight'' (tn_name info) \<or> sublist ''embd'' (tn_name info)"

fun weights_loop :: "tensor_info_t list \<Rightarrow> nat \<Rightarrow> string list \<Rightarrow> nat \<times> string list" where
  "weights_loop [] checked out = (checked, out)"
| "weights_loop (info # infos) checked out =
     (if \<not> is_weight info then weights_loop infos checked out
      else weights_loop infos (checked + 1) (out @
        [[], ''Tensor: '' @ tn_name info, ''  Type: '' @ type_name info,
         ''  Dims: ['' @ dims_text (dimensions info) @ '']'']))"

definition valid_line :: string where
  "valid_line = [CHR 0xE2, CHR 0x9C, CHR 0x93] @ '' All weights look valid (no NaN/Inf detected)''"

definition issues_line :: string where
  "issues_line = [CHR 0xE2, CHR 0x9C, CHR 0x97] @ '' Some weights have issues!''"

text \<open>
  What the programs have in common: without an argument or a model they end with status 1, and at the
  end they unload the model.
\<close>

definition with_model :: "(string \<Rightarrow> (bool \<times> model_impl option) res) \<Rightarrow> string list
    \<Rightarrow> (model_impl \<Rightarrow> (nat \<times> string list) res) \<Rightarrow> (nat \<times> string list) res" where
  "with_model load args body =
     (if length args < 2 then Inr (1, [])
      else rbind (load (args ! 1)) (\<lambda>(is_loaded, inst).
        if \<not> is_loaded then Inr (1, [])
        else rbind (model_instance inst) (\<lambda>model.
          rbind (body model) (\<lambda>(status, out). Inr (status, out @ fst (model_unload inst))))))"

definition weights_main :: "(u32 \<Rightarrow> string) \<Rightarrow> (string \<Rightarrow> (bool \<times> model_impl option) res) \<Rightarrow> string list
    \<Rightarrow> (nat \<times> string list) res" where
  "weights_main type_nm load args = with_model load args (\<lambda>model.
     rbind (model_tensor_info type_nm model) (\<lambda>infos.
     let tensors_with_issues = (0 :: nat);
         (checked, out) = weights_loop infos 0
           [''Loading model: '' @ args ! 1, [], ''Found '' @ nat_dec (length infos) @ '' tensors'',
            ''Validating weights...'']
     in Inr (0, out @ [[], ''=== Summary ==='', ''Tensors checked: '' @ nat_dec checked,
       ''Tensors with issues: '' @ nat_dec tensors_with_issues, [],
       if tensors_with_issues = 0 then valid_line else issues_line])))"

definition emb_lines :: "tensor_info_t \<Rightarrow> string list" where
  "emb_lines info =
     (if \<not> sublist ''token_embd'' (tn_name info) then []
      else (''Found: '' @ tn_name info @ '' | type: '' @ type_name info @ '' | dims: [''
          @ dims_text (dimensions info) @ '']'')
        # (case dimensions info of
             emb_dim # vocab_size # _ \<Rightarrow>
               [''emb_dim: '' @ nat_dec (unat emb_dim) @ '', vocab_size: '' @ nat_dec (unat vocab_size),
                ''Token 13048 embedding (first 10 values, raw): '']
           | _ \<Rightarrow> []))"

definition emb_main :: "(u32 \<Rightarrow> string) \<Rightarrow> (string \<Rightarrow> (bool \<times> model_impl option) res) \<Rightarrow> string list
    \<Rightarrow> (nat \<times> string list) res" where
  "emb_main type_nm load args = with_model load args (\<lambda>model.
     rbind (model_tensor_info type_nm model) (\<lambda>infos. Inr (0, concat (map emb_lines infos))))"

section \<open>Logits of one token\<close>

text \<open>\<open>for (i = 1; i < size; i++) if (logits[i] > max_val) ...\<close> after taking \<open>logits[0]\<close>.\<close>

function max_logit_loop :: "('f \<Rightarrow> 'f \<Rightarrow> bool) \<Rightarrow> 'f list \<Rightarrow> nat \<Rightarrow> nat \<times> 'f \<Rightarrow> nat \<times> 'f" where
  "max_logit_loop lt logits i (max_idx, max_v) =
     (if i < length logits then
        max_logit_loop lt logits (i + 1)
          (if lt max_v (logits ! i) then (i, logits ! i) else (max_idx, max_v))
      else (max_idx, max_v))"
  by pat_completeness auto
termination by (relation "measure (\<lambda>(lt, logits, i, b). length logits - i)") auto

declare max_logit_loop.simps [simp del]

definition max_logit :: "('f \<Rightarrow> 'f \<Rightarrow> bool) \<Rightarrow> 'f list \<Rightarrow> (nat \<times> 'f) res" where
  "max_logit lt logits = rbind (vec_at logits 0) (\<lambda>v. Inr (max_logit_loop lt logits 1 (0, v)))"

definition logit_lines :: "('f \<Rightarrow> string) \<Rightarrow> nat \<Rightarrow> 'f list \<Rightarrow> string list" where
  "logit_lines shw n logits =
     map (\<lambda>i. nat_dec i @ '': '' @ shw (logits ! i)) [0..<min n (length logits)]"

definition max_line :: "('f \<Rightarrow> string) \<Rightarrow> nat \<times> 'f \<Rightarrow> string" where
  "max_line shw m = ''Max logit at index '' @ nat_dec (fst m) @ '': '' @ shw (snd m)"

definition logits_main :: "('f \<Rightarrow> 'f \<Rightarrow> bool) \<Rightarrow> ('f \<Rightarrow> string) \<Rightarrow> (model_impl \<Rightarrow> u32 list \<Rightarrow> 'f list res)
    \<Rightarrow> (string \<Rightarrow> (bool \<times> model_impl option) res) \<Rightarrow> string list \<Rightarrow> (nat \<times> string list) res" where
  "logits_main lt shw model_invoke load args = with_model load args (\<lambda>model.
     rbind (model_invoke model [13048]) (\<lambda>logits.
     rbind (max_logit lt logits) (\<lambda>m.
     Inr (0, [''Running with token: 13048 (Hi)'', [], ''First 20 logits from inferlm:'']
       @ logit_lines shw 20 logits @ [[], max_line shw m]))))"

text \<open>
  \<open>test_minimal.cpp\<close> prints twenty logits without looking at their number. The second component of the
  value of \<open>minimal_run\<close> is what it writes to \<open>inferlm_logits.txt\<close>.
\<close>

fun values_text :: "('f \<Rightarrow> string) \<Rightarrow> 'f list \<Rightarrow> nat list \<Rightarrow> string res" where
  "values_text shw logits [] = Inr []"
| "values_text shw logits (i # is) = rbind (vec_at logits i) (\<lambda>v.
     rbind (values_text shw logits is) (\<lambda>s. Inr (shw v @ '' '' @ s)))"

definition minimal_run :: "('f \<Rightarrow> 'f \<Rightarrow> bool) \<Rightarrow> ('f \<Rightarrow> string) \<Rightarrow> (u32 list \<Rightarrow> 'f list res)
    \<Rightarrow> (string list \<times> string list) res" where
  "minimal_run lt shw model_invoke =
     rbind (model_invoke [13048]) (\<lambda>logits.
     let file_lines = logit_lines shw (length logits) logits in
     rbind (values_text shw logits [0..<20]) (\<lambda>first.
     rbind (max_logit lt logits) (\<lambda>m.
     Inr ([''Saving '' @ nat_dec (length logits) @ '' logits to inferlm_logits.txt'',
       ''First 20 logits: '' @ first, max_line shw m], file_lines))))"

definition minimal_main :: "('f \<Rightarrow> 'f \<Rightarrow> bool) \<Rightarrow> ('f \<Rightarrow> string) \<Rightarrow> (model_impl \<Rightarrow> u32 list \<Rightarrow> 'f list res)
    \<Rightarrow> (string \<Rightarrow> (bool \<times> model_impl option) res) \<Rightarrow> string list \<Rightarrow> (nat \<times> string list) res" where
  "minimal_main lt shw model_invoke load args = with_model load args (\<lambda>model.
     rbind (minimal_run lt shw (model_invoke model)) (\<lambda>(out, file_lines). Inr (0, out)))"

text \<open>\<open>test_debug.cpp\<close> runs on a fixed file.\<close>

definition debug_test_main :: "('f \<Rightarrow> string) \<Rightarrow> (model_impl \<Rightarrow> u32 list \<Rightarrow> 'f list res)
    \<Rightarrow> (string \<Rightarrow> (bool \<times> model_impl option) res) \<Rightarrow> (nat \<times> string list) res" where
  "debug_test_main shw model_invoke load =
     rbind (load ''model_files/qwen2.5-1.5b-instruct-q5_k_m.gguf'') (\<lambda>(is_loaded, inst).
       if \<not> is_loaded then Inr (1, [''Loading model...''])
       else rbind (model_instance inst) (\<lambda>model.
         rbind (model_invoke model [13048]) (\<lambda>logits.
         rbind (values_text shw logits [0..<min 10 (length logits)]) (\<lambda>first.
         Inr (0, [''Loading model...'', ''Model loaded, running inference...'', ''Input tokens: 13048 '',
           ''Inference complete, got '' @ nat_dec (length logits) @ '' logits'',
           ''First 10 logits: '' @ first] @ fst (model_unload inst))))))"

section \<open>Facts\<close>

text \<open>The counters of the elements seen so far.\<close>

lemma count_loop_fold:
  assumes "\<And>j. j < n \<Longrightarrow> at (i + j) = Inr (vs ! j)" and "length vs = n"
  shows "count_loop W at i n st = Inr (fold (count_value W) vs st)"
  using assms
proof (induction vs arbitrary: i n st)
  case (Cons v vs)
  then obtain n' where n: "n = Suc n'" by (cases n) auto
  have "at (Suc i + j) = Inr (vs ! j)" if "j < n'" for j
    using Cons.prems(1) [of "Suc j"] that n by simp
  from Cons.IH [OF this] Cons.prems n show ?case using Cons.prems(1) [of 0] by simp
qed simp

lemma count_value_counters [simp]:
  "ts_stat_name (count_value W v st) = ts_stat_name st"
  "total_elements (count_value W v st) = total_elements st"
  "nan_count (count_value W v st) = nan_count st + (if wo_isnan W v then 1 else 0)"
  "inf_count (count_value W v st) = inf_count st + (if \<not> wo_isnan W v \<and> wo_isinf W v then 1 else 0)"
  "zero_count (count_value W v st) = zero_count st
    + (if \<not> wo_isnan W v \<and> \<not> wo_isinf W v \<and> wo_is_zero W v then 1 else 0)"
  by (simp_all add: count_value_def Let_def)

definition finite_value :: "('f, 'd) weight_ops \<Rightarrow> 'f \<Rightarrow> bool" where
  "finite_value W v \<longleftrightarrow> \<not> wo_isnan W v \<and> \<not> wo_isinf W v"

lemma fold_counters:
  "ts_stat_name (fold (count_value W) vs st) = ts_stat_name st"
  "total_elements (fold (count_value W) vs st) = total_elements st"
  "nan_count (fold (count_value W) vs st) = nan_count st + word_of_nat (length (filter (wo_isnan W) vs))"
  "inf_count (fold (count_value W) vs st) = inf_count st
    + word_of_nat (length (filter (\<lambda>v. \<not> wo_isnan W v \<and> wo_isinf W v) vs))"
  "zero_count (fold (count_value W) vs st) = zero_count st
    + word_of_nat (length (filter (\<lambda>v. finite_value W v \<and> wo_is_zero W v) vs))"
  by (induction vs arbitrary: st) (simp_all add: finite_value_def)

text \<open>The order of the finite floats: a strict order in which being incomparable is transitive.\<close>

definition float_order :: "('f \<Rightarrow> 'f \<Rightarrow> bool) \<Rightarrow> bool" where
  "float_order lt \<longleftrightarrow> (\<forall>a b. lt a b \<longrightarrow> \<not> lt b a) \<and> (\<forall>a b c. lt a c \<longrightarrow> lt a b \<or> lt b c)"

lemma float_orderD:
  assumes "float_order lt"
  shows "\<not> lt a a" and "lt a b \<Longrightarrow> \<not> lt b a" and "lt a c \<Longrightarrow> \<not> lt a b \<Longrightarrow> lt b c"
  using assms unfolding float_order_def by blast+

text \<open>\<open>e\<close> is the start or one of the values, and no value nor the start is below it.\<close>

definition least_seen :: "('f \<Rightarrow> 'f \<Rightarrow> bool) \<Rightarrow> 'f \<Rightarrow> 'f list \<Rightarrow> 'f \<Rightarrow> bool" where
  "least_seen lt start vs e \<longleftrightarrow> e \<in> set (start # vs) \<and> list_all (\<lambda>v. \<not> lt v e) (start # vs)"

lemma least_seen_Nil: "float_order lt \<Longrightarrow> least_seen lt start [] e \<longleftrightarrow> e = start"
  using float_orderD(1) [of lt start] by (auto simp: least_seen_def)

lemma least_seen_step:
  assumes "float_order lt" and "least_seen lt (if lt v start then v else start) vs e"
  shows "least_seen lt start (v # vs) e"
proof (cases "lt v start")
  case True
  with assms(2) have e: "\<not> lt v e" by (simp add: least_seen_def)
  have "\<not> lt start e"
  proof
    assume "lt start e"
    with float_orderD(2) [OF assms(1) True] have "lt v e" using float_orderD(3) [OF assms(1), of start e v] by blast
    with e show False ..
  qed
  with True assms(2) e show ?thesis by (auto simp: least_seen_def)
next
  case False
  with assms(2) have e: "\<not> lt start e" by (simp add: least_seen_def)
  with False have "\<not> lt v e" using float_orderD(3) [OF assms(1), of v e start] by blast
  with False assms(2) show ?thesis by (auto simp: least_seen_def)
qed

lemma float_order_flip: "float_order lt \<Longrightarrow> float_order (\<lambda>a b. lt b a)"
  unfolding float_order_def by blast

lemma count_value_extremes:
  "min_val (count_value W v st) = (if finite_value W v \<and> wo_lt W v (min_val st) then v else min_val st)"
  "max_val (count_value W v st) = (if finite_value W v \<and> wo_lt W (max_val st) v then v else max_val st)"
  by (simp_all add: count_value_def finite_value_def Let_def)

lemma fold_min:
  assumes "float_order (wo_lt W)"
  shows "least_seen (wo_lt W) (min_val st) (filter (finite_value W) vs) (min_val (fold (count_value W) vs st))"
proof (induction vs arbitrary: st)
  case (Cons v vs)
  from Cons [of "count_value W v st"] show ?case
    by (cases "finite_value W v") (simp_all add: count_value_extremes least_seen_step [OF assms])
qed (simp add: least_seen_Nil [OF assms])

lemma fold_max:
  assumes "float_order (wo_lt W)"
  shows "least_seen (\<lambda>a b. wo_lt W b a) (max_val st) (filter (finite_value W) vs)
    (max_val (fold (count_value W) vs st))"
proof (induction vs arbitrary: st)
  case (Cons v vs)
  from Cons [of "count_value W v st"] show ?case
    by (cases "finite_value W v")
      (simp_all add: count_value_extremes least_seen_step [OF float_order_flip [OF assms]])
qed (simp add: least_seen_Nil [OF float_order_flip [OF assms]])

text \<open>Elements whose bytes lie in the map can be read.\<close>

lemma rd_word_in:
  assumes "0 \<le> p"
  shows "p + 2 \<le> int (length m) \<Longrightarrow> \<exists>w. rd_u16 m p = Inr w"
    and "p + 4 \<le> int (length m) \<Longrightarrow> \<exists>w. rd_u32 m p = Inr w"
  using assms by (simp_all add: rd_u16_def rd_u32_def rd_def)

lemma max_logit_scan:
  "max_logit_loop lt logits i b = max_scan lt b i (drop i logits)"
proof (induction lt logits i b rule: max_logit_loop.induct)
  case (1 lt logits i max_idx max_v)
  show ?case
  proof (cases "i < length logits")
    case True
    then have "drop i logits = logits ! i # drop (Suc i) logits" by (rule Cons_nth_drop_Suc [symmetric])
    with 1 True show ?thesis by (simp add: max_logit_loop.simps [of lt logits i])
  qed (simp add: max_logit_loop.simps [of lt logits i])
qed

end
