(* ===== verification/Test_Properties.thy ===== *)
theory Test_Properties
  imports Test_Programs
begin

text \<open>The properties of the programs of \<open>tests/\<close>.\<close>

section \<open>Weights\<close>

definition element_at :: "('f, 'd) weight_ops \<Rightarrow> u32 \<Rightarrow> string \<Rightarrow> int \<Rightarrow> nat \<Rightarrow> 'f res" where
  "element_at W ty m p = (if ty = GGML_TYPE_F16 then half_at W m p else float_at W m p)"

definition element_size :: "u32 \<Rightarrow> nat" where
  "element_size ty = (if ty = GGML_TYPE_F16 then 2 else 4)"

lemma elements_read:
  assumes "0 \<le> p" and "p + int (element_size ty * n) \<le> int (length m)"
  shows "\<exists>vs. length vs = n \<and> (\<forall>i < n. element_at W ty m p i = Inr (vs ! i))"
proof -
  have "\<exists>v. element_at W ty m p i = Inr v" if "i < n" for i
  proof -
    have "element_size ty * i + element_size ty \<le> element_size ty * n"
      using that mult_le_mono2 [of "Suc i" n "element_size ty"] by simp
    then have "int (element_size ty * i) + int (element_size ty) \<le> int (element_size ty * n)"
      by (simp only: of_nat_add [symmetric] of_nat_le_iff)
    with assms(2) have "p + int (element_size ty * i) + int (element_size ty) \<le> int (length m)"
      by linarith
    with assms(1) rd_word_in [of "p + int (element_size ty * i)" m] show ?thesis
      by (auto simp: element_at_def element_size_def half_at_def float_at_def split: if_splits)
  qed
  then obtain f where "\<forall>i < n. element_at W ty m p i = Inr (f i)" by metis
  then show ?thesis by (intro exI [of _ "map f [0..<n]"]) simp
qed

lemma validate_fold:
  assumes "ty = GGML_TYPE_F16 \<or> ty = GGML_TYPE_F32" and "n = unat (foldl (*) 1 dims)"
    and "length vs = n" and "\<forall>i < n. element_at W ty m p i = Inr (vs ! i)"
  shows "validate_tensor W nm m p ty dims = Inr (fold (count_value W) vs
    ((stats_new W)\<lparr>ts_stat_name := nm, total_elements := foldl (*) 1 dims\<rparr>), [])"
proof -
  have "count_loop W (element_at W ty m p) 0 n st = Inr (fold (count_value W) vs st)" for st
    using assms(3,4) by (intro count_loop_fold) simp_all
  with assms(1,2) show ?thesis
    by (auto simp: validate_tensor_def element_at_def GGML_TYPE_F16_def GGML_TYPE_F32_def Let_def)
qed

lemma unat_count: "length xs \<le> unat (w :: u64) \<Longrightarrow> unat (word_of_nat (length xs) :: u64) = length xs"
  using unsigned_less [where 'a = nat, of w] by (simp add: unsigned_of_nat take_bit_nat_eq_self)

lemma length_filter_all: "length (filter P xs) = length xs \<longleftrightarrow> list_all P xs"
proof (induction xs)
  case (Cons x xs)
  have "length (filter P xs) \<noteq> Suc (length xs)" using length_filter_le [of P xs] by linarith
  with Cons show ?case by simp
qed simp

text \<open>
  C33: the statistics of a weight tensor. For a half or single precision tensor whose bytes are in the
  map, they count exactly the NaN, the infinite and the zero elements, the extremes are the least and
  greatest of the finite ones (or the largest and lowest float when there is none beyond them), and
  issues are reported exactly if some element is not finite or all are zero.
\<close>

theorem weight_statistics:
  assumes "ty = GGML_TYPE_F16 \<or> ty = GGML_TYPE_F32" and "0 \<le> p"
    and "p + int (element_size ty * unat (foldl (*) 1 dims)) \<le> int (length m)"
    and "float_order (wo_lt W)"
  shows "\<exists>st vs. validate_tensor W nm m p ty dims = Inr (st, []) \<and> length vs = unat (foldl (*) 1 dims) \<and>
    (\<forall>i < length vs. element_at W ty m p i = Inr (vs ! i)) \<and>
    unat (nan_count st) = length (filter (wo_isnan W) vs) \<and>
    unat (inf_count st) = length (filter (\<lambda>v. \<not> wo_isnan W v \<and> wo_isinf W v) vs) \<and>
    unat (zero_count st) = length (filter (\<lambda>v. finite_value W v \<and> wo_is_zero W v) vs) \<and>
    least_seen (wo_lt W) (wo_max W) (filter (finite_value W) vs) (min_val st) \<and>
    least_seen (\<lambda>a b. wo_lt W b a) (wo_lowest W) (filter (finite_value W) vs) (max_val st) \<and>
    (has_issues st \<longleftrightarrow> list_ex (\<lambda>v. \<not> finite_value W v) vs \<or> list_all (wo_is_zero W) vs)"
proof -
  let ?n = "unat (foldl (*) 1 dims)"
  let ?s = "(stats_new W)\<lparr>ts_stat_name := nm, total_elements := foldl (*) 1 dims\<rparr>"
  from elements_read [OF assms(2,3)] obtain vs where
    vs: "length vs = ?n" "\<forall>i < ?n. element_at W ty m p i = Inr (vs ! i)" by blast
  let ?st = "fold (count_value W) vs ?s"
  have small: "length (filter P vs) \<le> unat (foldl (*) 1 dims)" for P using vs(1) by (metis length_filter_le)
  have c: "unat (nan_count ?st) = length (filter (wo_isnan W) vs)"
    "unat (inf_count ?st) = length (filter (\<lambda>v. \<not> wo_isnan W v \<and> wo_isinf W v) vs)"
    "unat (zero_count ?st) = length (filter (\<lambda>v. finite_value W v \<and> wo_is_zero W v) vs)"
    by (simp_all add: fold_counters stats_new_def unat_count [OF small])
  have "zero_count ?st = total_elements ?st \<longleftrightarrow> list_all (\<lambda>v. finite_value W v \<and> wo_is_zero W v) vs"
    unfolding word_unat_eq_iff c(3) by (simp add: fold_counters(2) length_filter_all flip: vs(1))
  moreover have "0 < nan_count ?st \<longleftrightarrow> list_ex (wo_isnan W) vs"
    "0 < inf_count ?st \<longleftrightarrow> list_ex (\<lambda>v. \<not> wo_isnan W v \<and> wo_isinf W v) vs"
    using c(1,2) by (auto simp: word_less_nat_alt list_ex_iff filter_empty_conv)
  ultimately have "has_issues ?st \<longleftrightarrow> list_ex (\<lambda>v. \<not> finite_value W v) vs \<or> list_all (wo_is_zero W) vs"
    by (auto simp: has_issues_def finite_value_def list_ex_iff list_all_iff)
  with validate_fold [OF assms(1) refl vs, of nm] vs c fold_min [OF assms(4), of ?s vs]
    fold_max [OF assms(4), of ?s vs] show ?thesis
    by (intro exI [of _ ?st] exI [of _ vs]) (simp add: stats_new_def)
qed

text \<open>Integers for floats: 99 is NaN, 100 infinity.\<close>

definition demo_weights :: "(int, int) weight_ops" where
  "demo_weights = \<lparr>wo_float = uint, wo_half = uint, wo_isnan = (\<lambda>v. v = 99), wo_isinf = (\<lambda>v. v = 100),
     wo_is_zero = (\<lambda>v. v = 0), wo_lt = (<), wo_max = 1000, wo_lowest = - 1000, wo_sum_zero = 0,
     wo_sum_add = (+), wo_show = int_dec, wo_percent = (\<lambda>n t. ''?''), wo_mean = (\<lambda>s n. ''?''),
     wo_is_quantized = (\<lambda>t. False), wo_type_name = (\<lambda>t. ''f16'')\<rparr>"

theorem weight_statistics_witness:
  "\<exists>st vs. validate_tensor demo_weights ''w'' (enc_u16 7 @ enc_u16 0 @ enc_u16 99) 0 1 [3] = Inr (st, []) \<and>
    vs = [7, 0, 99] \<and> nan_count st = 1 \<and> zero_count st = 1 \<and> min_val st = 0 \<and> max_val st = 7 \<and> has_issues st"
proof -
  let ?m = "enc_u16 7 @ enc_u16 0 @ enc_u16 99"
  have sel: "wo_lt demo_weights = (<)" "wo_max demo_weights = 1000" "wo_lowest demo_weights = - 1000"
    "wo_isnan demo_weights = (\<lambda>v. v = 99)" "wo_isinf demo_weights = (\<lambda>v. v = 100)"
    "wo_is_zero demo_weights = (\<lambda>v. v = 0)" "wo_half demo_weights = uint"
    by (simp_all add: demo_weights_def)
  have "float_order (wo_lt demo_weights)" unfolding sel float_order_def by auto
  moreover have "0 + int (element_size 1 * unat (foldl (*) 1 [3 :: u64])) \<le> int (length ?m)"
    by (simp add: element_size_def GGML_TYPE_F16_def)
  moreover have "(1 :: u32) = GGML_TYPE_F16 \<or> 1 = GGML_TYPE_F32" by (simp add: GGML_TYPE_F16_def)
  ultimately obtain st vs where st: "validate_tensor demo_weights ''w'' ?m 0 1 [3] = Inr (st, [])"
      "length vs = unat (foldl (*) 1 [3 :: u64])"
    and at: "\<forall>i < length vs. element_at demo_weights 1 ?m 0 i = Inr (vs ! i)"
    and c: "unat (nan_count st) = length (filter (wo_isnan demo_weights) vs)"
      "unat (zero_count st) = length (filter (\<lambda>v. finite_value demo_weights v \<and> wo_is_zero demo_weights v) vs)"
      "least_seen (wo_lt demo_weights) (wo_max demo_weights) (filter (finite_value demo_weights) vs) (min_val st)"
      "least_seen (\<lambda>a b. wo_lt demo_weights b a) (wo_lowest demo_weights) (filter (finite_value demo_weights) vs) (max_val st)"
      "has_issues st \<longleftrightarrow> list_ex (\<lambda>v. \<not> finite_value demo_weights v) vs \<or> list_all (wo_is_zero demo_weights) vs"
    using weight_statistics [of 1 0 "[3]" ?m demo_weights "''w''"] by blast
  have "vs = [7, 0, 99]"
  proof (rule nth_equalityI)
    have "rd_u16 ?m 0 = Inr 7" "rd_u16 ?m 2 = Inr 0" "rd_u16 ?m 4 = Inr 99"
      using rd_enc(2) [of ?m "[]" "enc_u16 7" "enc_u16 0 @ enc_u16 99" 0 7]
        rd_enc(2) [of ?m "enc_u16 7" "enc_u16 0" "enc_u16 99" 2 0]
        rd_enc(2) [of ?m "enc_u16 7 @ enc_u16 0" "enc_u16 99" "[]" 4 99] by simp_all
    then have "half_at demo_weights ?m 0 0 = Inr 7" "half_at demo_weights ?m 0 1 = Inr 0"
      "half_at demo_weights ?m 0 2 = Inr 99" by (simp_all add: half_at_def sel)
    moreover
    fix i assume "i < length vs"
    with st(2) have "i = 0 \<or> i = 1 \<or> i = 2" by auto
    moreover from this at st(2) have "element_at demo_weights 1 ?m 0 i = Inr (vs ! i)" by auto
    ultimately show "vs ! i = [7, 0, 99] ! i"
      by (auto simp: element_at_def GGML_TYPE_F16_def)
  qed (simp add: st(2))
  with st(1) c show ?thesis
    by (auto simp: sel finite_value_def least_seen_def word_unat_eq_iff)
qed

text \<open>
  The program never looks at the elements. Whatever the model holds, once it is loaded the report
  ends with no issues and the line that all weights look valid, before the model is unloaded.
\<close>

theorem weights_always_valid:
  assumes "2 \<le> length args" and "load (args ! 1) = Inr (True, Some model)"
    and "model_tensor_info type_nm model = Inr infos"
  shows "\<exists>out. weights_main type_nm load args = Inr (0, out @ [''Tensors checked: ''
    @ nat_dec (length (filter is_weight infos)), ''Tensors with issues: 0'', [], valid_line,
    ''Model unloaded''])"
proof -
  have "fst (weights_loop infos n out) = n + length (filter is_weight infos)" for n out
    by (induction infos n out rule: weights_loop.induct) auto
  moreover obtain out where "weights_loop infos 0 [''Loading model: '' @ args ! 1, [],
      ''Found '' @ nat_dec (length infos) @ '' tensors'', ''Validating weights...''] = (length (filter is_weight infos), out)"
    by (metis calculation add_0 prod.collapse)
  moreover have "nat_dec 0 = ''0''" by code_simp
  ultimately show ?thesis using assms
    by (intro exI [of _ "out @ [[], ''=== Summary ==='']"])
      (simp add: weights_main_def with_model_def model_instance_def model_unload_def Let_def)
qed

section \<open>The largest logit\<close>

text \<open>The loop of the test programs finds the token that greedy sampling takes.\<close>

theorem test_max_is_greedy:
  assumes "logits \<noteq> []"
  shows "max_logit (f_lt F) logits = Inr (greedy F logits)"
  using assms by (cases logits)
    (simp_all add: max_logit_def max_logit_scan greedy_def max_element_def)

end
