(* ===== verification/Tokenizer_Facade.thy ===== *)
theory Tokenizer_Facade
  imports Tokenizer_Facts
begin

text \<open>
  The public tokenizer (\<open>include/zinferlm/tokenizer.h\<close>, \<open>src/tokenizer/tokenizer.cpp\<close>): a pointer to
  the implementation, which is null in a default-constructed and in a moved-from tokenizer; every
  operation dereferences it. An operation that changes the implementation returns the tokenizer it
  leaves behind.
\<close>

type_synonym public_tokenizer = "tokenizer option"

definition tokenizer_default :: public_tokenizer where
  "tokenizer_default = None"

definition tokenizer_for_model :: "pcre \<Rightarrow> tokenizer_info_t \<Rightarrow> public_tokenizer res" where
  "tokenizer_for_model P info = rbind (for_model P info) (\<lambda>z. Inr (Some z))"

text \<open>The move constructor and assignment: the target, and the source after it.\<close>

definition tokenizer_move :: "public_tokenizer \<Rightarrow> public_tokenizer \<times> public_tokenizer" where
  "tokenizer_move source = (source, None)"

definition tokenizer_move_assign :: "public_tokenizer \<Rightarrow> public_tokenizer \<Rightarrow> public_tokenizer \<times> public_tokenizer" where
  "tokenizer_move_assign target source = (source, None)"

definition tokenizer_init :: "public_tokenizer \<Rightarrow> public_tokenizer" where
  "tokenizer_init t = t"

definition deref :: "public_tokenizer \<Rightarrow> tokenizer res" where
  "deref t = (case t of None \<Rightarrow> Inl NullDeref | Some z \<Rightarrow> Inr z)"

definition tokenizer_pretokenize :: "pcre \<Rightarrow> public_tokenizer \<Rightarrow> string \<Rightarrow> string list run" where
  "tokenizer_pretokenize P t s = run_bind (Some (deref t)) (\<lambda>z. pretokenize P (tz_re z) s)"

definition tokenizer_tokenize :: "pcre \<Rightarrow> public_tokenizer \<Rightarrow> string \<Rightarrow> (int list \<times> public_tokenizer) run" where
  "tokenizer_tokenize P t s = run_bind (Some (deref t)) (\<lambda>z.
     run_bind (tokenize P z s) (\<lambda>(ids, z). Some (Inr (ids, Some z))))"

definition tokenizer_decode :: "public_tokenizer \<Rightarrow> u32 \<Rightarrow> string res" where
  "tokenizer_decode t token_id = rbind (deref t) (\<lambda>z. Inr (decode z token_id))"

definition tokenizer_is_stop_token :: "public_tokenizer \<Rightarrow> string \<Rightarrow> bool res" where
  "tokenizer_is_stop_token t token = rbind (deref t) (\<lambda>z. Inr (is_stop_token z token))"

definition tokenizer_get_bos :: "public_tokenizer \<Rightarrow> string res" where
  "tokenizer_get_bos t = rbind (deref t) (\<lambda>z. Inr (get_bos z))"

definition tokenizer_get_eos :: "public_tokenizer \<Rightarrow> string res" where
  "tokenizer_get_eos t = rbind (deref t) (\<lambda>z. Inr (get_eos z))"

section \<open>Facts\<close>

text \<open>What a tokenizer was made for stays with the target of a move; the source can no longer be used.\<close>

lemma moved_tokenizer:
  assumes "tokenizer_for_model P info = Inr t" and "tokenizer_move t = (t', old)"
  shows "\<exists>z. for_model P info = Inr z \<and> deref t' = Inr z"
    and "tokenizer_tokenize P old s = Some (Inl NullDeref)" and "tokenizer_decode old i = Inl NullDeref"
  using assms by (auto simp: tokenizer_for_model_def tokenizer_move_def deref_def rbind_eq_Inr
      tokenizer_tokenize_def tokenizer_decode_def)

lemma default_tokenizer:
  "tokenizer_pretokenize P tokenizer_default s = Some (Inl NullDeref)"
  "tokenizer_tokenize P tokenizer_default s = Some (Inl NullDeref)"
  "tokenizer_is_stop_token tokenizer_default s = Inl NullDeref"
  by (simp_all add: tokenizer_default_def deref_def tokenizer_pretokenize_def tokenizer_tokenize_def
      tokenizer_is_stop_token_def)

end
