(* ===== verification/Spec2Isabelle.thy ===== *)
theory Spec2Isabelle
  imports GGUF_Properties Tokenizer_Properties KV_Properties Runtime_Properties Server_Properties
    Server_Run_Properties Model_Properties Engine_Properties System_Properties Tools_Properties Served_Chat
    Test_Properties Tokenizer_Facade
begin

text \<open>
  ZInferLM: a verification development.

  The program loads a language model from a GGUF file, tokenizes text, runs a Qwen transformer on
  ggml, samples the next token until a stop token or a limit, and offers this as a library, an HTTP
  server with streamed replies, and command line programs. The development models its parts one by
  one, in the order in which data flows through them, and proves what each promises and how they fit
  together.

  \<^bold>\<open>Foundations.\<close> \<open>Prelude\<close> has the faults a C++ operation can end in, results that carry them
  (\<open>res\<close>; \<open>run\<close> when a loop may not return, with \<open>None\<close> for not returning), vectors indexed by
  \<open>size_t\<close> and \<open>int\<close>, and 32-bit truncation. \<open>Containers\<close> has \<open>std::unordered_map\<close> as an association
  list with the semantics of \<open>emplace\<close>, assignment, \<open>operator[]\<close> and \<open>erase\<close>; its laws are a locale
  interpreted on that list. \<open>Bytes\<close> reads little-endian integers from the mapped file and faults
  outside it.

  \<^bold>\<open>The model file\<close> (\<open>src/model_loader/gguf/\<close>). \<open>Metadata\<close>: values, sizes, \<open>from_ptr\<close> parsers,
  accessors, printing. \<open>Tensors\<close>: the tensor index. \<open>Loader\<close>: header, the two maps, alignment,
  queries. \<open>Metadata_Format\<close> states the layout of a file independently of the parsers (\<open>enc_gguf\<close>),
  \<open>Loader_Facts\<close> relates them, \<open>GGUF_Properties\<close> concludes: a well-formed file is read back, values
  round-trip, the tensor address is the least aligned one; a crafted array makes the parser recurse
  for ever, and an alignment stored as the format prescribes is rejected.

  \<^bold>\<open>The tokenizer\<close> (\<open>src/tokenizer/\<close>). \<open>Special_Trie\<close>: the trie of special tokens against the longest
  match (locale \<open>trie\<close>). \<open>Byte_Unicode\<close>: the detour of bytes through code points. \<open>Bpe\<close>: the merge
  loop against greedy merging as a step relation with unique normal forms; \<open>Bpe_Reference\<close>: against
  the encoder of GPT-2, which merges all occurrences of a pair at once. \<open>Pretokenize\<close>: splitting by a
  regular expression. \<open>Tokenizer\<close> composes them; \<open>Tokenizer_Facts\<close> and \<open>Tokenizer_Properties\<close> prove
  that decoding undoes encoding over a closed vocabulary. \<open>Tokenizer_Facade\<close>: the public class, a
  pointer that is null after a move.

  \<^bold>\<open>The transformer\<close> (\<open>src/layers/\<close>, \<open>src/models/\<close>, \<open>src/engine/\<close>). \<open>Graph_Terms\<close>: a tensor is the term
  of the ggml calls that made it; ggml itself is the parameter \<open>ggml\<close>, which gives sizes and tells
  which calls it accepts. \<open>Layers\<close>: each layer's \<open>forward\<close> and \<open>Layer::operator()\<close>. \<open>Qwen\<close>: inputs,
  mask, positions, the layers of a model, \<open>build_graph\<close>. \<open>Qwen_Facts\<close>: the shapes of the graph, the order of cache
  writes, the data of the inputs. \<open>Models\<close>: backends, creation and binding of tensors in the builds
  with and without CUDA, \<open>Model::load\<close> and the singleton. \<open>Model_File\<close>: a file that lists the tensors
  of a Qwen model gives, once loaded, a graph that type-checks, and runs on it return. \<open>Debug_Print\<close>: the printer of tensors against a view of each axis. \<open>Model_Properties\<close>:
  loading binds the tensors of the file, the graph type-checks, the mask is causal, a model with tied
  embeddings ends in a null pointer.

  \<^bold>\<open>The cache\<close> (\<open>src/kv_cache/\<close>). \<open>KV_Cache\<close>: blocks, usage, allocation, the copies of \<open>write_kv\<close>.
  \<open>KV_Cache_Facts\<close>: the rows a write occupies. \<open>KV_Views\<close>: their byte addresses. \<open>KV_Properties\<close>: a
  write with room stores every token once, inside the tensor; a full cache is indexed with \<open>-1\<close>, and
  layers overwrite one another's rows.

  \<^bold>\<open>A run\<close> (\<open>src/sampling/\<close>, \<open>src/inference/\<close>, \<open>src/worker/\<close>, \<open>src/events/\<close>, \<open>src/metrics/\<close>,
  \<open>src/chat/\<close>). \<open>Sampler\<close>: greedy, top-k, top-p over abstract floats. \<open>Event_Bus\<close>: the dispatcher, with
  the locale \<open>event_bus\<close> for its contract. \<open>Metrics\<close>: the collector; \<open>Metrics_Facts\<close>: the events of a
  run on their way to it. \<open>Inference_Loop\<close>: generation and
  its events over an abstract engine; \<open>Inference_Facts\<close>: its log. \<open>Engine\<close>: prediction with the
  Qwen graph, its inputs and the cached graph; \<open>Engine_Run\<close>: the two predictions agree, and both
  engines interpret the locale \<open>steady_engine\<close>, what the loop asks of an engine. \<open>Task_Worker\<close>: the queue and thread as a step
  relation, one step per critical section. \<open>Chat\<close>: messages, template, submission. The properties
  are in \<open>Runtime_Properties\<close> and \<open>Engine_Properties\<close>: the exact event sequence of a run, a run on a
  typed model ends in a result, the logits are the last row; promises settle once and in order; the cache is
  written for the prompt and one token only. \<open>System_Properties\<close> joins everything from the bytes of a
  model file to the text of a run, and to the figures the metrics collector reports of it.

  \<^bold>\<open>The programs\<close> (\<open>tools/\<close>). \<open>Server_Session\<close>: the strand, the streaming queue and the writes as a
  step relation; \<open>Server_Facts\<close>: its invariant and the decoding of chunks. \<open>Server_Handlers\<close>: routing
  and the chat request. \<open>Chat_Delivery\<close>: from the run through the dispatcher to the session;
  \<open>Chat_Sessions\<close>: several chats at once, projected to one of them; \<open>Chat_Lifetime\<close>: the id the callback
  reads by reference, with a store of locals that refines the former as long as no dead local is read.
  \<open>Stream_Progress\<close>: the strand comes to rest, and what the client has then. \<open>Server_Listener\<close>: accepting.
  \<open>Server_Run\<close>: \<open>main\<close> and \<open>Server::run\<close>, the threads that run handlers, exceptions, shutdown.
  \<open>Command_Line\<close>: the other programs, with all they print. \<open>Test_Programs\<close>: the programs of
  \<open>tests/\<close>. \<open>Server_Properties\<close>, \<open>Server_Run_Properties\<close>, \<open>Tools_Properties\<close> and \<open>Test_Properties\<close>
  conclude: replies are streamed in order and chats do not disturb one another; a signal stops the
  server after a bounded number of steps, one malformed request ends it, a port that is taken is
  reported as a graceful shutdown. \<open>Served_Chat\<close> is the whole way: from a model file and a request to the
  text the client decodes.

  \<^bold>\<open>Conventions.\<close> A function that may fault gives \<open>Inl\<close> of the fault; undefined behaviour is a fault, not
  a value. Machine integers keep their width where wrap-around can be seen (\<open>u32\<close>, \<open>u64\<close>, \<open>wrap32\<close>);
  floats are bit patterns when they are only carried, and elements of a parameter type with its
  operations when they are computed with; laws such as a strict weak order are hypotheses of the
  properties that need them. Loops that may not end are partial functions; the only fuel is that of
  the client that decodes chunks in \<open>Server_Facts\<close>, for which one more than the number of chunks is
  proved to be enough.

  \<^bold>\<open>Parameters.\<close> Outside the repository are ggml (shapes, accepted calls, scheduler, computation), PCRE2
  (compilation, a match at an offset), minja, Boost.JSON (parse and serialize), Asio (completions
  with or without error), the operating system (open, stat, mmap), clock, and random numbers. What is
  relied on is stated in hypotheses: \<open>ggml_shapes\<close> has the documented shape rules, \<open>covers\<close> says that
  matches are non-empty and begin where they are asked for, \<open>engine_computes\<close> and \<open>backend_ok\<close> that a
  computation succeeds and fills its output. Each has an instance in the witnesses.

  \<^bold>\<open>Not modelled.\<close> The constructor sizes of ggml contexts and the usage and error lines on \<open>stderr\<close>
  have no effect on the state; how a float is printed is a parameter. The tests call \<open>Model::invoke\<close>,
  which does not exist, so it is a parameter of their models. The handlers of
  the listener and of the end of a session are single steps, the handler of a read is not: its effect on
  the server is at its end, while other threads go on. Of lifetimes, that of the id of a chat is
  modelled; that a chunk is written from a local string is noted as a finding only, as it depends on what
  Asio sends before the write returns. The attention
  calls the cache by an interface the class of this commit does not have, so the graph takes the
  cache as a parameter (\<open>cache_api\<close>) and \<open>KV_Cache\<close> models the class as it is.
\<close>

end
